(* ===== verification/Prelude.thy ===== *)
theory Prelude
  imports Main "HOL-Library.Word"
begin

unbundle bit_operations_syntax

text \<open>
  What the components share: the fixed-width integers of the C++ sources, the ways a C++
  statement can go wrong as values of a type, raw byte buffers with the \<open>memcpy\<close> calls the
  sources make on them, and the little-endian representation of the integer registers.
  The word \<open>w\<close> of type \<open>std::uint32_t\<close> is a \<open>32 word\<close>, so its arithmetic wraps as the
  standard says. The host is little-endian (as the sources assume: they copy registers to
  payload buffers with \<open>memcpy\<close>).
\<close>

section \<open>Collections\<close>

text \<open>
  \<open>res_simps\<close> unfolds the plumbing of faults and buffers, \<open>dev_defs\<close> the operations of a
  component, \<open>reg_defs\<close> its register offsets and bit masks.
\<close>

named_theorems res_simps
named_theorems dev_defs
named_theorems reg_defs

section \<open>Integers\<close>

type_synonym u8 = "8 word"
type_synonym u16 = "16 word"
type_synonym u32 = "32 word"
type_synonym u64 = "64 word"

section \<open>Faults\<close>

text \<open>
  The first group are the C++ operations without defined behaviour that the sources can
  reach; the second group are the exceptions the sources throw, \<open>Sc_error\<close> being the
  exception \<open>SC_REPORT_ERROR\<close> throws by default. \<open>Would_wait\<close> marks a blocking call that
  suspends its process at a place the model takes as atomic.
\<close>

datatype fault =
    Null_deref
  | Out_of_bounds
  | Div_by_zero
  | Shift_too_wide
  | Signed_overflow
  | Conversion_overflow
  | Invalid_argument string
  | Out_of_range string
  | Runtime_error string
  | Sc_error string
  | Would_wait

type_synonym 'a res = "fault + 'a"

definition bindR :: "'a res \<Rightarrow> ('a \<Rightarrow> 'b res) \<Rightarrow> 'b res" where
  "bindR m f = (case m of Inl e \<Rightarrow> Inl e | Inr x \<Rightarrow> f x)"

definition undefined_behaviour :: "'a res \<Rightarrow> bool" where
  "undefined_behaviour r \<longleftrightarrow>
     r \<in> {Inl Null_deref, Inl Out_of_bounds, Inl Div_by_zero, Inl Shift_too_wide,
          Inl Signed_overflow, Inl Conversion_overflow}"

section \<open>Raw buffers\<close>

text \<open>
  \<open>memcpy_from src off n\<close> reads \<open>n\<close> bytes at \<open>src + off\<close>, \<open>memcpy_to dst off bs\<close> stores the
  bytes \<open>bs\<close> at \<open>dst + off\<close>; a copy that leaves the buffer is a fault.
\<close>

definition memcpy_from :: "u8 list \<Rightarrow> nat \<Rightarrow> nat \<Rightarrow> u8 list res" where
  "memcpy_from src off n =
     (if off + n \<le> length src then Inr (take n (drop off src)) else Inl Out_of_bounds)"

definition memcpy_to :: "u8 list \<Rightarrow> nat \<Rightarrow> u8 list \<Rightarrow> u8 list res" where
  "memcpy_to dst off bs =
     (if off + length bs \<le> length dst
      then Inr (take off dst @ bs @ drop (off + length bs) dst) else Inl Out_of_bounds)"

text \<open>Reading and writing an element of a \<open>std::vector\<close> or an array.\<close>

definition vec_at :: "'a list \<Rightarrow> nat \<Rightarrow> 'a res" where
  "vec_at xs i = (if i < length xs then Inr (xs ! i) else Inl Out_of_bounds)"

definition vec_put :: "'a list \<Rightarrow> nat \<Rightarrow> 'a \<Rightarrow> 'a list res" where
  "vec_put xs i v = (if i < length xs then Inr (xs[i := v]) else Inl Out_of_bounds)"

section \<open>Little-endian integers\<close>

primrec le_bytes :: "nat \<Rightarrow> 'a::len word \<Rightarrow> u8 list" where
  "le_bytes 0 w = []"
| "le_bytes (Suc n) w = ucast w # le_bytes n (drop_bit 8 w)"

primrec le_word :: "u8 list \<Rightarrow> 'a::len word" where
  "le_word [] = 0"
| "le_word (b # bs) = ucast b OR push_bit 8 (le_word bs)"

section \<open>Lemmas\<close>

lemma bindR_Inl [simp, res_simps]: "bindR (Inl e) f = Inl e"
  by (simp add: bindR_def)

lemma bindR_Inr [simp, res_simps]: "bindR (Inr x) f = f x"
  by (simp add: bindR_def)

lemma bindR_eq_Inr: "bindR m f = Inr y \<longleftrightarrow> (\<exists>x. m = Inr x \<and> f x = Inr y)"
  by (cases m) simp_all

lemma bindR_eq_Inl: "bindR m f = Inl e \<longleftrightarrow> m = Inl e \<or> (\<exists>x. m = Inr x \<and> f x = Inl e)"
  by (cases m) auto

lemma Inr_not_undefined [simp]: "\<not> undefined_behaviour (Inr x)"
  by (simp add: undefined_behaviour_def)

lemma vec_at_ok [simp]: "i < length xs \<Longrightarrow> vec_at xs i = Inr (xs ! i)"
  by (simp add: vec_at_def)

lemma vec_put_ok [simp]: "i < length xs \<Longrightarrow> vec_put xs i v = Inr (xs[i := v])"
  by (simp add: vec_put_def)

lemma length_le_bytes [simp]: "length (le_bytes n w) = n"
  by (induction n arbitrary: w) simp_all

lemma le_word_le_bytes: "le_word (le_bytes n w) = take_bit (8 * n) w"
proof (induction n arbitrary: w)
  case 0
  then show ?case by simp
next
  case (Suc n)
  show ?case
    by (rule bit_word_eqI) (auto simp: Suc.IH bit_simps)
qed

lemma le_word_le_bytes_full [simp]:
  "LENGTH('a) \<le> 8 * n \<Longrightarrow> le_word (le_bytes n (w :: 'a::len word)) = w"
  by (simp add: le_word_le_bytes take_bit_word_eq_self)

text \<open>Reading a register into a wider one, and bytes of two registers side by side.\<close>

lemma le_word_le_bytes_ucast:
  "(le_word (le_bytes n (w :: 'a::len word)) :: 'b::len word) = ucast (take_bit (8 * n) w)"
proof (induction n arbitrary: w)
  case 0
  then show ?case by simp
next
  case (Suc n)
  show ?case
    by (rule bit_word_eqI) (auto simp: Suc.IH bit_simps dest: bit_imp_le_length)
qed

lemma le_word_append: "le_word (xs @ ys) = le_word xs OR push_bit (8 * length xs) (le_word ys)"
proof (induction xs)
  case Nil
  then show ?case by simp
next
  case (Cons x xs)
  show ?case by (rule bit_word_eqI) (auto simp: Cons.IH bit_simps)
qed

lemma take_bit_le_word: "take_bit (8 * length bs) (le_word bs) = le_word bs"
proof (induction bs)
  case Nil
  then show ?case by simp
next
  case (Cons b bs)
  have "take_bit (8 * length (b # bs)) (le_word (b # bs)) =
      (ucast b :: 'a word) OR push_bit 8 (take_bit (8 * length bs) (le_word bs))"
    by (rule bit_word_eqI) (auto simp: bit_simps dest: bit_imp_le_length)
  then show ?case by (simp add: Cons.IH)
qed

lemma le_bytes_le_word:
  "8 * length bs \<le> LENGTH('a) \<Longrightarrow> le_bytes (length bs) (le_word bs :: 'a::len word) = bs"
proof (induction bs)
  case Nil
  then show ?case by simp
next
  case (Cons b bs)
  have hd: "ucast (ucast b OR push_bit 8 (le_word bs) :: 'a word) = b"
    by (rule bit_word_eqI) (use Cons.prems in \<open>auto simp: bit_simps\<close>)
  have "drop_bit 8 (ucast b OR push_bit 8 (le_word bs) :: 'a word)
      = take_bit (LENGTH('a) - 8) (take_bit (8 * length bs) (le_word bs))"
    by (rule bit_word_eqI) (auto simp: take_bit_le_word bit_simps dest: bit_imp_le_length)
  also have "\<dots> = take_bit (8 * length bs) (le_word bs :: 'a word)"
    unfolding take_bit_take_bit using Cons.prems by (simp add: min_absorb2)
  also have "\<dots> = le_word bs" by (rule take_bit_le_word)
  finally show ?case using Cons hd by simp
qed

lemma le_bytes_of_word:
  "length bs = n \<Longrightarrow> 8 * n = LENGTH('a) \<Longrightarrow> le_bytes n (le_word bs :: 'a::len word) = bs"
  using le_bytes_le_word [of bs, where ?'a = 'a] by simp

lemma take_le_bytes: "take m (le_bytes n w) = le_bytes (min m n) w"
proof (induction n arbitrary: m w)
  case (Suc n)
  then show ?case by (cases m) simp_all
qed simp

lemma drop_le_bytes: "drop m (le_bytes n w) = le_bytes (n - m) (drop_bit (8 * m) w)"
proof (induction n arbitrary: m w)
  case (Suc n)
  then show ?case by (cases m) (simp_all add: ac_simps)
qed simp

lemma memcpy_from_ok: "off + n \<le> length src \<Longrightarrow> \<exists>bs. memcpy_from src off n = Inr bs"
  by (simp add: memcpy_from_def)

lemma memcpy_to_ok: "off + length bs \<le> length dst \<Longrightarrow> \<exists>dst'. memcpy_to dst off bs = Inr dst'"
  by (simp add: memcpy_to_def)

lemma length_memcpy_from: "memcpy_from src off n = Inr bs \<Longrightarrow> length bs = n"
  by (auto simp: memcpy_from_def split: if_splits)

lemma length_memcpy_to: "memcpy_to dst off bs = Inr dst' \<Longrightarrow> length dst' = length dst"
  by (auto simp: memcpy_to_def split: if_splits)

lemma memcpy_from_whole [simp]: "n = length src \<Longrightarrow> memcpy_from src 0 n = Inr src"
  by (simp add: memcpy_from_def)

lemma memcpy_to_whole [simp]: "length bs = length dst \<Longrightarrow> memcpy_to dst 0 bs = Inr bs"
  by (simp add: memcpy_to_def)

lemma nth_memcpy_to:
  "memcpy_to dst off bs = Inr dst' \<Longrightarrow> i < length dst \<Longrightarrow>
     dst' ! i = (if off \<le> i \<and> i < off + length bs then bs ! (i - off) else dst ! i)"
  by (auto simp: memcpy_to_def nth_append min_def split: if_splits)

lemma nth_memcpy_from:
  "memcpy_from src off n = Inr bs \<Longrightarrow> i < n \<Longrightarrow> bs ! i = src ! (off + i)"
  by (auto simp: memcpy_from_def split: if_splits)

lemma memcpy_from_to:
  "memcpy_to dst off bs = Inr dst' \<Longrightarrow> memcpy_from dst' off (length bs) = Inr bs"
  by (auto simp: memcpy_to_def memcpy_from_def min_def split: if_splits)

lemma memcpy_from_to_other:
  assumes "memcpy_to dst off bs = Inr dst'"
    and "off' + n \<le> off \<or> off + length bs \<le> off'"
  shows "memcpy_from dst' off' n = memcpy_from dst off' n"
proof -
  have "take n (drop off' dst') = take n (drop off' dst)" if "off' + n \<le> length dst"
    using that assms length_memcpy_to [OF assms(1)]
    by (intro nth_equalityI) (auto simp: nth_memcpy_to [OF assms(1)])
  then show ?thesis
    using length_memcpy_to [OF assms(1)] by (auto simp: memcpy_from_def)
qed

lemma unat_ucast_32_64 [simp]: "unat (ucast (x :: u32) :: u64) = unat x"
proof -
  have "unat x < 2 ^ 64" using unsigned_less [of x, where ?'a = nat] by simp
  then show ?thesis by (simp add: unsigned_ucast_eq take_bit_nat_eq_self)
qed

lemma unat_mult_small:
  fixes x y :: "'a::len word"
  shows "unat x = m \<Longrightarrow> unat y = n \<Longrightarrow> m * n < 2 ^ LENGTH('a) \<Longrightarrow> unat (x * y) = m * n"
  using unat_mult_lem [of x y] by simp

text \<open>
  Congruences for running a program on a concrete state: what is bound is evaluated before the
  rest is looked at.
\<close>

lemma bindR_weak_cong: "m = m' \<Longrightarrow> bindR m f = bindR m' f"
  by simp

lemmas eval_congs = let_weak_cong bindR_weak_cong prod.case_cong_weak

end
