(* ===== verification/Tlm.thy ===== *)
theory Tlm
  imports Prelude
begin

text \<open>
  The TLM-2.0 side of the program: the generic payload with the attributes the sources read
  and write, the initiators of the repository that build such payloads (the probe of the unit
  tests and the bus accesses of the CPU stubs), and the contract every target of the
  repository is checked against, as the locale \<open>tlm_target\<close>. A blocking transport is a function
  from the target's state, the payload and the annotated delay to the updated three.
\<close>

section \<open>The generic payload\<close>

text \<open>Simulation time is \<open>sc_time\<close>'s 64-bit count of picoseconds.\<close>

type_synonym sc_time = u64

datatype tlm_command = TLM_READ_COMMAND | TLM_WRITE_COMMAND | TLM_IGNORE_COMMAND

datatype tlm_response =
    TLM_OK_RESPONSE
  | TLM_INCOMPLETE_RESPONSE
  | TLM_GENERIC_ERROR_RESPONSE
  | TLM_ADDRESS_ERROR_RESPONSE
  | TLM_COMMAND_ERROR_RESPONSE
  | TLM_BURST_ERROR_RESPONSE
  | TLM_BYTE_ENABLE_ERROR_RESPONSE

text \<open>
  The data pointer is \<open>None\<close> for a null pointer and otherwise the bytes it points to, which
  the initiator owns and the target may overwrite.
\<close>

record payload =
  command :: tlm_command
  address :: u64
  data_ptr :: "u8 list option"
  data_length :: u32
  streaming_width :: u32
  byte_enable_ptr :: "u8 list option"
  dmi_allowed :: bool
  response_status :: tlm_response

type_synonym 's transport = "'s \<Rightarrow> payload \<Rightarrow> sc_time \<Rightarrow> ('s \<times> payload \<times> sc_time) res"

text \<open>The debug transport takes no time and also returns the number of bytes it moved.\<close>

type_synonym 's debug_transport = "'s \<Rightarrow> payload \<Rightarrow> ('s \<times> payload \<times> u32) res"

definition empty_payload :: payload where
  "empty_payload = \<lparr>command = TLM_IGNORE_COMMAND, address = 0, data_ptr = None,
     data_length = 0, streaming_width = 0, byte_enable_ptr = None, dmi_allowed = False,
     response_status = TLM_INCOMPLETE_RESPONSE\<rparr>"

text \<open>Reads and writes through the data pointer.\<close>

definition ptr_load :: "payload \<Rightarrow> nat \<Rightarrow> u8 list res" where
  "ptr_load p n = (case data_ptr p of None \<Rightarrow> Inl Null_deref | Some b \<Rightarrow> memcpy_from b 0 n)"

definition ptr_store :: "payload \<Rightarrow> u8 list \<Rightarrow> payload res" where
  "ptr_store p bs = (case data_ptr p of None \<Rightarrow> Inl Null_deref
     | Some b \<Rightarrow> bindR (memcpy_to b 0 bs) (\<lambda>b'. Inr (p\<lparr>data_ptr := Some b'\<rparr>)))"

text \<open>What a caller owes: the buffer is as long as the data length says.\<close>

definition wf_payload :: "payload \<Rightarrow> bool" where
  "wf_payload p \<longleftrightarrow> (case data_ptr p of None \<Rightarrow> True | Some b \<Rightarrow> length b = unat (data_length p))"

text \<open>What a target keeps: every attribute but data, DMI hint and response.\<close>

definition same_attrs :: "payload \<Rightarrow> payload \<Rightarrow> bool" where
  "same_attrs p q \<longleftrightarrow> command q = command p \<and> address q = address p \<and>
     data_length q = data_length p \<and> streaming_width q = streaming_width p \<and>
     byte_enable_ptr q = byte_enable_ptr p \<and>
     map_option length (data_ptr q) = map_option length (data_ptr p)"

section \<open>Initiators\<close>

text \<open>\<open>tlm_probe::fill\<close> and \<open>tlm_probe::access\<close>, and the two accessors over it.\<close>

definition fill :: "tlm_command \<Rightarrow> u64 \<Rightarrow> u8 list option \<Rightarrow> u32 \<Rightarrow> payload" where
  "fill cmd addr dat len = empty_payload\<lparr>command := cmd, address := addr, data_ptr := dat,
     data_length := len, streaming_width := len,
     response_status := TLM_INCOMPLETE_RESPONSE\<rparr>"

definition probe_access ::
  "'s transport \<Rightarrow> tlm_command \<Rightarrow> u64 \<Rightarrow> u8 list \<Rightarrow> u32 \<Rightarrow> 's \<Rightarrow>
     ('s \<times> tlm_response \<times> u8 list option) res" where
  "probe_access bt cmd addr dat len s =
     bindR (bt s (fill cmd addr (Some dat) len) 0)
       (\<lambda>(s', p', d'). Inr (s', response_status p', data_ptr p'))"

definition probe_write ::
  "'s transport \<Rightarrow> u64 \<Rightarrow> u8 list \<Rightarrow> u32 \<Rightarrow> 's \<Rightarrow> ('s \<times> tlm_response \<times> u8 list option) res" where
  "probe_write bt addr dat len s = probe_access bt TLM_WRITE_COMMAND addr dat len s"

definition probe_read ::
  "'s transport \<Rightarrow> u64 \<Rightarrow> u8 list \<Rightarrow> u32 \<Rightarrow> 's \<Rightarrow> ('s \<times> tlm_response \<times> u8 list option) res" where
  "probe_read bt addr dat len s = probe_access bt TLM_READ_COMMAND addr dat len s"

text \<open>
  The bus accesses of the platforms' CPU stubs. A failed response is thrown as
  \<open>std::runtime_error\<close>.
\<close>

definition is_response_error :: "payload \<Rightarrow> bool" where
  "is_response_error p \<longleftrightarrow> response_status p \<noteq> TLM_OK_RESPONSE"

definition write8 :: "'s transport \<Rightarrow> u64 \<Rightarrow> u8 \<Rightarrow> 's \<Rightarrow> 's res" where
  "write8 bt addr v s =
     bindR (bt s (fill TLM_WRITE_COMMAND addr (Some [v]) 1) 0)
       (\<lambda>(s', p', d'). if is_response_error p' then Inl (Runtime_error ''UART write failed'')
          else Inr s')"

definition write32 :: "'s transport \<Rightarrow> u64 \<Rightarrow> u32 \<Rightarrow> 's \<Rightarrow> 's res" where
  "write32 bt addr v s =
     bindR (bt s (fill TLM_WRITE_COMMAND addr (Some (le_bytes 4 v)) 4) 0)
       (\<lambda>(s', p', d'). if is_response_error p' then Inl (Runtime_error ''word write failed'')
          else Inr s')"

definition read32 :: "'s transport \<Rightarrow> u64 \<Rightarrow> 's \<Rightarrow> ('s \<times> u32) res" where
  "read32 bt addr s =
     bindR (bt s (fill TLM_READ_COMMAND addr (Some [0, 0, 0, 0]) 4) 0)
       (\<lambda>(s', p', d'). if is_response_error p' then Inl (Runtime_error ''word read failed'')
          else bindR (ptr_load p' 4) (\<lambda>bs. Inr (s', le_word bs)))"

text \<open>A sequence of transactions on one target, in order.\<close>

fun run_transport :: "'s transport \<Rightarrow> payload list \<Rightarrow> 's \<Rightarrow> ('s \<times> tlm_response list) res" where
  "run_transport bt [] s = Inr (s, [])"
| "run_transport bt (p # ps) s =
     bindR (bt s p 0) (\<lambda>(s', p', d').
       bindR (run_transport bt ps s') (\<lambda>(s'', rs). Inr (s'', response_status p' # rs)))"

text \<open>A target whose state is one part of a larger one.\<close>

definition on_part :: "('s \<Rightarrow> 't) \<Rightarrow> ('t \<Rightarrow> 's \<Rightarrow> 's) \<Rightarrow> 't transport \<Rightarrow> 's transport" where
  "on_part get put bt s p d =
     bindR (bt (get s) p d) (\<lambda>(t, p', d'). Inr (put t s, p', d'))"

definition on_part_dbg ::
  "('s \<Rightarrow> 't) \<Rightarrow> ('t \<Rightarrow> 's \<Rightarrow> 's) \<Rightarrow> 't debug_transport \<Rightarrow> 's debug_transport" where
  "on_part_dbg get put dbg s p =
     bindR (dbg (get s) p) (\<lambda>(t, p', n). Inr (put t s, p', n))"

text \<open>The result of a transport that an initiator can work with.\<close>

definition good_outcome :: "('s \<Rightarrow> bool) \<Rightarrow> payload \<Rightarrow> ('s \<times> payload \<times> sc_time) res \<Rightarrow> bool" where
  "good_outcome invar p r = (case r of Inl e \<Rightarrow> False
     | Inr (s', p', d') \<Rightarrow> invar s' \<and> same_attrs p p' \<and>
         response_status p' \<noteq> TLM_INCOMPLETE_RESPONSE \<and>
         (command p = TLM_WRITE_COMMAND \<longrightarrow> data_ptr p' = data_ptr p))"

section \<open>Facts on payloads\<close>

lemma same_attrs_refl [simp]: "same_attrs p p"
  by (simp add: same_attrs_def)

lemma same_attrs_status [simp]:
  "same_attrs p (q\<lparr>response_status := r\<rparr>) = same_attrs p q"
  "same_attrs p (q\<lparr>dmi_allowed := b\<rparr>) = same_attrs p q"
  by (simp_all add: same_attrs_def)

lemma same_attrs_wf: "same_attrs p q \<Longrightarrow> wf_payload p \<Longrightarrow> wf_payload q"
  by (auto simp: same_attrs_def wf_payload_def split: option.splits)

lemma same_attrs_trans: "same_attrs p q \<Longrightarrow> same_attrs q r \<Longrightarrow> same_attrs p r"
  by (simp add: same_attrs_def)

lemma wf_payload_address [simp]: "wf_payload (p\<lparr>address := a\<rparr>) = wf_payload p"
  by (simp add: wf_payload_def split: option.splits)

lemma ptr_load_Some [res_simps]: "data_ptr p = Some b \<Longrightarrow> ptr_load p n = memcpy_from b 0 n"
  by (simp add: ptr_load_def)

lemma ptr_load_eq_Inr: "ptr_load p n = Inr bs \<longleftrightarrow>
    (\<exists>b. data_ptr p = Some b \<and> n \<le> length b \<and> bs = take n b)"
  by (auto simp: ptr_load_def memcpy_from_def split: option.splits)

lemma ptr_store_eq_Inr: "ptr_store p bs = Inr q \<longleftrightarrow>
    (\<exists>b. data_ptr p = Some b \<and> length bs \<le> length b \<and>
       q = p\<lparr>data_ptr := Some (bs @ drop (length bs) b)\<rparr>)"
  by (auto simp: ptr_store_def memcpy_to_def split: option.splits)

lemma ptr_load_ok: "wf_payload p \<Longrightarrow> data_ptr p \<noteq> None \<Longrightarrow> n \<le> unat (data_length p) \<Longrightarrow>
    \<exists>bs. ptr_load p n = Inr bs"
  by (auto simp: ptr_load_def wf_payload_def memcpy_from_def)

lemma ptr_store_ok: "wf_payload p \<Longrightarrow> data_ptr p \<noteq> None \<Longrightarrow> length bs \<le> unat (data_length p) \<Longrightarrow>
    \<exists>q. ptr_store p bs = Inr q"
  by (auto simp: ptr_store_def wf_payload_def memcpy_to_def)

lemma ptr_store_attrs: "ptr_store p bs = Inr q \<Longrightarrow> same_attrs p q"
  by (auto simp: ptr_store_eq_Inr same_attrs_def)

lemma fill_sel [simp]:
  "command (fill c a x n) = c" "address (fill c a x n) = a" "data_ptr (fill c a x n) = x"
  "data_length (fill c a x n) = n" "streaming_width (fill c a x n) = n"
  "byte_enable_ptr (fill c a x n) = None"
  "response_status (fill c a x n) = TLM_INCOMPLETE_RESPONSE"
  by (simp_all add: fill_def empty_payload_def)

lemma wf_fill: "wf_payload (fill c a (Some bs) n) \<longleftrightarrow> length bs = unat n"
  by (simp add: wf_payload_def)

lemma good_outcome_Inr [simp]:
  "good_outcome invar p (Inr (s', p', d')) \<longleftrightarrow> invar s' \<and> same_attrs p p' \<and>
     response_status p' \<noteq> TLM_INCOMPLETE_RESPONSE \<and>
     (command p = TLM_WRITE_COMMAND \<longrightarrow> data_ptr p' = data_ptr p)"
  by (simp add: good_outcome_def)

lemma good_outcomeE:
  assumes "good_outcome invar p r"
  obtains s' p' d' where "r = Inr (s', p', d')" and "invar s'" and "same_attrs p p'"
    and "response_status p' \<noteq> TLM_INCOMPLETE_RESPONSE"
    and "command p = TLM_WRITE_COMMAND \<longrightarrow> data_ptr p' = data_ptr p"
  using assms by (auto simp: good_outcome_def split: sum.splits prod.splits)

section \<open>The contract of a target\<close>

text \<open>
  \<open>bt\<close> is the target's \<open>b_transport\<close>, \<open>invar\<close> what holds between transactions and \<open>ok\<close> what the
  target needs of a payload to stay within defined behaviour. The laws are those an initiator
  and an interconnect rely on: a call returns, the state stays well-formed, the response is
  set, the attributes the initiator owns come back unchanged, and a write leaves the
  initiator's buffer alone.
\<close>

locale tlm_target =
  fixes bt :: "'s transport"
    and invar :: "'s \<Rightarrow> bool"
    and ok :: "payload \<Rightarrow> bool"
  assumes returns: "invar s \<Longrightarrow> ok p \<Longrightarrow> \<exists>s' p' d'. bt s p d = Inr (s', p', d')"
    and keeps_inv: "invar s \<Longrightarrow> ok p \<Longrightarrow> bt s p d = Inr (s', p', d') \<Longrightarrow> invar s'"
    and keeps_attrs: "invar s \<Longrightarrow> ok p \<Longrightarrow> bt s p d = Inr (s', p', d') \<Longrightarrow> same_attrs p p'"
    and responds: "invar s \<Longrightarrow> ok p \<Longrightarrow> bt s p d = Inr (s', p', d') \<Longrightarrow>
      response_status p' \<noteq> TLM_INCOMPLETE_RESPONSE"
    and keeps_write_data: "invar s \<Longrightarrow> ok p \<Longrightarrow> bt s p d = Inr (s', p', d') \<Longrightarrow>
      command p = TLM_WRITE_COMMAND \<Longrightarrow> data_ptr p' = data_ptr p"
begin

lemma good: "invar s \<Longrightarrow> ok p \<Longrightarrow> good_outcome invar p (bt s p d)"
  using returns [of s p d] keeps_inv keeps_attrs responds keeps_write_data by fastforce

lemma transportE:
  assumes "invar s" and "ok p"
  obtains s' p' d' where "bt s p d = Inr (s', p', d')" and "invar s'" and "same_attrs p p'"
    and "response_status p' \<noteq> TLM_INCOMPLETE_RESPONSE"
  using good [OF assms, of d] by (auto elim: good_outcomeE)

text \<open>The access of the probe returns, and its status is never the initial one.\<close>

lemma probe_access_returns:
  assumes "invar s" and "ok (fill cmd addr (Some dat) len)"
  shows "\<exists>s' r buf. probe_access bt cmd addr dat len s = Inr (s', r, buf) \<and> invar s' \<and>
    r \<noteq> TLM_INCOMPLETE_RESPONSE \<and> map_option length buf = Some (length dat)"
  by (rule transportE [OF assms, of 0]) (auto simp: probe_access_def same_attrs_def)

text \<open>The accesses of the CPU stubs never fault: they succeed or throw \<open>std::runtime_error\<close>.\<close>

lemma write32_defined:
  assumes "invar s" and "ok (fill TLM_WRITE_COMMAND addr (Some (le_bytes 4 v)) 4)"
  shows "(\<exists>s'. write32 bt addr v s = Inr s' \<and> invar s') \<or>
    write32 bt addr v s = Inl (Runtime_error ''word write failed'')"
  by (rule transportE [OF assms, of 0]) (auto simp: write32_def)

lemma read32_defined:
  assumes "invar s" and "ok (fill TLM_READ_COMMAND addr (Some [0, 0, 0, 0]) 4)"
  shows "(\<exists>s' v. read32 bt addr s = Inr (s', v) \<and> invar s') \<or>
    read32 bt addr s = Inl (Runtime_error ''word read failed'')"
  by (rule transportE [OF assms, of 0])
    (auto simp: read32_def same_attrs_def ptr_load_def memcpy_from_def)

text \<open>A whole sequence of acceptable transactions returns, with one response for each.\<close>

lemma run_transport_returns:
  assumes "invar s" and "\<forall>p \<in> set ps. ok p"
  shows "\<exists>s' rs. run_transport bt ps s = Inr (s', rs) \<and> invar s' \<and> length rs = length ps \<and>
    TLM_INCOMPLETE_RESPONSE \<notin> set rs"
  using assms
proof (induction ps arbitrary: s)
  case Nil
  then show ?case by simp
next
  case (Cons p ps)
  then obtain s' p' d' where step: "bt s p 0 = Inr (s', p', d')" and "invar s'"
    and resp: "response_status p' \<noteq> TLM_INCOMPLETE_RESPONSE"
    by (metis list.set_intros(1) transportE)
  from Cons.IH [OF \<open>invar s'\<close>] Cons.prems(2)
  obtain s'' rs where "run_transport bt ps s' = Inr (s'', rs)" "invar s''" "length rs = length ps"
    "TLM_INCOMPLETE_RESPONSE \<notin> set rs" by auto
  with step resp show ?case by simp
qed

end

lemma tlm_targetI:
  assumes "\<And>s p d. invar s \<Longrightarrow> ok p \<Longrightarrow> good_outcome invar p (bt s p d)"
  shows "tlm_target bt invar ok"
  using assms
  by unfold_locales (fastforce simp: good_outcome_def split: sum.splits)+

lemma on_part_target:
  assumes "tlm_target bt invar ok"
    and part: "\<And>s. whole s \<Longrightarrow> invar (get s)"
    and put: "\<And>s t. whole s \<Longrightarrow> invar t \<Longrightarrow> whole (put t s)"
  shows "tlm_target (on_part get put bt) whole ok"
proof (rule tlm_targetI)
  fix s p d assume "whole s" "ok p"
  with tlm_target.good [OF assms(1) part] have "good_outcome invar p (bt (get s) p d)" by blast
  with \<open>whole s\<close> show "good_outcome whole p (on_part get put bt s p d)"
    by (auto elim!: good_outcomeE simp: on_part_def put)
qed

end
