(* ===== verification/Systemc.thy ===== *)
theory Systemc
  imports Tlm
begin

text \<open>
  The simulation kernel's notions the components use: an event with its pending notification
  (an event has at most one, and a new one replaces it only when it is earlier), and the calls
  a controller makes on the CPU's interrupt input, kept as a log. The locale \<open>level_irq\<close> is the
  contract of a CPU model with level-sensitive interrupt inputs.
\<close>

section \<open>Events\<close>

text \<open>A notification is due in the next delta cycle or at an absolute time.\<close>

datatype notification = Delta | Timed sc_time

type_synonym sc_event = "notification option"

definition notify_delta :: "sc_event \<Rightarrow> sc_event" where
  "notify_delta e = Some Delta"

text \<open>Notifications are ordered by when they are due, the next delta cycle before any later time.\<close>

instantiation notification :: linorder
begin

fun less_eq_notification :: "notification \<Rightarrow> notification \<Rightarrow> bool" where
  "less_eq_notification Delta n = True"
| "less_eq_notification (Timed t) Delta = False"
| "less_eq_notification (Timed t) (Timed u) = (t \<le> u)"

definition less_notification :: "notification \<Rightarrow> notification \<Rightarrow> bool" where
  "less_notification m n = (m \<le> n \<and> \<not> n \<le> m)"

instance
proof
  fix x y z :: notification
  show "(x < y) = (x \<le> y \<and> \<not> y \<le> x)" by (rule less_notification_def)
  show "x \<le> x" by (cases x) simp_all
  show "x \<le> y \<Longrightarrow> y \<le> z \<Longrightarrow> x \<le> z" by (cases x; cases y; cases z) simp_all
  show "x \<le> y \<Longrightarrow> y \<le> x \<Longrightarrow> x = y" by (cases x; cases y) simp_all
  show "x \<le> y \<or> y \<le> x" by (cases x; cases y) auto
qed

end

text \<open>A pending notification is replaced only by an earlier one.\<close>

definition notify_at :: "sc_time \<Rightarrow> sc_event \<Rightarrow> sc_event" where
  "notify_at t e = (case e of None \<Rightarrow> Some (Timed t) | Some n \<Rightarrow> Some (min (Timed t) n))"

text \<open>\<open>notify(t)\<close> at time \<open>now\<close>; \<open>notify(SC_ZERO_TIME)\<close> is a delta notification.\<close>

definition notify_after :: "sc_time \<Rightarrow> sc_time \<Rightarrow> sc_event \<Rightarrow> sc_event" where
  "notify_after now t e = (if t = 0 then notify_delta e else notify_at (now + t) e)"

section \<open>Interrupt inputs of a CPU\<close>

text \<open>The calls \<open>set_irq(cause, level)\<close> made on a \<open>cpu_base\<close>, oldest first.\<close>

type_synonym irq_log = "(nat \<times> bool) list"

definition irq_level :: "irq_log \<Rightarrow> nat \<Rightarrow> bool" where
  "irq_level calls cause =
     (case filter (\<lambda>c. fst c = cause) (rev calls) of [] \<Rightarrow> False | c # _ \<Rightarrow> snd c)"

definition replay :: "(nat \<Rightarrow> bool \<Rightarrow> 'c \<Rightarrow> 'c) \<Rightarrow> irq_log \<Rightarrow> 'c \<Rightarrow> 'c" where
  "replay set_irq calls cpu = fold (\<lambda>(cause, level). set_irq cause level) calls cpu"

section \<open>Lemmas\<close>

lemma irq_level_Nil [simp]: "irq_level [] c = False"
  by (simp add: irq_level_def)

lemma irq_level_snoc [simp]: "irq_level (calls @ [(c', l)]) c = (if c' = c then l else irq_level calls c)"
  by (simp add: irq_level_def)

text \<open>
  A level-sensitive CPU: the level of an input in \<open>causes\<close> is what the last call for that cause
  set, and calls for other causes leave it.
\<close>

locale level_irq =
  fixes set_irq :: "nat \<Rightarrow> bool \<Rightarrow> 'c \<Rightarrow> 'c"
    and pending :: "'c \<Rightarrow> nat \<Rightarrow> bool"
    and causes :: "nat set"
  assumes set_level: "c \<in> causes \<Longrightarrow>
    pending (set_irq c' l cpu) c = (if c' = c then l else pending cpu c)"
begin

lemma replay_pending:
  assumes "c \<in> causes" and "\<not> pending cpu c"
  shows "pending (replay set_irq calls cpu) c = irq_level calls c"
proof (induction calls rule: rev_induct)
  case Nil
  with assms show ?case by (simp add: replay_def)
next
  case (snoc x calls)
  with assms show ?case
    by (cases x) (auto simp: replay_def set_level)
qed

end

end
