(* ===== verification/Options.thy ===== *)
theory Options
  imports Systemc "HOL-Library.Log_Nat"
begin

text \<open>
  The command lines of the platforms (\<open>platforms/*/src/main.cpp\<close>): the search for options and flags
  in \<open>argv\<close>, the conversion of a number by \<open>std::stoull\<close>, and of a number of time units, through
  \<open>double\<close>, to a simulation time. A command line is the list of the strings in \<open>argv\<close>, the program's
  name first.
\<close>

section \<open>Options\<close>

fun get_opt_loop :: "string list \<Rightarrow> string \<Rightarrow> string \<Rightarrow> string" where
  "get_opt_loop (a # b # rest) name dflt = (if a = name then b else get_opt_loop (b # rest) name dflt)"
| "get_opt_loop [a] name dflt = dflt"
| "get_opt_loop [] name dflt = dflt"

definition get_opt :: "string list \<Rightarrow> string \<Rightarrow> string \<Rightarrow> string" where
  "get_opt argv name dflt = get_opt_loop (tl argv) name dflt"

fun has_flag_loop :: "string list \<Rightarrow> string \<Rightarrow> bool" where
  "has_flag_loop [] name = False"
| "has_flag_loop (a # rest) name = (if a = name then True else has_flag_loop rest name)"

definition has_flag :: "string list \<Rightarrow> string \<Rightarrow> bool" where
  "has_flag argv name = has_flag_loop (tl argv) name"

text \<open>The configuration of the two small platforms, whose default is the only difference.\<close>

fun parse_config_loop :: "string \<Rightarrow> string list \<Rightarrow> string" where
  "parse_config_loop dflt (a # b # rest) =
     (if a = ''-c'' \<or> a = ''--config'' then b else parse_config_loop dflt (b # rest))"
| "parse_config_loop dflt [a] = dflt"
| "parse_config_loop dflt [] = dflt"

definition mini_tlm_parse_config_path :: "string list \<Rightarrow> string" where
  "mini_tlm_parse_config_path argv = parse_config_loop ''platforms/mini_tlm/configs/default.yaml'' (tl argv)"

definition mini_soc_parse_config_path :: "string list \<Rightarrow> string" where
  "mini_soc_parse_config_path argv = parse_config_loop ''platforms/mini_soc/configs/default.yaml'' (tl argv)"

section \<open>Numbers\<close>

definition is_space :: "char \<Rightarrow> bool" where
  "is_space c \<longleftrightarrow> (of_char c :: nat) \<in> {9, 10, 11, 12, 13, 32}"

definition is_digit :: "char \<Rightarrow> bool" where
  "is_digit c \<longleftrightarrow> 48 \<le> (of_char c :: nat) \<and> (of_char c :: nat) \<le> 57"

definition digits_value :: "string \<Rightarrow> nat" where
  "digits_value ds = foldl (\<lambda>n c. 10 * n + (of_char c - 48)) 0 ds"

text \<open>
  \<open>std::stoull\<close> in base 10, the standard's wrapper of \<open>strtoull\<close>: leading white space, an optional
  sign, then the longest run of digits; what follows is not looked at. A negative number is
  negated in the unsigned type. No digits and a magnitude beyond 64 bits throw.
\<close>

definition stoull :: "string \<Rightarrow> u64 res" where
  "stoull str =
     (let s = dropWhile is_space str;
          neg = (s \<noteq> [] \<and> hd s = CHR ''-'');
          s = (if s \<noteq> [] \<and> hd s \<in> {CHR ''-'', CHR ''+''} then tl s else s);
          ds = takeWhile is_digit s
      in if ds = [] then Inl (Invalid_argument ''stoull'')
         else if digits_value ds \<ge> 2 ^ 64 then Inl (Out_of_range ''stoull'')
         else Inr (if neg then - of_nat (digits_value ds) else of_nat (digits_value ds)))"

text \<open>A number as \<open>operator<<\<close> prints it.\<close>

fun decimal :: "nat \<Rightarrow> string" where
  "decimal n = (if n < 10 then [char_of (48 + n)] else decimal (n div 10) @ [char_of (48 + n mod 10)])"

declare decimal.simps [simp del]

section \<open>Times\<close>

text \<open>
  The nearest \<open>double\<close> to a whole number, 53 bits with ties to even, which is a whole number again. The
  constructor of \<open>sc_time\<close> takes a number of units of \<open>ps\<close> picoseconds, the resolution of the kernel, as
  a \<open>double\<close>, multiplies in \<open>double\<close> and converts the product to a 64-bit signed integer; a product
  that does not fit is a conversion without defined result.
\<close>

definition to_double :: "nat \<Rightarrow> nat" where
  "to_double n =
     (let h = 2 ^ (floorlog 2 n - 53); q = n div h; r = n mod h
      in if 2 * r < h \<or> 2 * r = h \<and> even q then q * h else (q + 1) * h)"

definition sc_time_of :: "nat \<Rightarrow> u64 \<Rightarrow> sc_time res" where
  "sc_time_of ps v =
     (let product = to_double (to_double (unat v) * ps)
      in if product < 2 ^ 63 then Inr (of_nat product) else Inl Conversion_overflow)"

definition SC_NS :: nat where "SC_NS = 1000"
definition SC_US :: nat where "SC_US = 1000000"
definition SC_MS :: nat where "SC_MS = 1000000000"

section \<open>Lemmas\<close>

text \<open>An option is found at its first occurrence that is followed by another argument.\<close>

lemma get_opt_loop_at:
  "Suc i < length args \<Longrightarrow> args ! i = name \<Longrightarrow> name \<notin> set (take i args) \<Longrightarrow>
     get_opt_loop args name dflt = args ! Suc i"
proof (induction args name dflt arbitrary: i rule: get_opt_loop.induct)
  case (1 a b rest name dflt)
  then show ?case by (cases i) auto
qed simp_all

lemma get_opt_loop_none:
  "name \<notin> set (butlast args) \<Longrightarrow> get_opt_loop args name dflt = dflt"
  by (induction args name dflt rule: get_opt_loop.induct) (auto split: if_splits)

lemma get_opt_loop_cases:
  obtains (none) "name \<notin> set (butlast args)" "get_opt_loop args name dflt = dflt"
  | (at) i where "Suc i < length args" "args ! i = name" "name \<notin> set (take i args)"
      "get_opt_loop args name dflt = args ! Suc i"
proof (cases "name \<in> set (butlast args)")
  case True
  then obtain ys zs where y: "butlast args = ys @ name # zs" "name \<notin> set ys" by (meson split_list_first)
  have "args \<noteq> []" using True by auto
  then have args: "args = (ys @ name # zs) @ [last args]" using y(1) append_butlast_last_id by metis
  have "Suc (length ys) < length args" by (subst args) simp
  moreover have "args ! length ys = name" "take (length ys) args = ys" by (subst args, simp)+
  ultimately show thesis using at get_opt_loop_at y(2) by metis
qed (rule none, simp_all add: get_opt_loop_none)

lemma has_flag_iff: "has_flag argv name \<longleftrightarrow> name \<in> set (tl argv)"
proof -
  have "has_flag_loop args name \<longleftrightarrow> name \<in> set args" for args by (induction args) auto
  then show ?thesis by (simp add: has_flag_def)
qed

text \<open>Decimal numerals.\<close>

lemma digits_value_snoc [simp]: "digits_value (ds @ [c]) = 10 * digits_value ds + (of_char c - 48)"
  by (simp add: digits_value_def)

lemma decimal_digits: "list_all is_digit (decimal n) \<and> decimal n \<noteq> [] \<and> digits_value (decimal n) = n"
proof (induction n rule: decimal.induct)
  case (1 n)
  show ?case
  proof (cases "n < 10")
    case True
    then show ?thesis by (simp add: decimal.simps [of n] is_digit_def digits_value_def)
  next
    case False
    moreover have "n mod 10 < 10" by simp
    ultimately show ?thesis using 1 by (simp add: decimal.simps [of n] is_digit_def)
  qed
qed

lemma digit_chars: "is_digit c \<Longrightarrow> \<not> is_space c \<and> c \<noteq> CHR ''-'' \<and> c \<noteq> CHR ''+''"
  by (auto simp: is_digit_def is_space_def)

lemma sign_chars: "\<not> is_space CHR ''-''" "\<not> is_space CHR ''+''"
  by (simp_all add: is_space_def)

lemma takeWhile_decimal:
  assumes "rest = [] \<or> \<not> is_digit (hd rest)"
  shows "takeWhile is_digit (decimal n @ rest) = decimal n"
proof -
  have "takeWhile is_digit rest = []" using assms by (cases rest) simp_all
  with decimal_digits [of n] show ?thesis by (simp add: list_all_iff takeWhile_append)
qed

lemma stoull_decimal:
  assumes "list_all is_space sp" and "sign \<in> {[], ''+'', ''-''}" and "rest = [] \<or> \<not> is_digit (hd rest)"
  shows "stoull (sp @ sign @ decimal n @ rest) =
    (if 2 ^ 64 \<le> n then Inl (Out_of_range ''stoull'') else Inr (if sign = ''-'' then - of_nat n else of_nat n))"
proof -
  obtain d ds where d: "decimal n = d # ds" "is_digit d" using decimal_digits [of n] by (cases "decimal n") auto
  have "dropWhile is_space (sp @ sign @ decimal n @ rest) = sign @ decimal n @ rest"
    using assms(1,2) d digit_chars [OF d(2)] sign_chars by (auto simp: list_all_iff dropWhile_append1 dropWhile_append2)
  with takeWhile_decimal [OF assms(3), of n] decimal_digits [of n] d digit_chars [OF d(2)] assms(2)
  show ?thesis by (auto simp: stoull_def Let_def)
qed

lemma stoull_no_number:
  assumes "list_all is_space sp"
    and "rest = [] \<or> \<not> is_digit (hd rest) \<and> \<not> is_space (hd rest) \<and> hd rest \<notin> {CHR ''-'', CHR ''+''}"
  shows "stoull (sp @ rest) = Inl (Invalid_argument ''stoull'')"
proof -
  have "dropWhile is_space sp = []" using assms(1) by (simp add: list_all_iff)
  with assms have eq: "dropWhile is_space (sp @ rest) = rest" by (cases rest) (auto simp: list_all_iff dropWhile_append2)
  show ?thesis unfolding stoull_def eq using assms(2) by (cases rest) (auto simp: Let_def)
qed

text \<open>Times of a whole number of units.\<close>

lemma to_double_exact:
  assumes "n < 2 ^ 53"
  shows "to_double n = n"
proof -
  have "floorlog 2 n \<le> 53" using assms by (simp add: floorlog_leI)
  then show ?thesis by (simp add: to_double_def)
qed

lemma sc_time_of_exact:
  assumes "unat v * ps < 2 ^ 53" and "0 < ps"
  shows "sc_time_of ps v = Inr (of_nat (unat v * ps))"
proof -
  have "unat v \<le> unat v * ps" using assms(2) by simp
  with assms(1) have "unat v < 2 ^ 53" by linarith
  with assms show ?thesis by (simp add: sc_time_of_def to_double_exact)
qed

lemma to_double_ge:
  assumes "2 ^ k \<le> n" and "floorlog 2 n \<le> k + 53"
  shows "2 ^ k \<le> to_double n"
proof -
  define h :: nat where "h = 2 ^ (floorlog 2 n - 53)"
  have "2 ^ k = 2 ^ (k - (floorlog 2 n - 53)) * h"
    using assms(2) unfolding h_def by (simp flip: power_add)
  then have "2 ^ k mod h = 0" by simp
  have "2 ^ k = 2 ^ k div h * h" using div_mult_mod_eq [of "2 ^ k" h] \<open>2 ^ k mod h = 0\<close> by simp
  also have "\<dots> \<le> n div h * h" by (intro mult_le_mono1 div_le_mono assms(1))
  also have "\<dots> \<le> to_double n" by (auto simp: to_double_def Let_def h_def)
  finally show ?thesis .
qed

text \<open>Numbers of nanoseconds from \<open>2 ^ 54\<close> on are too large.\<close>

lemma sc_time_of_large:
  assumes "2 ^ 54 \<le> unat v"
  shows "sc_time_of SC_NS v = Inl Conversion_overflow"
proof -
  have v: "unat v < 2 ^ 64" using unsigned_less [of v, where ?'a = nat] by simp
  then have f: "floorlog 2 (unat v) \<le> 64" by (intro floorlog_leI) simp_all
  have "2 ^ 54 \<le> to_double (unat v)" by (rule to_double_ge [OF assms]) (use f in simp)
  then have ge: "2 ^ 63 \<le> to_double (unat v) * SC_NS" by (simp add: SC_NS_def)
  have "to_double (unat v) \<le> 2 * unat v + 2 ^ 64"
  proof -
    have "to_double (unat v) \<le> (unat v div 2 ^ (floorlog 2 (unat v) - 53) + 1) * 2 ^ (floorlog 2 (unat v) - 53)"
      by (auto simp: to_double_def Let_def)
    also have "\<dots> \<le> unat v + 2 ^ (floorlog 2 (unat v) - 53)" by (simp add: add_mult_distrib)
    also have "\<dots> \<le> unat v + 2 ^ 64" using f by (intro add_left_mono power_increasing) simp_all
    finally show ?thesis by simp
  qed
  then have "to_double (unat v) * SC_NS < 2 ^ 80" using v by (simp add: SC_NS_def)
  then have "floorlog 2 (to_double (unat v) * SC_NS) \<le> 80" by (intro floorlog_leI) simp_all
  with ge have "2 ^ 63 \<le> to_double (to_double (unat v) * SC_NS)" by (intro to_double_ge) simp_all
  then show ?thesis by (simp add: sc_time_of_def)
qed

text \<open>So is a negative number of nanoseconds, except for the largest magnitudes.\<close>

lemma sc_time_of_negative:
  assumes "0 < n" and "n \<le> 2 ^ 64 - 2 ^ 54"
  shows "sc_time_of SC_NS (- of_nat n) = Inl Conversion_overflow"
proof (rule sc_time_of_large)
  have "- of_nat n = (of_nat (2 ^ 64 - n) :: u64)" using assms(2) by (simp add: of_nat_diff)
  then have "unat (- of_nat n :: u64) = 2 ^ 64 - n" using assms(1) by (simp add: unat_of_nat)
  with assms(2) show "2 ^ 54 \<le> unat (- of_nat n :: u64)" by simp
qed

section \<open>Properties\<close>

text \<open>
  Numbers on the command line. \<open>stoull\<close> reads back every number below \<open>2 ^ 64\<close> that was printed
  in decimal, after white space and a plus sign, and ignores what follows; a larger number throws
  \<open>out_of_range\<close>; a number with a minus sign is not refused but wraps.
\<close>

lemma stoull_roundtrip:
  assumes "list_all is_space sp" and "rest = [] \<or> \<not> is_digit (hd rest)"
  shows "(n < 2 ^ 64 \<longrightarrow> stoull (sp @ decimal n @ rest) = Inr (of_nat n) \<and>
      stoull (sp @ ''+'' @ decimal n @ rest) = Inr (of_nat n) \<and>
      stoull (sp @ ''-'' @ decimal n @ rest) = Inr (- of_nat n)) \<and>
    (2 ^ 64 \<le> n \<longrightarrow> stoull (sp @ decimal n @ rest) = Inl (Out_of_range ''stoull''))"
  using stoull_decimal [OF assms(1) _ assms(2), of "[]" n] stoull_decimal [OF assms(1) _ assms(2), of "''+''" n]
    stoull_decimal [OF assms(1) _ assms(2), of "''-''" n] by auto

end
