(* ===== verification/Bus_Router.thy ===== *)
theory Bus_Router
  imports Tlm
begin

text \<open>
  \<open>components/common\<close> (the address range) and \<open>components/bus_router\<close>: the address-decoding
  interconnect. The record is the class \<open>bus_router\<close>; its sockets are represented by their
  number, and the targets bound to them are an argument of the transport functions, a list in
  socket order over one shared downstream state. The lemmas characterise the decoder, the
  translation of addresses and the mapping calls, and show that a router over targets that
  keep the TLM contract is itself such a target.
\<close>

section \<open>The module\<close>

record address_range =
  range_base :: u64
  range_size :: u64

definition contains :: "address_range \<Rightarrow> u64 \<Rightarrow> bool" where
  "contains r addr \<longleftrightarrow> addr \<ge> range_base r \<and> addr < range_base r + range_size r"

record bus_router =
  ranges :: "address_range list"
  n_sockets :: nat
  n_extra_ports :: nat

text \<open>The constructor's first loop makes the ports 1, 2, \<open>\<dots>\<close> up to \<open>num_initiators - 1\<close>.\<close>

definition bus_router_new :: "nat \<Rightarrow> nat \<Rightarrow> bus_router" where
  "bus_router_new num_targets num_initiators =
     \<lparr>ranges = [], n_sockets = num_targets, n_extra_ports = length [1..<num_initiators]\<rparr>"

datatype cpu_socket = Target_socket | Extra_port nat

definition cpu_port :: "bus_router \<Rightarrow> nat \<Rightarrow> cpu_socket res" where
  "cpu_port r index =
     (if index = 0 then Inr Target_socket
      else if index - 1 \<ge> n_extra_ports r
      then Inl (Out_of_range ''bus_router::cpu_port index exceeds num_initiators'')
      else Inr (Extra_port (index - 1)))"

text \<open>\<open>add_target\<close> returns the initiator socket to bind, given by its index.\<close>

definition add_target :: "bus_router \<Rightarrow> u64 \<Rightarrow> u64 \<Rightarrow> (bus_router \<times> nat) res" where
  "add_target r base sz =
     (if length (ranges r) \<ge> n_sockets r
      then Inl (Out_of_range ''bus_router::add_target exceeds num_targets'')
      else Inr (r\<lparr>ranges := ranges r @ [\<lparr>range_base = base, range_size = sz\<rparr>]\<rparr>,
                length (ranges r)))"

fun decode_loop :: "address_range list \<Rightarrow> nat \<Rightarrow> u64 \<Rightarrow> int" where
  "decode_loop [] i addr = -1"
| "decode_loop (r # rs) i addr =
     (if contains r addr then int i else decode_loop rs (Suc i) addr)"

definition decode :: "bus_router \<Rightarrow> u64 \<Rightarrow> int" where
  "decode r addr = decode_loop (ranges r) 0 addr"

text \<open>A call through a socket that nothing is bound to dereferences a null interface.\<close>

definition call_socket :: "'t list \<Rightarrow> int \<Rightarrow> 't res" where
  "call_socket targets idx =
     (if nat idx < length targets then Inr (targets ! nat idx) else Inl Null_deref)"

definition router_b_transport :: "bus_router \<Rightarrow> 's transport list \<Rightarrow> 's transport" where
  "router_b_transport r targets s p delay =
     (let addr = address p; idx = decode r addr
      in if idx < 0 then Inr (s, p\<lparr>response_status := TLM_ADDRESS_ERROR_RESPONSE\<rparr>, delay)
         else bindR (call_socket targets idx) (\<lambda>bt.
              bindR (bt s (p\<lparr>address := addr - range_base (ranges r ! nat idx)\<rparr>) delay)
                (\<lambda>(s', p', delay'). Inr (s', p'\<lparr>address := addr\<rparr>, delay'))))"

definition router_transport_dbg :: "bus_router \<Rightarrow> 's debug_transport list \<Rightarrow> 's debug_transport" where
  "router_transport_dbg r targets s p =
     (let addr = address p; idx = decode r addr
      in if idx < 0 then Inr (s, p\<lparr>response_status := TLM_ADDRESS_ERROR_RESPONSE\<rparr>, 0)
         else bindR (call_socket targets idx) (\<lambda>dbg.
              bindR (dbg s (p\<lparr>address := addr - range_base (ranges r ! nat idx)\<rparr>))
                (\<lambda>(s', p', n). Inr (s', p'\<lparr>address := addr\<rparr>, n))))"

text \<open>The mapping calls of a platform's constructor, in order.\<close>

fun add_targets :: "bus_router \<Rightarrow> (u64 \<times> u64) list \<Rightarrow> (bus_router \<times> nat list) res" where
  "add_targets r [] = Inr (r, [])"
| "add_targets r ((base, sz) # ms) =
     bindR (add_target r base sz) (\<lambda>(r', i).
     bindR (add_targets r' ms) (\<lambda>(r'', is). Inr (r'', i # is)))"

section \<open>Memory maps\<close>

text \<open>A range as the set of addresses its header comment gives it: \<open>[base, base + size)\<close>.\<close>

definition range_addrs :: "address_range \<Rightarrow> nat set" where
  "range_addrs r = {unat (range_base r) ..< unat (range_base r) + unat (range_size r)}"

definition ends_in_space :: "address_range \<Rightarrow> bool" where
  "ends_in_space r \<longleftrightarrow> unat (range_base r) + unat (range_size r) < 2 ^ 64"

definition disjoint_map :: "address_range list \<Rightarrow> bool" where
  "disjoint_map rs \<longleftrightarrow> (\<forall>i < length rs. \<forall>j < length rs. i \<noteq> j \<longrightarrow>
     range_addrs (rs ! i) \<inter> range_addrs (rs ! j) = {})"

definition router_invar :: "bus_router \<Rightarrow> bool" where
  "router_invar r \<longleftrightarrow> length (ranges r) \<le> n_sockets r"

text \<open>What a router needs of a payload: what the target it selects needs of the local one.\<close>

definition router_ok :: "bus_router \<Rightarrow> (payload \<Rightarrow> bool) list \<Rightarrow> payload \<Rightarrow> bool" where
  "router_ok r oks p \<longleftrightarrow> (let idx = decode r (address p) in idx \<ge> 0 \<longrightarrow>
     (oks ! nat idx) (p\<lparr>address := address p - range_base (ranges r ! nat idx)\<rparr>))"

section \<open>Lemmas\<close>

lemma unat_add_u64: "unat (a + b :: u64) =
    (if unat a + unat b < 2 ^ 64 then unat a + unat b else unat a + unat b - 2 ^ 64)"
proof -
  have "unat a < 2 ^ 64" "unat b < 2 ^ 64"
    using unsigned_less [of a] unsigned_less [of b] by simp_all
  then show ?thesis by (simp add: unat_word_ariths mod_if)
qed

lemma contains_iff: "contains r a \<longleftrightarrow> unat a \<in> range_addrs r \<and> ends_in_space r"
proof -
  have "unat (range_base r) < 2 ^ 64" "unat (range_size r) < 2 ^ 64"
    using unsigned_less [of "range_base r"] unsigned_less [of "range_size r"] by simp_all
  then show ?thesis
    by (auto simp: contains_def range_addrs_def ends_in_space_def word_le_nat_alt
        word_less_nat_alt unat_add_u64)
qed

lemma decode_loop_range: "decode_loop rs i a = -1 \<or> int i \<le> decode_loop rs i a"
proof (induction rs arbitrary: i)
  case Nil
  then show ?case by simp
next
  case (Cons r rs)
  from Cons.IH [of "Suc i"] show ?case by auto
qed

lemma decode_loop_eq:
  "decode_loop rs i a = int (i + k) \<longleftrightarrow>
     k < length rs \<and> contains (rs ! k) a \<and> (\<forall>j < k. \<not> contains (rs ! j) a)"
proof (induction rs arbitrary: i k)
  case Nil
  then show ?case by simp
next
  case (Cons r rs)
  show ?case
  proof (cases k)
    case 0
    with decode_loop_range [of rs "Suc i" a] show ?thesis by auto
  next
    case (Suc k')
    with Cons.IH [of "Suc i" k'] show ?thesis by (auto simp: less_Suc_eq_0_disj)
  qed
qed

lemma decode_eq: "decode r a = int k \<longleftrightarrow>
    k < length (ranges r) \<and> contains (ranges r ! k) a \<and> (\<forall>j < k. \<not> contains (ranges r ! j) a)"
  using decode_loop_eq [of "ranges r" 0 a k] by (simp add: decode_def)

lemma decode_cases:
  obtains (hit) k where "decode r a = int k" and "k < length (ranges r)"
    and "contains (ranges r ! k) a" and "\<forall>j < k. \<not> contains (ranges r ! j) a"
  | (miss) "decode r a = -1" and "\<forall>q \<in> set (ranges r). \<not> contains q a"
proof (cases "decode r a = -1")
  case True
  have "\<not> contains q a" if "q \<in> set (ranges r)" for q
  proof
    assume "contains q a"
    with that obtain k where "k < length (ranges r) \<and> contains (ranges r ! k) a"
      by (auto simp: in_set_conv_nth)
    then obtain k where "k < length (ranges r)" "contains (ranges r ! k) a"
      "\<forall>j < k. \<not> contains (ranges r ! j) a"
      using exists_least_iff [of "\<lambda>k. k < length (ranges r) \<and> contains (ranges r ! k) a"]
      by (meson less_trans)
    with decode_eq have "decode r a = int k" by blast
    with True show False by simp
  qed
  with True miss show ?thesis by blast
next
  case False
  with decode_loop_range [of "ranges r" 0 a] have "0 \<le> decode r a" by (auto simp: decode_def)
  then obtain k where k: "decode r a = int k" using nonneg_int_cases by blast
  from hit [OF k] k show ?thesis by (auto simp: decode_eq)
qed

lemma decode_unique:
  assumes "disjoint_map (ranges r)" and "k < length (ranges r)" and "contains (ranges r ! k) a"
  shows "decode r a = int k"
proof -
  have "\<not> contains (ranges r ! j) a" if "j < k" for j
    using assms that unfolding disjoint_map_def contains_iff
    by (metis disjoint_iff less_imp_neq less_trans)
  with assms show ?thesis by (simp add: decode_eq)
qed

lemma contains_local:
  assumes "contains q a"
  shows "unat (a - range_base q) = unat a - unat (range_base q)"
    and "unat (a - range_base q) < unat (range_size q)"
proof -
  have le: "range_base q \<le> a" using assms by (simp add: contains_def)
  then show "unat (a - range_base q) = unat a - unat (range_base q)"
    by (simp add: unat_sub_if' word_le_nat_alt)
  then show "unat (a - range_base q) < unat (range_size q)"
    using assms le by (auto simp: contains_iff range_addrs_def)
qed

lemma router_transport_hit:
  assumes "decode r (address p) = int k" and "k < length targets"
  shows "router_b_transport r targets s p d =
    bindR ((targets ! k) s (p\<lparr>address := address p - range_base (ranges r ! k)\<rparr>) d)
      (\<lambda>(s', p', d'). Inr (s', p'\<lparr>address := address p\<rparr>, d'))"
  using assms by (simp add: router_b_transport_def call_socket_def Let_def)

lemma router_transport_miss:
  "decode r (address p) = -1 \<Longrightarrow> router_b_transport r targets s p d =
     Inr (s, p\<lparr>response_status := TLM_ADDRESS_ERROR_RESPONSE\<rparr>, d)"
  by (simp add: router_b_transport_def)

lemma add_target_invar: "router_invar r \<Longrightarrow> add_target r b n = Inr (r', i) \<Longrightarrow> router_invar r'"
  by (auto simp: add_target_def router_invar_def split: if_splits)

lemma add_targets_from:
  "add_targets r ms =
    (if length (ranges r) + length ms \<le> n_sockets r \<or> ms = []
     then Inr (r\<lparr>ranges := ranges r @ map (\<lambda>(b, sz). \<lparr>range_base = b, range_size = sz\<rparr>) ms\<rparr>,
               [length (ranges r)..<length (ranges r) + length ms])
     else Inl (Out_of_range ''bus_router::add_target exceeds num_targets''))"
proof (induction ms arbitrary: r)
  case Nil
  then show ?case by simp
next
  case (Cons m ms)
  obtain b sz where "m = (b, sz)" by (cases m)
  then show ?case
    using Cons.IH [of "r\<lparr>ranges := ranges r @ [\<lparr>range_base = b, range_size = sz\<rparr>]\<rparr>"]
    by (cases ms) (auto simp: add_target_def upt_rec)
qed

text \<open>
  The interface between the router and its targets: enough of them are bound, and each keeps the
  TLM contract on the shared downstream state.
\<close>

locale routed_targets =
  fixes r :: bus_router
    and targets :: "'s transport list"
    and invar :: "'s \<Rightarrow> bool"
    and oks :: "(payload \<Rightarrow> bool) list"
  assumes bound: "length (ranges r) \<le> length targets"
    and target: "k < length (ranges r) \<Longrightarrow> tlm_target (targets ! k) invar (oks ! k)"
begin

lemma router_good_outcome:
  assumes "invar s" and "router_ok r oks p"
  shows "good_outcome invar p (router_b_transport r targets s p d)"
proof (cases rule: decode_cases [of r "address p"])
  case (hit k)
  let ?q = "p\<lparr>address := address p - range_base (ranges r ! k)\<rparr>"
  have "(oks ! k) ?q" using assms(2) hit(1) by (simp add: router_ok_def Let_def)
  then have "good_outcome invar ?q ((targets ! k) s ?q d)"
    by (rule tlm_target.good [OF target [OF hit(2)] assms(1)])
  with hit bound show ?thesis
    by (auto elim!: good_outcomeE simp: router_transport_hit same_attrs_def)
next
  case miss
  with assms(1) show ?thesis by (simp add: router_transport_miss)
qed

end

sublocale routed_targets \<subseteq> routed: tlm_target "router_b_transport r targets" invar "router_ok r oks"
  by (rule tlm_targetI) (rule router_good_outcome)

section \<open>Properties\<close>

text \<open>
  What a region matches. For every base and size the range test, whose sum is computed in 64
  bits, accepts an address iff it lies in the half-open interval the header gives and the
  interval ends below \<open>2 ^ 64\<close>; a region that reaches the top of the address space matches
  nothing.
\<close>

lemma contains_exact:
  "contains \<lparr>range_base = b, range_size = n\<rparr> a \<longleftrightarrow>
     unat b \<le> unat a \<and> unat a < unat b + unat n \<and> unat b + unat n < 2 ^ 64"
  by (auto simp: contains_iff range_addrs_def ends_in_space_def)

text \<open>
  The mapping calls. From a fresh router with \<open>n\<close> sockets a list of \<open>add_target\<close> calls
  succeeds iff it has at most \<open>n\<close> entries; then the regions are registered in call order and
  the calls hand out the sockets 0, 1, \<open>\<dots>\<close> in order. One call too many throws
  \<open>std::out_of_range\<close>.
\<close>

lemma add_targets_allocates:
  "add_targets (bus_router_new n i) ms =
    (if length ms \<le> n
     then Inr ((bus_router_new n i)\<lparr>ranges := map (\<lambda>(b, sz). \<lparr>range_base = b, range_size = sz\<rparr>) ms\<rparr>,
               [0..<length ms])
     else Inl (Out_of_range ''bus_router::add_target exceeds num_targets''))"
  using add_targets_from [of "bus_router_new n i" ms] by (simp add: bus_router_new_def)

text \<open>
  C2: routing. With every registered region bound to a target, a transaction at an address some
  region contains is handed to the target of the first such region, with the base subtracted
  from the address, and comes back with the address restored and everything else as the target
  left it; at an address no region contains the response is an address error and neither the
  downstream state nor the delay changes.
\<close>

theorem router_routes:
  assumes "length (ranges r) \<le> length targets"
  shows "(\<forall>k < length (ranges r). contains (ranges r ! k) (address p) \<longrightarrow>
      (\<forall>j < k. \<not> contains (ranges r ! j) (address p)) \<longrightarrow>
      router_b_transport r targets s p d =
        bindR ((targets ! k) s (p\<lparr>address := address p - range_base (ranges r ! k)\<rparr>) d)
          (\<lambda>(s', p', d'). Inr (s', p'\<lparr>address := address p\<rparr>, d'))) \<and>
    ((\<forall>q \<in> set (ranges r). \<not> contains q (address p)) \<longrightarrow>
      router_b_transport r targets s p d =
        Inr (s, p\<lparr>response_status := TLM_ADDRESS_ERROR_RESPONSE\<rparr>, d))"
proof (intro conjI allI impI)
  fix k assume "k < length (ranges r)" "contains (ranges r ! k) (address p)"
    "\<forall>j < k. \<not> contains (ranges r ! j) (address p)"
  then have "decode r (address p) = int k" by (simp add: decode_eq)
  with \<open>k < length (ranges r)\<close> assms show "router_b_transport r targets s p d =
        bindR ((targets ! k) s (p\<lparr>address := address p - range_base (ranges r ! k)\<rparr>) d)
          (\<lambda>(s', p', d'). Inr (s', p'\<lparr>address := address p\<rparr>, d'))"
    by (simp add: router_transport_hit)
next
  assume "\<forall>q \<in> set (ranges r). \<not> contains q (address p)"
  then have "decode r (address p) = -1"
    by (cases rule: decode_cases [of r "address p"]) auto
  then show "router_b_transport r targets s p d =
        Inr (s, p\<lparr>response_status := TLM_ADDRESS_ERROR_RESPONSE\<rparr>, d)"
    by (rule router_transport_miss)
qed

theorem router_routes_witness:
  "router_b_transport \<lparr>ranges = [\<lparr>range_base = 0x1000, range_size = 0x100\<rparr>], n_sockets = 1,
        n_extra_ports = 0\<rparr>
      [\<lambda>s q d. Inr (s + unat (address q), q\<lparr>response_status := TLM_OK_RESPONSE\<rparr>, d)]
      0 (empty_payload\<lparr>address := 0x1004\<rparr>) 0
    = Inr (4, empty_payload\<lparr>address := 0x1004, response_status := TLM_OK_RESPONSE\<rparr>, 0)"
proof -
  let ?r = "\<lparr>ranges = [\<lparr>range_base = 0x1000, range_size = 0x100\<rparr>], n_sockets = 1,
        n_extra_ports = 0\<rparr>"
  let ?t = "[\<lambda>s q d. Inr (s + unat (address q), q\<lparr>response_status := TLM_OK_RESPONSE\<rparr>, d)]
      :: nat transport list"
  have "length (ranges ?r) \<le> length ?t" by simp
  from router_routes [OF this, of "empty_payload\<lparr>address := 0x1004\<rparr>" 0 0] show ?thesis
    by (simp add: contains_def)
qed

end
