(* ===== verification/Memory_Tlm.thy ===== *)
theory Memory_Tlm
  imports Tlm
begin

text \<open>
  \<open>components/memory_tlm\<close>: the flat RAM or ROM. The record is the class \<open>memory_tlm\<close>, the
  definitions are its constructor, \<open>load\<close>, \<open>b_transport\<close>, \<open>transport_dbg\<close> and
  \<open>get_direct_mem_ptr\<close>. The lemmas show that it is a TLM target, that it implements a store of
  bytes indexed by address, that a ROM is never written, and that the DMI descriptor covers the
  store.
\<close>

section \<open>The module\<close>

record memory =
  mem_data :: "u8 list"
  mem_read_only :: bool
  mem_latency :: sc_time

definition memory_new :: "nat \<Rightarrow> bool \<Rightarrow> sc_time \<Rightarrow> memory" where
  "memory_new size_bytes ro lat =
     \<lparr>mem_data = replicate size_bytes 0, mem_read_only = ro, mem_latency = lat\<rparr>"

definition memory_size :: "memory \<Rightarrow> nat" where
  "memory_size m = length (mem_data m)"

definition memory_load :: "memory \<Rightarrow> u8 list \<Rightarrow> nat \<Rightarrow> u64 \<Rightarrow> memory res" where
  "memory_load m dat len offset =
     (if unat offset > memory_size m \<or> len > memory_size m - unat offset
      then Inl (Sc_error ''load() out of bounds'')
      else bindR (memcpy_from dat 0 len) (\<lambda>bs.
           bindR (memcpy_to (mem_data m) (unat offset) bs) (\<lambda>store.
           Inr (m\<lparr>mem_data := store\<rparr>))))"

definition memory_b_transport :: "memory transport" where
  "memory_b_transport m p delay =
     (let delay = delay + mem_latency m;
          addr = unat (address p);
          len = unat (data_length p)
      in if addr > memory_size m \<or> len > memory_size m - addr
         then Inr (m, p\<lparr>response_status := TLM_ADDRESS_ERROR_RESPONSE\<rparr>, delay)
         else if data_ptr p = None
         then Inr (m, p\<lparr>response_status := TLM_GENERIC_ERROR_RESPONSE\<rparr>, delay)
         else (case command p of
             TLM_READ_COMMAND \<Rightarrow>
               bindR (memcpy_from (mem_data m) addr len) (\<lambda>bs.
               bindR (ptr_store p bs) (\<lambda>q.
               Inr (m, q\<lparr>dmi_allowed := True, response_status := TLM_OK_RESPONSE\<rparr>, delay)))
           | TLM_WRITE_COMMAND \<Rightarrow>
               if mem_read_only m
               then Inr (m, p\<lparr>response_status := TLM_COMMAND_ERROR_RESPONSE\<rparr>, delay)
               else bindR (ptr_load p len) (\<lambda>bs.
                    bindR (memcpy_to (mem_data m) addr bs) (\<lambda>store.
                    Inr (m\<lparr>mem_data := store\<rparr>,
                         p\<lparr>dmi_allowed := True, response_status := TLM_OK_RESPONSE\<rparr>, delay)))
           | TLM_IGNORE_COMMAND \<Rightarrow>
               Inr (m, p\<lparr>response_status := TLM_COMMAND_ERROR_RESPONSE\<rparr>, delay)))"

definition memory_transport_dbg :: "memory debug_transport" where
  "memory_transport_dbg m p =
     (let addr = unat (address p); len = unat (data_length p)
      in if addr > memory_size m \<or> data_ptr p = None
         then Inr (m, p\<lparr>response_status := TLM_ADDRESS_ERROR_RESPONSE\<rparr>, 0)
         else let n = min len (memory_size m - addr)
         in if command p = TLM_READ_COMMAND
            then bindR (memcpy_from (mem_data m) addr n) (\<lambda>bs.
                 bindR (ptr_store p bs) (\<lambda>q.
                 Inr (m, q\<lparr>response_status := TLM_OK_RESPONSE\<rparr>, of_nat n)))
            else if command p = TLM_WRITE_COMMAND \<and> \<not> mem_read_only m
            then bindR (ptr_load p n) (\<lambda>bs.
                 bindR (memcpy_to (mem_data m) addr bs) (\<lambda>store.
                 Inr (m\<lparr>mem_data := store\<rparr>, p\<lparr>response_status := TLM_OK_RESPONSE\<rparr>, of_nat n)))
            else Inr (m, p, 0))"

text \<open>
  The DMI descriptor; the pointer it carries is \<open>data_.data()\<close>, the start of the store, so a
  direct access at address \<open>a\<close> touches the byte \<open>a - dmi_start\<close> of \<open>mem_data\<close>.
\<close>

datatype dmi_access = DMI_READ | DMI_READ_WRITE

record dmi =
  dmi_start :: u64
  dmi_end :: u64
  dmi_read_latency :: sc_time
  dmi_write_latency :: sc_time
  dmi_granted :: dmi_access

definition memory_get_direct_mem_ptr :: "memory \<Rightarrow> payload \<Rightarrow> dmi \<times> bool" where
  "memory_get_direct_mem_ptr m p =
     (\<lparr>dmi_start = 0,
       dmi_end = (if mem_data m = [] then 0 else of_nat (memory_size m - 1)),
       dmi_read_latency = mem_latency m, dmi_write_latency = mem_latency m,
       dmi_granted = (if \<not> mem_read_only m then DMI_READ_WRITE else DMI_READ)\<rparr>, True)"

definition dmi_read_byte :: "memory \<Rightarrow> dmi \<Rightarrow> u64 \<Rightarrow> u8 res" where
  "dmi_read_byte m d a =
     bindR (memcpy_from (mem_data m) (unat (a - dmi_start d)) 1) (\<lambda>bs. Inr (hd bs))"

section \<open>The store it implements\<close>

text \<open>The abstract memory: a partial map from region-local addresses to bytes.\<close>

type_synonym store = "nat \<rightharpoonup> u8"

definition mem_view :: "memory \<Rightarrow> store" where
  "mem_view m i = (if i < memory_size m then Some (mem_data m ! i) else None)"

definition store_write :: "store \<Rightarrow> nat \<Rightarrow> u8 list \<Rightarrow> store" where
  "store_write f a bs i = (if a \<le> i \<and> i < a + length bs then Some (bs ! (i - a)) else f i)"

definition store_read :: "store \<Rightarrow> nat \<Rightarrow> nat \<Rightarrow> u8 option list" where
  "store_read f a n = map (\<lambda>k. f (a + k)) [0..<n]"

definition in_store :: "memory \<Rightarrow> payload \<Rightarrow> bool" where
  "in_store m p \<longleftrightarrow> unat (address p) + unat (data_length p) \<le> memory_size m"

text \<open>
  What one transport does to the abstract store of \<open>sz\<close> bytes: the new store, the response and
  the initiator's buffer.
\<close>

definition store_spec ::
  "nat \<Rightarrow> bool \<Rightarrow> store \<Rightarrow> payload \<Rightarrow> store \<times> tlm_response \<times> u8 option list option" where
  "store_spec sz ro f p =
     (let a = unat (address p); n = unat (data_length p);
          kept = map_option (map Some) (data_ptr p)
      in if a + n > sz then (f, TLM_ADDRESS_ERROR_RESPONSE, kept)
         else case data_ptr p of None \<Rightarrow> (f, TLM_GENERIC_ERROR_RESPONSE, kept)
         | Some bs \<Rightarrow>
             if command p = TLM_READ_COMMAND then (f, TLM_OK_RESPONSE, Some (store_read f a n))
             else if command p = TLM_WRITE_COMMAND \<and> \<not> ro
             then (store_write f a bs, TLM_OK_RESPONSE, kept)
             else (f, TLM_COMMAND_ERROR_RESPONSE, kept))"

text \<open>A sequence of accesses of both kinds.\<close>

datatype mem_access = Transport payload | Debug payload

fun mem_access_payload :: "mem_access \<Rightarrow> payload" where
  "mem_access_payload (Transport p) = p"
| "mem_access_payload (Debug p) = p"

fun memory_run :: "mem_access list \<Rightarrow> memory \<Rightarrow> memory res" where
  "memory_run [] m = Inr m"
| "memory_run (Transport p # as) m =
     bindR (memory_b_transport m p 0) (\<lambda>(m', p', d'). memory_run as m')"
| "memory_run (Debug p # as) m =
     bindR (memory_transport_dbg m p) (\<lambda>(m', p', n). memory_run as m')"

lemmas memory_defs = memory_b_transport_def memory_transport_dbg_def memory_load_def Let_def

declare memory_defs [dev_defs]

section \<open>Lemmas\<close>

lemma in_store_iff:
  "(unat (address p) > memory_size m \<or> unat (data_length p) > memory_size m - unat (address p))
     \<longleftrightarrow> \<not> in_store m p"
  by (auto simp: in_store_def)

lemma memcpy_from_view:
  "a + n \<le> memory_size m \<Longrightarrow> memcpy_from (mem_data m) a n = Inr bs \<Longrightarrow>
     map Some bs = store_read (mem_view m) a n"
  by (auto simp: memcpy_from_def store_read_def mem_view_def memory_size_def
      intro!: nth_equalityI split: if_splits)

lemma memcpy_to_view:
  assumes "memcpy_to (mem_data m) a bs = Inr st"
  shows "mem_view (m\<lparr>mem_data := st\<rparr>) = store_write (mem_view m) a bs"
proof
  fix i
  have "a + length bs \<le> memory_size m"
    using assms by (auto simp: memcpy_to_def memory_size_def split: if_splits)
  then show "mem_view (m\<lparr>mem_data := st\<rparr>) i = store_write (mem_view m) a bs i"
    using length_memcpy_to [OF assms] nth_memcpy_to [OF assms, of i]
    by (auto simp: mem_view_def store_write_def memory_size_def)
qed

text \<open>The three outcomes of a transport, as rules for the later proofs.\<close>

lemma memory_transport_refused:
  assumes "\<not> in_store m p"
  shows "memory_b_transport m p d =
    Inr (m, p\<lparr>response_status := TLM_ADDRESS_ERROR_RESPONSE\<rparr>, d + mem_latency m)"
  using assms by (simp add: memory_b_transport_def in_store_iff [symmetric] Let_def)

lemma memory_transport_read:
  assumes "in_store m p" and "command p = TLM_READ_COMMAND"
    and "data_ptr p = Some b" and "length b = unat (data_length p)"
  shows "memory_b_transport m p d =
    Inr (m, p\<lparr>data_ptr := Some (take (length b) (drop (unat (address p)) (mem_data m))),
              dmi_allowed := True, response_status := TLM_OK_RESPONSE\<rparr>, d + mem_latency m)"
proof -
  have "\<not> (unat (address p) > memory_size m \<or>
      unat (data_length p) > memory_size m - unat (address p))"
    using assms(1) in_store_iff by blast
  then show ?thesis
    using assms
    by (auto simp: memory_b_transport_def Let_def memcpy_from_def in_store_def memory_size_def
        ptr_store_def memcpy_to_def min_def)
qed

lemma memory_transport_write:
  assumes "in_store m p" and "command p = TLM_WRITE_COMMAND" and "\<not> mem_read_only m"
    and "data_ptr p = Some b" and "length b = unat (data_length p)"
  obtains st where "memcpy_to (mem_data m) (unat (address p)) b = Inr st"
    and "memory_b_transport m p d =
      Inr (m\<lparr>mem_data := st\<rparr>,
           p\<lparr>dmi_allowed := True, response_status := TLM_OK_RESPONSE\<rparr>, d + mem_latency m)"
proof -
  have inb: "\<not> (unat (address p) > memory_size m \<or>
      unat (data_length p) > memory_size m - unat (address p))"
    using assms(1) in_store_iff by blast
  obtain st where st: "memcpy_to (mem_data m) (unat (address p)) b = Inr st"
    using assms by (auto simp: memcpy_to_def in_store_def memory_size_def)
  with inb assms show ?thesis
    by (intro that [of st]) (auto simp: memory_b_transport_def Let_def ptr_load_def)
qed

lemma memory_transport_other:
  assumes "in_store m p"
    and "data_ptr p = None \<or> command p = TLM_IGNORE_COMMAND \<or>
      command p = TLM_WRITE_COMMAND \<and> mem_read_only m"
  shows "memory_b_transport m p d =
    Inr (m, p\<lparr>response_status := if data_ptr p = None then TLM_GENERIC_ERROR_RESPONSE
                else TLM_COMMAND_ERROR_RESPONSE\<rparr>, d + mem_latency m)"
proof -
  have "\<not> (unat (address p) > memory_size m \<or>
      unat (data_length p) > memory_size m - unat (address p))"
    using assms(1) in_store_iff by blast
  with assms(2) show ?thesis
    by (auto simp: memory_b_transport_def Let_def)
qed

text \<open>Which of the four cases a well-formed payload is in.\<close>

lemma memory_transport_cases:
  assumes "wf_payload p"
  obtains (refused) "\<not> in_store m p"
  | (read) b where "in_store m p" "command p = TLM_READ_COMMAND" "data_ptr p = Some b"
      "length b = unat (data_length p)"
  | (wrote) b where "in_store m p" "command p = TLM_WRITE_COMMAND" "\<not> mem_read_only m"
      "data_ptr p = Some b" "length b = unat (data_length p)"
  | (other) "in_store m p" "data_ptr p = None \<or> command p = TLM_IGNORE_COMMAND \<or>
      command p = TLM_WRITE_COMMAND \<and> mem_read_only m"
  using assms by (cases "data_ptr p"; cases "command p") (auto simp: wf_payload_def)

text \<open>The memory is a TLM target for every well-formed payload.\<close>

interpretation mem: tlm_target memory_b_transport "\<lambda>_. True" wf_payload
proof (rule tlm_targetI)
  fix m p d assume "wf_payload p"
  then show "good_outcome (\<lambda>_. True) p (memory_b_transport m p d)"
  proof (cases rule: memory_transport_cases [of p m])
    case (wrote b)
    then show ?thesis by (rule memory_transport_write [of m p b d]) simp
  next
    case (read b)
    then show ?thesis
      by (simp add: memory_transport_read same_attrs_def in_store_def memory_size_def)
  qed (simp_all add: memory_transport_refused memory_transport_other)
qed

text \<open>The probe's two accesses.\<close>

lemma memory_probe_read:
  assumes "length buf = unat n"
  shows "probe_read memory_b_transport a buf n m =
    (if unat a + unat n \<le> memory_size m
     then Inr (m, TLM_OK_RESPONSE, Some (take (unat n) (drop (unat a) (mem_data m))))
     else Inr (m, TLM_ADDRESS_ERROR_RESPONSE, Some buf))"
proof (cases "in_store m (fill TLM_READ_COMMAND a (Some buf) n)")
  case True
  with assms show ?thesis
    by (simp add: probe_read_def probe_access_def memory_transport_read) (simp add: in_store_def)
next
  case False
  then show ?thesis
    by (simp add: probe_read_def probe_access_def memory_transport_refused)
      (simp add: in_store_def)
qed

lemma memory_probe_write:
  assumes ram: "\<not> mem_read_only m" and "length bs = unat len"
    and "unat a + unat len \<le> memory_size m"
  obtains st where "memcpy_to (mem_data m) (unat a) bs = Inr st"
    and "probe_write memory_b_transport a bs len m =
      Inr (m\<lparr>mem_data := st\<rparr>, TLM_OK_RESPONSE, Some bs)"
proof -
  let ?p = "fill TLM_WRITE_COMMAND a (Some bs) len"
  have "in_store m ?p" "command ?p = TLM_WRITE_COMMAND" "data_ptr ?p = Some bs"
    "length bs = unat (data_length ?p)"
    using assms by (simp_all add: in_store_def)
  then obtain st where st: "memcpy_to (mem_data m) (unat (address ?p)) bs = Inr st"
    and tr: "memory_b_transport m ?p 0 = Inr (m\<lparr>mem_data := st\<rparr>,
      ?p\<lparr>dmi_allowed := True, response_status := TLM_OK_RESPONSE\<rparr>, 0 + mem_latency m)"
    using ram by (metis memory_transport_write)
  show ?thesis
    by (rule that [of st]) (use st tr in \<open>simp_all add: probe_write_def probe_access_def\<close>)
qed

text \<open>The debug transport: what it moves, and what it leaves.\<close>

lemma memory_dbg_read_only:
  assumes "wf_payload p" and "mem_read_only m \<or> command p \<noteq> TLM_WRITE_COMMAND"
  shows "\<exists>p' n. memory_transport_dbg m p = Inr (m, p', n)"
  using assms
  by (auto simp: memory_transport_dbg_def Let_def memcpy_from_def memory_size_def ptr_store_def
      memcpy_to_def wf_payload_def)

section \<open>Properties\<close>

text \<open>
  C1: the transport of the memory implements the store of bytes. For every well-formed payload
  it returns, adds the access latency once, and the new contents, the response and the
  initiator's buffer are those of \<open>store_spec\<close> on the abstract store: an access that leaves the
  store is an address error, a null pointer a generic error, a write to a ROM and any other
  command a command error, and in these cases nothing changes.
\<close>

theorem memory_refines_store:
  assumes "wf_payload p"
  shows "\<exists>m' p'. memory_b_transport m p d = Inr (m', p', d + mem_latency m) \<and>
    (mem_view m', response_status p', map_option (map Some) (data_ptr p'))
      = store_spec (memory_size m) (mem_read_only m) (mem_view m) p"
  using assms
proof (cases rule: memory_transport_cases [of p m])
  case refused
  then show ?thesis
    by (auto simp: memory_transport_refused store_spec_def Let_def in_store_def)
next
  case (read b)
  have "map Some (take (length b) (drop (unat (address p)) (mem_data m)))
      = store_read (mem_view m) (unat (address p)) (unat (data_length p))"
    using read
    by (intro memcpy_from_view) (auto simp: in_store_def memcpy_from_def memory_size_def)
  with read show ?thesis
    by (auto simp: memory_transport_read store_spec_def Let_def in_store_def)
next
  case (wrote b)
  then show ?thesis
    by (rule memory_transport_write [of m p b d])
      (use wrote in \<open>auto simp: store_spec_def Let_def in_store_def memcpy_to_view\<close>)
next
  case other
  then show ?thesis
    by (auto simp: memory_transport_other store_spec_def Let_def in_store_def split: option.splits)
qed

theorem memory_refines_store_witness:
  "\<exists>m' p'. memory_b_transport (memory_new 8 False 10000)
        (fill TLM_WRITE_COMMAND 2 (Some [1, 2]) 2) 0
      = Inr (m', p', 0 + mem_latency (memory_new 8 False 10000)) \<and>
    (mem_view m', response_status p', map_option (map Some) (data_ptr p'))
      = store_spec 8 False (mem_view (memory_new 8 False 10000))
          (fill TLM_WRITE_COMMAND 2 (Some [1, 2]) 2)"
  using memory_refines_store [of "fill TLM_WRITE_COMMAND 2 (Some [1, 2]) 2"
      "memory_new 8 False 10000" 0]
  by (simp add: wf_payload_def memory_size_def memory_new_def)

text \<open>
  C35: write then read. On a RAM, bytes written by the probe at an address where they fit are
  accepted and a read of the same length at the same address returns exactly these bytes; a
  read that does not touch them returns what it returned before the write.
\<close>

theorem memory_write_read_roundtrip:
  assumes ram: "\<not> mem_read_only m" and len: "length bs = unat len"
    and fits: "unat a + unat len \<le> memory_size m"
  shows "\<exists>m'. probe_write memory_b_transport a bs len m = Inr (m', TLM_OK_RESPONSE, Some bs) \<and>
    (\<forall>buf. length buf = unat len \<longrightarrow>
       probe_read memory_b_transport a buf len m' = Inr (m', TLM_OK_RESPONSE, Some bs)) \<and>
    (\<forall>buf c n r out. length buf = unat n \<longrightarrow>
       unat c + unat n \<le> unat a \<or> unat a + unat len \<le> unat c \<longrightarrow>
       probe_read memory_b_transport c buf n m = Inr (m, r, out) \<longrightarrow>
       probe_read memory_b_transport c buf n m' = Inr (m', r, out))"
proof -
  obtain st where st: "memcpy_to (mem_data m) (unat a) bs = Inr st"
    and w: "probe_write memory_b_transport a bs len m =
      Inr (m\<lparr>mem_data := st\<rparr>, TLM_OK_RESPONSE, Some bs)"
    using assms by (rule memory_probe_write)
  let ?m' = "m\<lparr>mem_data := st\<rparr>"
  have size: "memory_size ?m' = memory_size m"
    using length_memcpy_to [OF st] by (simp add: memory_size_def)
  have "take (unat len) (drop (unat a) st) = bs"
    using memcpy_from_to [OF st] len by (auto simp: memcpy_from_def split: if_splits)
  then have same: "length buf = unat len \<Longrightarrow>
      probe_read memory_b_transport a buf len ?m' = Inr (?m', TLM_OK_RESPONSE, Some bs)" for buf
    using fits size by (simp add: memory_probe_read)
  have "probe_read memory_b_transport c buf n ?m' = Inr (?m', r, out)"
    if "length buf = unat n"
      and apart: "unat c + unat n \<le> unat a \<or> unat a + unat len \<le> unat c"
      and "probe_read memory_b_transport c buf n m = Inr (m, r, out)" for buf c n r out
  proof -
    have "take (unat n) (drop (unat c) st) = take (unat n) (drop (unat c) (mem_data m))"
      if "unat c + unat n \<le> memory_size m"
      using memcpy_from_to_other [OF st, of "unat c" "unat n"] apart len that size
      by (auto simp: memcpy_from_def memory_size_def split: if_splits)
    with that size show ?thesis by (auto simp: memory_probe_read)
  qed
  with w same show ?thesis by blast
qed

theorem memory_write_read_roundtrip_witness:
  "\<exists>m'. probe_write memory_b_transport 16 [0xBE, 0xBA, 0xFE, 0xCA] 4 (memory_new 256 False 10000)
      = Inr (m', TLM_OK_RESPONSE, Some [0xBE, 0xBA, 0xFE, 0xCA]) \<and>
    probe_read memory_b_transport 16 [0, 0, 0, 0] 4 m'
      = Inr (m', TLM_OK_RESPONSE, Some [0xBE, 0xBA, 0xFE, 0xCA])"
proof -
  have "\<not> mem_read_only (memory_new 256 False 10000)"
    and "length [0xBE, 0xBA, 0xFE, 0xCA :: u8] = unat (4 :: u32)"
    and "unat (16 :: u64) + unat (4 :: u32) \<le> memory_size (memory_new 256 False 10000)"
    by (simp_all add: memory_new_def memory_size_def)
  from memory_write_read_roundtrip [OF this] show ?thesis by force
qed

text \<open>
  A ROM is never written. Whatever sequence of blocking and debug accesses with well-formed
  payloads reaches a read-only memory, every call returns and the memory is unchanged.
\<close>

lemma rom_never_written:
  assumes "mem_read_only m" and "\<forall>a \<in> set accs. wf_payload (mem_access_payload a)"
  shows "memory_run accs m = Inr m"
  using assms(2)
proof (induction accs)
  case Nil
  then show ?case by simp
next
  case (Cons a accs)
  show ?case
  proof (cases a)
    case (Transport p)
    with Cons.prems have "wf_payload p" by simp
    then obtain p' d' where "memory_b_transport m p 0 = Inr (m, p', d')"
    proof (cases rule: memory_transport_cases [of p m])
      case (wrote b)
      with assms(1) show ?thesis by simp
    qed (use that in \<open>simp_all add: memory_transport_refused memory_transport_read
        memory_transport_other\<close>)
    with Cons Transport show ?thesis by simp
  next
    case (Debug p)
    with Cons.prems have "wf_payload p" by simp
    from memory_dbg_read_only [OF this] assms(1)
    obtain p' n where "memory_transport_dbg m p = Inr (m, p', n)" by blast
    with Cons Debug show ?thesis by simp
  qed
qed

text \<open>
  The debug transport clamps. At an address inside the store it moves the largest prefix of
  the request that fits, returns that count, reports OK, and on a RAM write changes the store
  exactly on that prefix; it never faults for a well-formed payload with data.
\<close>

lemma memory_dbg_clamps:
  assumes wf: "wf_payload p" and data: "data_ptr p = Some bs"
    and inside: "unat (address p) \<le> memory_size m"
    and n: "n = min (unat (data_length p)) (memory_size m - unat (address p))"
  shows "(command p = TLM_WRITE_COMMAND \<and> \<not> mem_read_only m \<longrightarrow>
      (\<exists>m' p'. memory_transport_dbg m p = Inr (m', p', of_nat n) \<and>
         mem_view m' = store_write (mem_view m) (unat (address p)) (take n bs) \<and>
         response_status p' = TLM_OK_RESPONSE)) \<and>
    (command p = TLM_READ_COMMAND \<longrightarrow>
      (\<exists>p'. memory_transport_dbg m p = Inr (m, p', of_nat n) \<and>
         (\<exists>out. data_ptr p' = Some out \<and> drop n out = drop n bs \<and>
            map Some (take n out) = store_read (mem_view m) (unat (address p)) n) \<and>
         response_status p' = TLM_OK_RESPONSE))"
proof -
  have len: "length bs = unat (data_length p)" using wf data by (simp add: wf_payload_def)
  have fits: "unat (address p) + n \<le> memory_size m" "n \<le> length bs"
    using inside len by (simp_all add: n)
  obtain st where st: "memcpy_to (mem_data m) (unat (address p)) (take n bs) = Inr st"
    using memcpy_to_ok [of "unat (address p)" "take n bs" "mem_data m"] fits
    by (auto simp: memory_size_def)
  obtain out where out: "memcpy_from (mem_data m) (unat (address p)) n = Inr out"
    using memcpy_from_ok [of "unat (address p)" n "mem_data m"] fits
    by (auto simp: memory_size_def)
  have "memory_transport_dbg m p = Inr (m\<lparr>mem_data := st\<rparr>,
      p\<lparr>response_status := TLM_OK_RESPONSE\<rparr>, of_nat n)"
    if "command p = TLM_WRITE_COMMAND" "\<not> mem_read_only m"
    using that inside data st fits
    by (simp add: memory_transport_dbg_def Let_def n [symmetric] ptr_load_def memcpy_from_def)
  moreover have "memory_transport_dbg m p = Inr (m,
      p\<lparr>data_ptr := Some (out @ drop n bs), response_status := TLM_OK_RESPONSE\<rparr>, of_nat n)"
    if "command p = TLM_READ_COMMAND"
    using that inside data out fits length_memcpy_from [OF out]
    by (simp add: memory_transport_dbg_def Let_def n [symmetric] ptr_store_def memcpy_to_def)
  ultimately show ?thesis
    using memcpy_to_view [OF st] memcpy_from_view [OF fits(1) out] length_memcpy_from [OF out]
    by auto
qed

text \<open>
  The DMI descriptor of a non-empty memory covers exactly its store. An address is inside
  the granted range iff it is below the size, a direct read there returns the byte of the store,
  writing is granted iff the memory is not a ROM, and the advertised latencies are those of the
  blocking transport.
\<close>

lemma memory_dmi_covers_store:
  assumes "0 < memory_size m" and "memory_size m < 2 ^ 64"
  shows "(let d = fst (memory_get_direct_mem_ptr m p) in
    (\<forall>a. dmi_start d \<le> a \<and> a \<le> dmi_end d \<longleftrightarrow> unat a < memory_size m) \<and>
    (\<forall>a. dmi_start d \<le> a \<and> a \<le> dmi_end d \<longrightarrow>
       map_sum id Some (dmi_read_byte m d a) = Inr (mem_view m (unat a))) \<and>
    (dmi_granted d = DMI_READ_WRITE \<longleftrightarrow> \<not> mem_read_only m) \<and>
    dmi_read_latency d = mem_latency m \<and> dmi_write_latency d = mem_latency m)"
proof -
  let ?d = "fst (memory_get_direct_mem_ptr m p)"
  have "unat (dmi_end ?d) = memory_size m - 1"
    using assms by (simp add: memory_get_direct_mem_ptr_def memory_size_def unat_of_nat)
  then have range: "dmi_start ?d \<le> a \<and> a \<le> dmi_end ?d \<longleftrightarrow> unat a < memory_size m" for a
    using assms by (auto simp: memory_get_direct_mem_ptr_def word_le_nat_alt)
  have "map_sum id Some (dmi_read_byte m ?d a) = Inr (mem_view m (unat a))"
    if "unat a < memory_size m" for a
    using that
    by (simp add: dmi_read_byte_def memory_get_direct_mem_ptr_def memcpy_from_def memory_size_def
        mem_view_def hd_drop_conv_nth take_Suc Let_def)
  with range show ?thesis
    by (auto simp: Let_def memory_get_direct_mem_ptr_def)
qed

end
