(* ===== verification/Memory_Map.thy ===== *)
theory Memory_Map
  imports Bus_Router Memory_Tlm
begin

text \<open>
  Memories behind the router, as the platforms and the router's unit test wire them: the
  downstream state is the list of memories in socket order. The lemmas show that the whole is
  again one store of bytes, over global addresses, and that the regions are isolated from each
  other.
\<close>

section \<open>The composition\<close>

definition nth_memory :: "nat \<Rightarrow> memory transport \<Rightarrow> memory list transport" where
  "nth_memory k = on_part (\<lambda>ms. ms ! k) (\<lambda>m ms. ms[k := m])"

definition bank_targets :: "nat \<Rightarrow> memory list transport list" where
  "bank_targets n = map (\<lambda>k. nth_memory k memory_b_transport) [0..<n]"

definition bank_dbg_targets :: "nat \<Rightarrow> memory list debug_transport list" where
  "bank_dbg_targets n =
     map (\<lambda>k. on_part_dbg (\<lambda>ms. ms ! k) (\<lambda>m ms. ms[k := m]) memory_transport_dbg) [0..<n]"

definition bank_b_transport :: "bus_router \<Rightarrow> memory list transport" where
  "bank_b_transport r ms = router_b_transport r (bank_targets (length ms)) ms"

definition bank_transport_dbg :: "bus_router \<Rightarrow> memory list debug_transport" where
  "bank_transport_dbg r ms = router_transport_dbg r (bank_dbg_targets (length ms)) ms"

text \<open>Each region is as large as its memory, ends in the address space, and overlaps no other.\<close>

definition mapped :: "bus_router \<Rightarrow> memory list \<Rightarrow> bool" where
  "mapped r ms \<longleftrightarrow> length (ranges r) = length ms \<and> disjoint_map (ranges r) \<and>
     (\<forall>k < length ms. ends_in_space (ranges r ! k) \<and>
        memory_size (ms ! k) = unat (range_size (ranges r ! k)))"

text \<open>The global store: the byte a global address reaches.\<close>

definition global_view :: "bus_router \<Rightarrow> memory list \<Rightarrow> u64 \<Rightarrow> u8 option" where
  "global_view r ms a = (let idx = decode r a in
     if idx < 0 then None
     else mem_view (ms ! nat idx) (unat (a - range_base (ranges r ! nat idx))))"

definition view_write :: "(u64 \<Rightarrow> u8 option) \<Rightarrow> u64 \<Rightarrow> u8 list \<Rightarrow> u64 \<Rightarrow> u8 option" where
  "view_write f a bs x = (if unat a \<le> unat x \<and> unat x < unat a + length bs
     then Some (bs ! (unat x - unat a)) else f x)"

section \<open>Lemmas\<close>

lemma length_bank_targets [simp]: "length (bank_targets n) = n" "length (bank_dbg_targets n) = n"
  by (simp_all add: bank_targets_def bank_dbg_targets_def)

lemma mapped_update:
  assumes "mapped r ms" and "memory_size m' = memory_size (ms ! k)"
  shows "mapped r (ms[k := m'])"
  using assms by (cases "k < length ms") (auto simp: mapped_def nth_list_update)

lemma mapped_decode:
  assumes "mapped r ms" and "k < length ms"
    and "unat (range_base (ranges r ! k)) \<le> unat a"
    and "unat a < unat (range_base (ranges r ! k)) + memory_size (ms ! k)"
  shows "decode r a = int k"
    and "unat (a - range_base (ranges r ! k)) = unat a - unat (range_base (ranges r ! k))"
proof -
  have "contains (ranges r ! k) a"
    using assms by (auto simp: mapped_def contains_iff range_addrs_def)
  then show "decode r a = int k"
    using assms decode_unique [of r k a] by (auto simp: mapped_def)
  show "unat (a - range_base (ranges r ! k)) = unat a - unat (range_base (ranges r ! k))"
    using \<open>contains (ranges r ! k) a\<close> by (rule contains_local)
qed

text \<open>Storing bytes in one memory changes the global store in the image of these bytes only.\<close>

lemma global_view_update:
  assumes map: "mapped r ms" and k: "k < length ms"
    and here: "unat (range_base (ranges r ! k)) \<le> unat a"
    and fits: "unat a + length bs \<le> unat (range_base (ranges r ! k)) + memory_size (ms ! k)"
    and view: "mem_view m' = store_write (mem_view (ms ! k))
      (unat a - unat (range_base (ranges r ! k))) bs"
  shows "global_view r (ms[k := m']) x = view_write (global_view r ms) a bs x"
proof (cases "unat a \<le> unat x \<and> unat x < unat a + length bs")
  case True
  then have "decode r x = int k"
    and "unat (x - range_base (ranges r ! k)) = unat x - unat (range_base (ranges r ! k))"
    using mapped_decode [OF map k, of x] here fits by auto
  with True k here view show ?thesis
    by (auto simp: global_view_def view_write_def store_write_def Let_def)
next
  case False
  show ?thesis
  proof (cases rule: decode_cases [of r x])
    case (hit j)
    have "mem_view m' (unat (x - range_base (ranges r ! k)))
        = mem_view (ms ! k) (unat (x - range_base (ranges r ! k)))" if "j = k"
      using hit that False here contains_local(1) [OF hit(3)]
      by (auto simp: view store_write_def contains_iff range_addrs_def)
    with hit False k show ?thesis
      by (auto simp: global_view_def view_write_def Let_def nth_list_update)
  next
    case miss
    with False show ?thesis by (simp add: global_view_def view_write_def Let_def)
  qed
qed

text \<open>One transaction in region \<open>k\<close> is a transaction of memory \<open>k\<close> at the local address.\<close>

lemma bank_transport_at:
  assumes "mapped r ms" and "decode r (address p) = int k"
  shows "bank_b_transport r ms p d =
    bindR (memory_b_transport (ms ! k) (p\<lparr>address := address p - range_base (ranges r ! k)\<rparr>) d)
      (\<lambda>(m', p', d'). Inr (ms[k := m'], p'\<lparr>address := address p\<rparr>, d'))"
proof -
  have "k < length ms" using assms by (auto simp: mapped_def decode_eq)
  with assms show ?thesis
    by (auto simp: bank_b_transport_def router_transport_hit bank_targets_def nth_memory_def
        on_part_def bindR_def split: sum.splits prod.splits)
qed

lemma bank_decode_bounds:
  assumes "mapped r ms" and "decode r a = int k"
  shows "k < length ms" and "unat (range_base (ranges r ! k)) \<le> unat a"
    and "unat (a - range_base (ranges r ! k)) = unat a - unat (range_base (ranges r ! k))"
    and "memory_size (ms ! k) = unat (range_size (ranges r ! k))"
  using assms contains_local [of "ranges r ! k" a]
  by (auto simp: mapped_def decode_eq contains_iff range_addrs_def)

interpretation bank: routed_targets r "bank_targets (length (ranges r))"
  "\<lambda>ms. length ms = length (ranges r)" "replicate (length (ranges r)) wf_payload" for r
  by (rule routed_targets.intro)
    (auto simp: bank_targets_def nth_memory_def intro!: on_part_target [OF mem.tlm_target_axioms])

lemma bank_ok: "wf_payload p \<Longrightarrow> router_ok r (replicate (length (ranges r)) wf_payload) p"
  by (cases rule: decode_cases [of r "address p"]) (auto simp: router_ok_def)

text \<open>A word access that lies in one RAM region, through the router.\<close>

lemma bank_write32:
  assumes map: "mapped r ms" and k: "decode r a = int k" and ram: "\<not> mem_read_only (ms ! k)"
    and fits: "unat a + 4 \<le> unat (range_base (ranges r ! k)) + memory_size (ms ! k)"
  obtains st where
    "memcpy_to (mem_data (ms ! k)) (unat (a - range_base (ranges r ! k))) (le_bytes 4 v) = Inr st"
    and "write32 (bank_b_transport r) a v ms = Inr (ms[k := (ms ! k)\<lparr>mem_data := st\<rparr>])"
proof -
  note b = bank_decode_bounds [OF map k]
  let ?q = "(fill TLM_WRITE_COMMAND a (Some (le_bytes 4 v)) 4)\<lparr>address := a - range_base (ranges r ! k)\<rparr>"
  have "in_store (ms ! k) ?q" "command ?q = TLM_WRITE_COMMAND" "data_ptr ?q = Some (le_bytes 4 v)"
    "length (le_bytes 4 v) = unat (data_length ?q)"
    using b fits by (simp_all add: in_store_def)
  then obtain st where
    st: "memcpy_to (mem_data (ms ! k)) (unat (address ?q)) (le_bytes 4 v) = Inr st"
    and tr: "memory_b_transport (ms ! k) ?q 0 = Inr ((ms ! k)\<lparr>mem_data := st\<rparr>,
      ?q\<lparr>dmi_allowed := True, response_status := TLM_OK_RESPONSE\<rparr>, 0 + mem_latency (ms ! k))"
    using ram by (metis memory_transport_write)
  show ?thesis
    using st tr k
    by (intro that [of st])
      (simp_all add: write32_def bank_transport_at [OF map] is_response_error_def)
qed

lemma bank_read32:
  assumes map: "mapped r ms" and k: "decode r a = int k"
    and fits: "unat a + 4 \<le> unat (range_base (ranges r ! k)) + memory_size (ms ! k)"
  shows "read32 (bank_b_transport r) a ms = Inr (ms,
    le_word (take 4 (drop (unat (a - range_base (ranges r ! k))) (mem_data (ms ! k)))))"
proof -
  note b = bank_decode_bounds [OF map k]
  let ?q = "(fill TLM_READ_COMMAND a (Some [0, 0, 0, 0]) 4)\<lparr>address := a - range_base (ranges r ! k)\<rparr>"
  have "in_store (ms ! k) ?q" using b fits by (simp add: in_store_def)
  with k b fits show ?thesis
    by (simp add: read32_def bank_transport_at [OF map] memory_transport_read
        is_response_error_def ptr_load_def memcpy_from_def memory_size_def)
      (simp add: numeral_eq_Suc)
qed

section \<open>Properties\<close>

text \<open>
  C17: memories behind the router form one store over global addresses. For a map of disjoint
  regions, each as large as its memory, a write whose first byte lies in region \<open>k\<close>, of a RAM,
  is accepted iff its last byte does too; accepted, it changes the global store in the written
  bytes and nowhere else, so no other region is touched; refused, it is an address error and
  nothing changes. Either way the initiator gets its address back.
\<close>

theorem routed_write_updates_global_store:
  assumes map: "mapped r ms" and k: "decode r (address p) = int k"
    and ram: "\<not> mem_read_only (ms ! k)" and wf: "wf_payload p"
    and w: "command p = TLM_WRITE_COMMAND" and bs: "data_ptr p = Some bs"
  shows "\<exists>ms' p' d'. bank_b_transport r ms p d = Inr (ms', p', d') \<and> mapped r ms' \<and>
    address p' = address p \<and>
    (if unat (address p) + unat (data_length p)
          \<le> unat (range_base (ranges r ! k)) + unat (range_size (ranges r ! k))
     then response_status p' = TLM_OK_RESPONSE \<and>
       (\<forall>a. global_view r ms' a = view_write (global_view r ms) (address p) bs a)
     else response_status p' = TLM_ADDRESS_ERROR_RESPONSE \<and> ms' = ms)"
proof -
  note b = bank_decode_bounds [OF map k]
  let ?q = "p\<lparr>address := address p - range_base (ranges r ! k)\<rparr>"
  have len: "length bs = unat (data_length ?q)" using wf bs by (simp add: wf_payload_def)
  have fits: "in_store (ms ! k) ?q \<longleftrightarrow> unat (address p) + unat (data_length p)
      \<le> unat (range_base (ranges r ! k)) + unat (range_size (ranges r ! k))"
    using b by (auto simp: in_store_def)
  show ?thesis
  proof (cases "in_store (ms ! k) ?q")
    case True
    from w bs have "command ?q = TLM_WRITE_COMMAND" "data_ptr ?q = Some bs" by simp_all
    then obtain st where
      st: "memcpy_to (mem_data (ms ! k)) (unat (address ?q)) bs = Inr st"
      and tr: "memory_b_transport (ms ! k) ?q d = Inr ((ms ! k)\<lparr>mem_data := st\<rparr>,
        ?q\<lparr>dmi_allowed := True, response_status := TLM_OK_RESPONSE\<rparr>, d + mem_latency (ms ! k))"
      using True ram len by (metis memory_transport_write)
    let ?ms' = "ms[k := (ms ! k)\<lparr>mem_data := st\<rparr>]"
    have "mapped r ?ms'"
      using length_memcpy_to [OF st] by (intro mapped_update [OF map]) (simp add: memory_size_def)
    moreover have "global_view r ?ms' a = view_write (global_view r ms) (address p) bs a" for a
      using b True fits len memcpy_to_view [OF st]
      by (intro global_view_update [OF map]) auto
    ultimately show ?thesis
      using True fits tr by (simp add: bank_transport_at [OF map k])
  next
    case False
    with map fits show ?thesis
      by (simp add: bank_transport_at [OF map k] memory_transport_refused)
  qed
qed

theorem routed_write_updates_global_store_witness:
  "\<exists>ms' p' d'. bank_b_transport
        \<lparr>ranges = [\<lparr>range_base = 0x1000, range_size = 0x100\<rparr>, \<lparr>range_base = 0x2000, range_size = 0x100\<rparr>],
          n_sockets = 2, n_extra_ports = 0\<rparr>
        [memory_new 0x100 False 10000, memory_new 0x100 False 10000]
        (fill TLM_WRITE_COMMAND 0x2008 (Some [0x22]) 1) 0 = Inr (ms', p', d') \<and>
      response_status p' = TLM_OK_RESPONSE"
proof -
  let ?r = "\<lparr>ranges = [\<lparr>range_base = 0x1000, range_size = 0x100\<rparr>, \<lparr>range_base = 0x2000, range_size = 0x100\<rparr>],
          n_sockets = 2, n_extra_ports = 0\<rparr>"
  let ?ms = "[memory_new 0x100 False 10000, memory_new 0x100 False 10000]"
  let ?p = "fill TLM_WRITE_COMMAND 0x2008 (Some [0x22]) 1"
  have "mapped ?r ?ms"
    by (auto simp: mapped_def disjoint_map_def ends_in_space_def range_addrs_def less_Suc_eq
        memory_new_def memory_size_def)
  moreover have "decode ?r (address ?p) = int 1"
    by (simp add: decode_def contains_def)
  moreover have "\<not> mem_read_only (?ms ! 1)" "wf_payload ?p"
    by (simp_all add: memory_new_def wf_payload_def)
  ultimately show ?thesis
    using routed_write_updates_global_store [of ?r ?ms ?p 1 "[0x22]" 0] by auto
qed

text \<open>
  The RAM check of the CPU stubs (\<open>mini_tlm\<close>, \<open>mini_soc\<close>) cannot fail on a well-formed
  map: a word written by \<open>write32\<close> through the router to a RAM region it fits in is read back by
  \<open>read32\<close> at the same address, with no exception, and a second read sees it again.
\<close>

lemma cpu_stub_ram_check:
  assumes map: "mapped r ms" and k: "decode r a = int k" and ram: "\<not> mem_read_only (ms ! k)"
    and fits: "unat a + 4 \<le> unat (range_base (ranges r ! k)) + unat (range_size (ranges r ! k))"
  shows "\<exists>ms'. write32 (bank_b_transport r) a v ms = Inr ms' \<and>
    read32 (bank_b_transport r) a ms' = Inr (ms', v)"
proof -
  note b = bank_decode_bounds [OF map k]
  obtain st where
    st: "memcpy_to (mem_data (ms ! k)) (unat (a - range_base (ranges r ! k))) (le_bytes 4 v) = Inr st"
    and w: "write32 (bank_b_transport r) a v ms = Inr (ms[k := (ms ! k)\<lparr>mem_data := st\<rparr>])"
    using bank_write32 [OF map k ram] fits b by metis
  have "mapped r (ms[k := (ms ! k)\<lparr>mem_data := st\<rparr>])"
    using length_memcpy_to [OF st] by (intro mapped_update [OF map]) (simp add: memory_size_def)
  moreover have "take 4 (drop (unat (a - range_base (ranges r ! k))) st) = le_bytes 4 v"
    using memcpy_from_to [OF st] by (auto simp: memcpy_from_def split: if_splits)
  ultimately show ?thesis
    using w b fits k length_memcpy_to [OF st]
    by (simp add: bank_read32 memory_size_def)
qed

text \<open>
  Bus traffic never faults. Any sequence of well-formed payloads sent to a router over
  memories (whatever its map) runs to the end, and every transaction gets a response.
\<close>

lemma bank_traffic_returns:
  assumes "length ms = length (ranges r)" and "\<forall>p \<in> set ps. wf_payload p"
  shows "\<exists>ms' rs. run_transport (router_b_transport r (bank_targets (length (ranges r)))) ps ms
      = Inr (ms', rs) \<and> length ms' = length (ranges r) \<and> length rs = length ps \<and>
    TLM_INCOMPLETE_RESPONSE \<notin> set rs"
  using bank.routed.run_transport_returns [OF assms(1), of ps] assms(2) bank_ok by blast

end
