(* ===== verification/Clint_Tlm.thy ===== *)
theory Clint_Tlm
  imports Systemc
begin

text \<open>
  \<open>components/clint_tlm\<close>: the RISC-V core-local interruptor. The record is the class \<open>clint_tlm\<close>
  with its event and the log of the calls on \<open>cpu_\<close>; the definitions are \<open>slice_read\<close>,
  \<open>slice_write\<close>, \<open>now_mtime\<close>, \<open>b_transport\<close>, \<open>reschedule\<close> and one round of \<open>timer_proc\<close>. The
  relation \<open>clint_step\<close> interleaves bus accesses, the passing of simulation time and the wake-ups
  of the timer process in every order the simulation kernel allows.
\<close>

section \<open>The module\<close>

definition kRegMsip :: u64 where [reg_defs]: "kRegMsip = 0x0000"
definition kRegMtimecmp :: u64 where [reg_defs]: "kRegMtimecmp = 0x4000"
definition kRegMtime :: u64 where [reg_defs]: "kRegMtime = 0xBFF8"
definition kScaler :: u64 where [reg_defs]: "kScaler = 1000000"
definition kCauseSoftware :: nat where [reg_defs]: "kCauseSoftware = 3"
definition kCauseTimer :: nat where [reg_defs]: "kCauseTimer = 7"

definition slice_read :: "u64 \<Rightarrow> u32 \<Rightarrow> u32 \<Rightarrow> u8 list res" where
  "slice_read v sub len = memcpy_from (le_bytes 8 v) (unat sub) (unat len)"

definition slice_write :: "u64 \<Rightarrow> u32 \<Rightarrow> u8 list \<Rightarrow> u64 res" where
  "slice_write v sub src =
     bindR (memcpy_to (le_bytes 8 v) (unat sub) src) (\<lambda>bytes. Inr (le_word bytes))"

record clint =
  mtimecmp :: u64
  msip :: u32
  cmp_event :: sc_event
  clint_cpu :: irq_log

definition clint_new :: clint where
  "clint_new = \<lparr>mtimecmp = 0, msip = 0, cmp_event = None, clint_cpu = []\<rparr>"

definition now_mtime :: "sc_time \<Rightarrow> u64" where
  "now_mtime now = now div kScaler"

definition clint_set_irq :: "nat \<Rightarrow> bool \<Rightarrow> clint \<Rightarrow> clint" where
  "clint_set_irq cause level c = c\<lparr>clint_cpu := clint_cpu c @ [(cause, level)]\<rparr>"

definition clint_b_transport :: "sc_time \<Rightarrow> clint transport" where
  "clint_b_transport now c p delay =
     (let delay = delay + 10000;
          addr = address p;
          len = data_length p;
          is_read = (command p = TLM_READ_COMMAND);
          respond = (\<lambda>r c q. Inr (c, q\<lparr>response_status := r\<rparr>, delay))
      in if data_ptr p = None then respond TLM_GENERIC_ERROR_RESPONSE c p
         else if addr = kRegMsip \<and> len = 4
         then if is_read
              then bindR (ptr_store p (le_bytes 4 (msip c))) (\<lambda>q. respond TLM_OK_RESPONSE c q)
              else bindR (ptr_load p 4) (\<lambda>bs.
                   let v = le_word bs :: u32; c' = c\<lparr>msip := v AND 1\<rparr>
                   in respond TLM_OK_RESPONSE (clint_set_irq kCauseSoftware (msip c' \<noteq> 0) c') p)
         else if addr \<ge> kRegMtimecmp \<and> addr + ucast len \<le> kRegMtimecmp + 8
         then let sub = ucast (addr - kRegMtimecmp)
              in if is_read
                 then bindR (slice_read (mtimecmp c) sub len) (\<lambda>bs.
                      bindR (ptr_store p bs) (\<lambda>q. respond TLM_OK_RESPONSE c q))
                 else bindR (ptr_load p (unat len)) (\<lambda>bs.
                      bindR (slice_write (mtimecmp c) sub bs) (\<lambda>v.
                      respond TLM_OK_RESPONSE
                        (c\<lparr>mtimecmp := v, cmp_event := notify_delta (cmp_event c)\<rparr>) p))
         else if addr \<ge> kRegMtime \<and> addr + ucast len \<le> kRegMtime + 8
         then let sub = ucast (addr - kRegMtime); t = now_mtime now
              in if is_read
                 then bindR (slice_read t sub len) (\<lambda>bs.
                      bindR (ptr_store p bs) (\<lambda>q. respond TLM_OK_RESPONSE c q))
                 else respond TLM_OK_RESPONSE c p
         else respond TLM_ADDRESS_ERROR_RESPONSE c p)"

definition reschedule :: "sc_time \<Rightarrow> clint \<Rightarrow> clint" where
  "reschedule now c =
     (if mtimecmp c = 0 then c
      else let goal = mtimecmp c * kScaler
           in c\<lparr>cmp_event := notify_after now (if goal > now then goal - now else 0) (cmp_event c)\<rparr>)"

text \<open>One round of the endless loop of \<open>timer_proc\<close>, entered when its \<open>wait\<close> returns.\<close>

definition timer_proc :: "sc_time \<Rightarrow> clint \<Rightarrow> clint" where
  "timer_proc now c =
     (let c = c\<lparr>cmp_event := None\<rparr>
      in if mtimecmp c \<noteq> 0 \<and> now_mtime now \<ge> mtimecmp c
         then clint_set_irq kCauseTimer True c
         else reschedule now (clint_set_irq kCauseTimer False c))"

section \<open>The module in a simulation\<close>

record clint_sim =
  sim_now :: sc_time
  sim_clint :: clint

definition clint_sim_init :: clint_sim where
  "clint_sim_init = \<lparr>sim_now = 0, sim_clint = clint_new\<rparr>"

text \<open>
  A bus access happens at the current time; a due notification wakes the process; time passes
  only when no delta notification is pending, and never beyond a pending timed one.
\<close>

inductive clint_step :: "clint_sim \<Rightarrow> clint_sim \<Rightarrow> bool" where
  access: "clint_b_transport (sim_now s) (sim_clint s) p d = Inr (c', p', d') \<Longrightarrow>
    clint_step s (s\<lparr>sim_clint := c'\<rparr>)"
| wake: "cmp_event (sim_clint s) = Some Delta \<or> cmp_event (sim_clint s) = Some (Timed (sim_now s)) \<Longrightarrow>
    clint_step s (s\<lparr>sim_clint := timer_proc (sim_now s) (sim_clint s)\<rparr>)"
| pass: "sim_now s < t \<Longrightarrow> cmp_event (sim_clint s) \<noteq> Some Delta \<Longrightarrow>
    (\<And>u. cmp_event (sim_clint s) = Some (Timed u) \<Longrightarrow> t \<le> u) \<Longrightarrow>
    clint_step s (s\<lparr>sim_now := t\<rparr>)"

inductive clint_reachable :: "clint_sim \<Rightarrow> bool" where
  start: "clint_reachable clint_sim_init"
| step: "clint_reachable s \<Longrightarrow> clint_step s t \<Longrightarrow> clint_reachable t"

text \<open>Nothing is due: every notification for the current time has been delivered.\<close>

definition clint_settled :: "clint_sim \<Rightarrow> bool" where
  "clint_settled s \<longleftrightarrow> cmp_event (sim_clint s) \<noteq> Some Delta \<and>
     cmp_event (sim_clint s) \<noteq> Some (Timed (sim_now s))"

definition mtip :: "clint \<Rightarrow> bool" where
  "mtip c = irq_level (clint_cpu c) kCauseTimer"

text \<open>The invariant between the compare register, the notification, the time and MTIP.\<close>

definition clint_invar :: "clint_sim \<Rightarrow> bool" where
  "clint_invar s \<longleftrightarrow> (let c = sim_clint s; now = sim_now s in
     case cmp_event c of
       Some Delta \<Rightarrow> True
     | Some (Timed t) \<Rightarrow> mtimecmp c \<noteq> 0 \<and> t = mtimecmp c * kScaler \<and> now \<le> t \<and> \<not> mtip c
     | None \<Rightarrow> mtip c = (mtimecmp c \<noteq> 0 \<and> now_mtime now \<ge> mtimecmp c) \<and>
         (mtimecmp c = 0 \<or> mtip c))"

text \<open>What the CLINT needs of a payload beyond well-formedness: its end does not wrap.\<close>

definition clint_ok :: "payload \<Rightarrow> bool" where
  "clint_ok p \<longleftrightarrow> wf_payload p \<and> unat (address p) + unat (data_length p) < 2 ^ 64"

section \<open>Lemmas\<close>

text \<open>An access inside the eight bytes at \<open>base\<close> stays inside the register.\<close>

lemma window_slice:
  fixes base addr :: u64 and len :: u32
  assumes "base \<le> addr" and "addr + ucast len \<le> base + 8"
    and "unat addr + unat len < 2 ^ 64" and "unat base + 8 < 2 ^ 64"
  shows "unat (ucast (addr - base) :: u32) + unat len \<le> 8"
proof -
  have sum: "unat (addr + ucast len) = unat addr + unat len"
    using assms(3) by (simp add: unat_word_ariths)
  have "unat (base + 8) = unat base + 8" using assms(4) by (simp add: unat_word_ariths)
  moreover have "unat (addr - base) = unat addr - unat base"
    using assms(1) by (simp add: unat_sub_if' word_le_nat_alt)
  ultimately have "unat (addr - base) + unat len \<le> 8"
    using assms(1,2) sum by (simp add: word_le_nat_alt)
  moreover from this have "unat (ucast (addr - base) :: u32) = unat (addr - base)"
    by (simp add: unsigned_ucast_eq take_bit_nat_eq_self)
  ultimately show ?thesis by simp
qed

lemma slice_read_ok: "unat sub + unat len \<le> 8 \<Longrightarrow>
    slice_read v sub len = Inr (take (unat len) (drop (unat sub) (le_bytes 8 v)))"
  by (simp add: slice_read_def memcpy_from_def)

lemma slice_write_ok: "unat sub + length bs \<le> 8 \<Longrightarrow> \<exists>w. slice_write v sub bs = Inr w"
  by (simp add: slice_write_def memcpy_to_def)

lemma clint_good_outcome:
  assumes "clint_ok p"
  shows "good_outcome (\<lambda>_. True) p (clint_b_transport now c p d)"
proof (cases "data_ptr p")
  case None
  then show ?thesis by (simp add: clint_b_transport_def Let_def)
next
  case (Some b)
  have len: "length b = unat (data_length p)"
    using assms Some by (simp add: clint_ok_def wf_payload_def)
  have w1: "unat (ucast (address p - kRegMtimecmp) :: u32) + unat (data_length p) \<le> 8"
    if "address p \<ge> kRegMtimecmp" "address p + ucast (data_length p) \<le> kRegMtimecmp + 8"
    using window_slice [OF that] assms by (simp add: clint_ok_def reg_defs)
  have w2: "unat (ucast (address p - kRegMtime) :: u32) + unat (data_length p) \<le> 8"
    if "address p \<ge> kRegMtime" "address p + ucast (data_length p) \<le> kRegMtime + 8"
    using window_slice [OF that] assms by (simp add: clint_ok_def reg_defs)
  show ?thesis
    using len Some w1 w2
    by (auto simp: clint_b_transport_def Let_def slice_read_ok ptr_store_def ptr_load_def
        memcpy_to_def memcpy_from_def same_attrs_def slice_write_def)
qed

interpretation clint: tlm_target "clint_b_transport now" "\<lambda>_. True" clint_ok for now
  by (rule tlm_targetI) (rule clint_good_outcome)

text \<open>An access writes the compare register and notifies, or leaves both and MTIP alone.\<close>

lemma clint_access_frame:
  assumes "clint_b_transport now c p d = Inr (c', p', d')"
  shows "cmp_event c' = Some Delta \<or>
    mtimecmp c' = mtimecmp c \<and> cmp_event c' = cmp_event c \<and> mtip c' = mtip c"
  using assms
  by (auto simp: clint_b_transport_def Let_def bindR_eq_Inr mtip_def clint_set_irq_def
      notify_delta_def kCauseSoftware_def kCauseTimer_def split: if_splits)

lemma now_mtime_mono: "a \<le> b \<Longrightarrow> now_mtime a \<le> now_mtime b"
  by (simp add: now_mtime_def word_le_nat_alt unat_div div_le_mono)

lemma clint_set_irq_sel [simp]:
  "mtimecmp (clint_set_irq k l c) = mtimecmp c" "msip (clint_set_irq k l c) = msip c"
  "cmp_event (clint_set_irq k l c) = cmp_event c"
  "mtip (clint_set_irq k l c) = (if k = kCauseTimer then l else mtip c)"
  by (simp_all add: clint_set_irq_def mtip_def)

lemma mtip_event [simp]: "mtip (c\<lparr>cmp_event := e\<rparr>) = mtip c"
  by (simp add: mtip_def)

lemma notify_None: "notify_after now t None = (if t = 0 then Some Delta else Some (Timed (now + t)))"
  by (simp add: notify_after_def notify_delta_def notify_at_def)

lemma timer_proc_eq:
  "mtimecmp (timer_proc now c) = mtimecmp c"
  "mtip (timer_proc now c) = (mtimecmp c \<noteq> 0 \<and> now_mtime now \<ge> mtimecmp c)"
  "cmp_event (timer_proc now c) =
    (if mtimecmp c = 0 \<or> now_mtime now \<ge> mtimecmp c then None
     else if mtimecmp c * kScaler > now then Some (Timed (mtimecmp c * kScaler)) else Some Delta)"
  by (auto simp: timer_proc_def reschedule_def Let_def notify_None)

lemma clint_step_invar: "clint_step s t \<Longrightarrow> clint_invar s \<Longrightarrow> clint_invar t"
proof (induction rule: clint_step.induct)
  case (access s p d c' p' d')
  from clint_access_frame [OF access.hyps] access.prems show ?case
    by (auto simp: clint_invar_def Let_def split: option.splits notification.splits)
next
  case (wake s)
  show ?case
    by (auto simp: clint_invar_def Let_def timer_proc_eq)
next
  case (pass s t)
  have "now_mtime (sim_now s) \<le> now_mtime t" using pass.hyps(1) by (intro now_mtime_mono) simp
  with pass show ?case
    by (auto simp: clint_invar_def Let_def split: option.splits notification.splits)
qed

lemma clint_reachable_invar: "clint_reachable s \<Longrightarrow> clint_invar s"
proof (induction rule: clint_reachable.induct)
  case start
  show ?case by (simp add: clint_invar_def clint_sim_init_def clint_new_def mtip_def)
next
  case (step s t)
  then show ?case by (blast intro: clint_step_invar)
qed

lemma unat_now_mtime: "unat (now_mtime now) = unat now div 1000000"
  by (simp add: now_mtime_def kScaler_def unat_div)

lemma scaled_goal:
  assumes "unat v * 1000000 < 2 ^ 64"
  shows "unat (v * kScaler) = unat v * 1000000"
  using assms by (simp add: kScaler_def unat_word_ariths)

text \<open>Before the goal of a pending notification the compare value has not been reached.\<close>

lemma before_goal:
  assumes "now < v * kScaler"
  shows "now_mtime now < v"
proof -
  have "unat now < unat v * 1000000 mod 2 ^ 64"
    using assms by (simp add: word_less_nat_alt kScaler_def unat_word_ariths)
  also have "\<dots> \<le> unat v * 1000000" by simp
  finally have "unat now div 1000000 < unat v" by (simp add: less_mult_imp_div_less)
  then show ?thesis by (simp add: word_less_nat_alt unat_now_mtime)
qed

lemma clint_invar_settled:
  assumes "clint_invar s" and "clint_settled s"
  shows "mtip (sim_clint s) \<longleftrightarrow>
    mtimecmp (sim_clint s) \<noteq> 0 \<and> now_mtime (sim_now s) \<ge> mtimecmp (sim_clint s)"
  using assms
  by (auto simp: clint_invar_def clint_settled_def Let_def not_le order_le_less
      split: option.splits notification.splits dest!: before_goal)

text \<open>With this compare value the wake-up time wraps to zero.\<close>

lemma livelock_wake:
  assumes "mtimecmp c = 0x400000000000000"
  shows "cmp_event (timer_proc now c) = Some Delta"
proof -
  have "unat now < 2 ^ 64" using unsigned_less [of now, where ?'a = nat] by simp
  then have "\<not> now_mtime now \<ge> 0x400000000000000"
    by (simp add: word_le_nat_alt unat_now_mtime)
  moreover have "(0x400000000000000 :: u64) * kScaler = 0"
    by (simp add: kScaler_def word_unat_eq_iff unat_word_ariths)
  ultimately show ?thesis by (simp add: timer_proc_eq assms)
qed

text \<open>Word accesses to the compare register.\<close>

lemma clint_write_compare:
  assumes "off = 0 \<or> off = 4"
  shows "write32 (clint_b_transport now) (0x4000 + off) v c =
    bindR (memcpy_to (le_bytes 8 (mtimecmp c)) (unat off) (le_bytes 4 v)) (\<lambda>bytes.
      Inr (c\<lparr>mtimecmp := le_word bytes, cmp_event := Some Delta\<rparr>))"
  using assms
  by (auto simp: write32_def clint_b_transport_def reg_defs Let_def ptr_load_def slice_write_def
      memcpy_to_def is_response_error_def notify_delta_def)

lemma clint_read_compare:
  assumes "off = 0 \<or> off = 4"
  shows "read32 (clint_b_transport now) (0x4000 + off) c =
    Inr (c, le_word (take 4 (drop (unat off) (le_bytes 8 (mtimecmp c)))))"
  using assms
  by (auto simp: read32_def clint_b_transport_def reg_defs Let_def ptr_load_def ptr_store_def
      slice_read_def memcpy_to_def memcpy_from_def is_response_error_def)

text \<open>Word reads of the time, and the compare register written high word first.\<close>

lemma clint_read_time:
  "read32 (clint_b_transport now) 0xBFF8 c = Inr (c, ucast (now_mtime now))"
  "read32 (clint_b_transport now) 0xBFFC c = Inr (c, ucast (drop_bit 32 (now_mtime now)))"
proof -
  have w: "(ucast (take_bit 32 x) :: u32) = ucast x" for x :: u64
    by (rule bit_word_eqI) (auto simp: bit_simps)
  show "read32 (clint_b_transport now) 0xBFF8 c = Inr (c, ucast (now_mtime now))"
    "read32 (clint_b_transport now) 0xBFFC c = Inr (c, ucast (drop_bit 32 (now_mtime now)))"
    by (simp_all add: read32_def clint_b_transport_def reg_defs Let_def ptr_load_def ptr_store_def slice_read_def
        memcpy_from_def memcpy_to_def is_response_error_def take_le_bytes drop_le_bytes le_word_le_bytes_ucast w)
qed

lemma clint_arm:
  obtains c1 where "write32 (clint_b_transport now) 0x4004 hi c = Inr c1"
    and "write32 (clint_b_transport now) 0x4000 lo c1 =
      Inr (c\<lparr>mtimecmp := ucast lo OR push_bit 32 (ucast hi), cmp_event := Some Delta\<rparr>)"
proof -
  define c1 where "c1 = c\<lparr>mtimecmp := le_word (le_bytes 4 (mtimecmp c) @ le_bytes 4 hi), cmp_event := Some Delta\<rparr>"
  have "le_bytes 8 (mtimecmp c1) = le_bytes 4 (mtimecmp c) @ le_bytes 4 hi"
    by (simp add: c1_def le_bytes_of_word)
  then have "write32 (clint_b_transport now) 0x4004 hi c = Inr c1"
    and "write32 (clint_b_transport now) 0x4000 lo c1 =
      Inr (c\<lparr>mtimecmp := le_word (le_bytes 4 lo @ le_bytes 4 hi), cmp_event := Some Delta\<rparr>)"
    using clint_write_compare [of 4 now hi c] clint_write_compare [of 0 now lo c1]
    by (simp_all add: c1_def memcpy_to_def take_le_bytes)
  with that show ?thesis by (simp add: le_word_append le_word_le_bytes_ucast take_bit_word_eq_self)
qed

text \<open>The unit test's run: compare value 100 written at time 0, reached after 100 microseconds.\<close>

lemma clint_armed: "clint_b_transport 0 clint_new
    (fill TLM_WRITE_COMMAND 0x4000 (Some (le_bytes 8 (100 :: u64))) 8) 0 =
    Inr (clint_new\<lparr>mtimecmp := 100, cmp_event := Some Delta\<rparr>,
      (fill TLM_WRITE_COMMAND 0x4000 (Some (le_bytes 8 (100 :: u64))) 8)
        \<lparr>response_status := TLM_OK_RESPONSE\<rparr>, 10000)"
  by (simp add: clint_b_transport_def Let_def reg_defs ptr_load_def slice_write_def
      notify_delta_def clint_new_def)

lemma clint_fired_reachable:
  "clint_reachable \<lparr>sim_now = 100000000, sim_clint = timer_proc 100000000
     (timer_proc 0 (clint_new\<lparr>mtimecmp := 100, cmp_event := Some Delta\<rparr>))\<rparr>"
proof -
  let ?c1 = "clint_new\<lparr>mtimecmp := 100, cmp_event := Some Delta\<rparr>"
  have "clint_reachable (clint_sim_init\<lparr>sim_clint := ?c1\<rparr>)"
    by (rule clint_reachable.step [OF clint_reachable.start], rule clint_step.access)
      (simp add: clint_sim_init_def, rule clint_armed)
  then have r1: "clint_reachable \<lparr>sim_now = 0, sim_clint = ?c1\<rparr>"
    by (simp add: clint_sim_init_def)
  have r2: "clint_reachable \<lparr>sim_now = 0, sim_clint = timer_proc 0 ?c1\<rparr>"
    using clint_reachable.step [OF r1 clint_step.wake] by simp
  have "clint_reachable (\<lparr>sim_now = 0, sim_clint = timer_proc 0 ?c1\<rparr>\<lparr>sim_now := 100000000\<rparr>)"
    by (rule clint_reachable.step [OF r2], rule clint_step.pass)
      (simp_all add: timer_proc_eq now_mtime_def kScaler_def)
  then have r3: "clint_reachable \<lparr>sim_now = 100000000, sim_clint = timer_proc 0 ?c1\<rparr>" by simp
  show ?thesis
    using clint_reachable.step [OF r3 clint_step.wake]
    by (simp add: timer_proc_eq now_mtime_def kScaler_def)
qed

section \<open>Properties\<close>

text \<open>
  C16: the timer line is right whenever the simulation is at rest. In every reachable state, after
  any interleaving of bus accesses, passing time and wake-ups, if no notification is due then
  MTIP at the CPU is asserted iff the compare register is not zero and \<open>mtime\<close> has reached it.
\<close>

theorem clint_mtip_correct:
  assumes "clint_reachable s" and "clint_settled s"
  shows "mtip (sim_clint s) \<longleftrightarrow>
    mtimecmp (sim_clint s) \<noteq> 0 \<and> now_mtime (sim_now s) \<ge> mtimecmp (sim_clint s)"
  using clint_reachable_invar [OF assms(1)] assms(2) by (rule clint_invar_settled)

theorem clint_mtip_correct_witness:
  "mtip (timer_proc 100000000
     (timer_proc 0 (clint_new\<lparr>mtimecmp := 100, cmp_event := Some Delta\<rparr>)))"
  using clint_mtip_correct [OF clint_fired_reachable]
  by (simp add: clint_settled_def timer_proc_eq now_mtime_def kScaler_def)

text \<open>
  C34: the timer fires on time. Let the compare register hold a value \<open>v\<close> other than zero whose
  time in picoseconds fits in 64 bits. The process woken at \<open>now\<close> asserts MTIP at once when
  \<open>mtime\<close> has reached \<open>v\<close>; otherwise it clears MTIP, asks to be woken exactly at \<open>v\<close>
  microseconds, which is later than \<open>now\<close>, and woken then it asserts MTIP. In both cases it then
  rests.
\<close>

theorem clint_timer_fires:
  assumes "v \<noteq> 0" and "unat v * 1000000 < 2 ^ 64" and "mtimecmp c = v"
  shows "(now_mtime now \<ge> v \<longrightarrow> mtip (timer_proc now c) \<and> cmp_event (timer_proc now c) = None) \<and>
    (now_mtime now < v \<longrightarrow> \<not> mtip (timer_proc now c) \<and>
       (\<exists>t. cmp_event (timer_proc now c) = Some (Timed t) \<and> unat t = unat v * 1000000 \<and> now < t \<and>
          mtip (timer_proc t (timer_proc now c)) \<and>
          cmp_event (timer_proc t (timer_proc now c)) = None))"
proof -
  note goal = scaled_goal [OF assms(2)]
  have "now < v * kScaler" if "now_mtime now < v"
    using that by (auto simp: word_less_nat_alt goal unat_now_mtime)
  moreover have "now_mtime (v * kScaler) = v"
    by (simp add: word_unat_eq_iff unat_now_mtime goal)
  ultimately show ?thesis
    using assms(1,3) goal by (auto simp: timer_proc_eq)
qed

theorem clint_timer_fires_witness:
  "\<exists>t. cmp_event (timer_proc 0 (clint_new\<lparr>mtimecmp := 100\<rparr>)) = Some (Timed t) \<and>
     unat t = 100000000 \<and> mtip (timer_proc t (timer_proc 0 (clint_new\<lparr>mtimecmp := 100\<rparr>)))"
proof -
  have "(100 :: u64) \<noteq> 0" "unat (100 :: u64) * 1000000 < 2 ^ 64"
    "mtimecmp (clint_new\<lparr>mtimecmp := 100\<rparr>) = 100" by simp_all
  from clint_timer_fires [OF this, of 0] show ?thesis
    by (auto simp: now_mtime_def kScaler_def)
qed

text \<open>
  Beyond that bound the product \<open>mtimecmp_ * kScaler\<close> wraps. With the compare value
  \<open>2 ^ 58\<close> the wake-up time wraps to zero, the process notifies itself for the next delta cycle
  at every wake-up, whatever the time, and so simulation time never passes again.
\<close>

lemma clint_compare_wrap_livelock:
  "cmp_event ((timer_proc now ^^ Suc n) (clint_new\<lparr>mtimecmp := 0x400000000000000\<rparr>)) = Some Delta"
proof -
  have "mtimecmp ((timer_proc now ^^ m) (clint_new\<lparr>mtimecmp := 0x400000000000000\<rparr>))
      = 0x400000000000000" for m
    by (induction m) (simp_all add: timer_proc_eq)
  then show ?thesis by (simp add: livelock_wake)
qed

text \<open>
  The compare register through 32-bit accesses. The low and the high word written at
  \<open>0x4000\<close> and \<open>0x4004\<close> are accepted, combine to the 64-bit register, wake the timer process,
  and are read back unchanged.
\<close>

lemma clint_mtimecmp_words:
  "\<exists>c1 c2. write32 (clint_b_transport now) 0x4000 lo c = Inr c1 \<and>
     write32 (clint_b_transport now) 0x4004 hi c1 = Inr c2 \<and>
     mtimecmp c2 = ucast lo OR push_bit 32 (ucast hi) \<and> cmp_event c2 = Some Delta \<and>
     clint_cpu c2 = clint_cpu c \<and> msip c2 = msip c \<and>
     read32 (clint_b_transport now) 0x4000 c2 = Inr (c2, lo) \<and>
     read32 (clint_b_transport now) 0x4004 c2 = Inr (c2, hi)"
proof -
  define c1 where "c1 = c\<lparr>mtimecmp := le_word (le_bytes 4 lo @ drop 4 (le_bytes 8 (mtimecmp c))),
    cmp_event := Some Delta\<rparr>"
  define c2 where "c2 = c\<lparr>mtimecmp := le_word (le_bytes 4 lo @ le_bytes 4 hi),
    cmp_event := Some Delta\<rparr>"
  have "le_bytes 8 (mtimecmp c1) = le_bytes 4 lo @ drop 4 (le_bytes 8 (mtimecmp c))"
    and b2: "le_bytes 8 (mtimecmp c2) = le_bytes 4 lo @ le_bytes 4 hi"
    by (simp_all add: c1_def c2_def le_bytes_of_word)
  then have "write32 (clint_b_transport now) 0x4000 lo c = Inr c1"
    and "write32 (clint_b_transport now) 0x4004 hi c1 = Inr c2"
    using clint_write_compare [of 0 now lo c] clint_write_compare [of 4 now hi c1]
    by (simp_all add: c1_def c2_def memcpy_to_def)
  moreover have "mtimecmp c2 = ucast lo OR push_bit 32 (ucast hi)"
    by (simp add: c2_def le_word_append le_word_le_bytes_ucast take_bit_word_eq_self)
  moreover have "read32 (clint_b_transport now) 0x4000 c2 = Inr (c2, lo)"
    and "read32 (clint_b_transport now) 0x4004 c2 = Inr (c2, hi)"
    using clint_read_compare [of 0 now c2] clint_read_compare [of 4 now c2]
    by (simp_all add: b2)
  ultimately show ?thesis by (auto simp: c2_def)
qed

text \<open>
  The software interrupt. A word written to \<open>msip\<close> is reduced to its lowest bit, that bit is
  driven to the CPU as the level of the software interrupt and read back; the timer's registers
  and line stay as they were.
\<close>

lemma clint_msip_drives_cpu:
  "\<exists>c'. write32 (clint_b_transport now) 0 v c = Inr c' \<and> msip c' = v AND 1 \<and>
     irq_level (clint_cpu c') kCauseSoftware = bit v 0 \<and>
     read32 (clint_b_transport now) 0 c' = Inr (c', v AND 1) \<and>
     mtimecmp c' = mtimecmp c \<and> cmp_event c' = cmp_event c \<and> mtip c' = mtip c"
proof -
  have "v AND 1 = 0 \<longleftrightarrow> \<not> bit v 0"
    by (simp add: and_one_eq odd_iff_mod_2_eq_one [symmetric] bit_0 even_iff_mod_2_eq_zero [symmetric])
  then show ?thesis
    by (auto simp: write32_def read32_def clint_b_transport_def reg_defs Let_def ptr_load_def
        ptr_store_def memcpy_from_def memcpy_to_def is_response_error_def clint_set_irq_def mtip_def)
qed

text \<open>
  C40: the check that keeps an access inside a register is computed in 64 bits. For an address and
  length whose sum does not wrap every access with a well-formed payload is answered without
  leaving the registers; at the last address of the space the sum wraps to zero, the check
  passes, and the copy reads outside the register.
\<close>

theorem clint_accesses_in_bounds:
  "(clint_ok p \<longrightarrow> good_outcome (\<lambda>_. True) p (clint_b_transport now c p d)) \<and>
   clint_b_transport now c (fill TLM_READ_COMMAND (- 1) (Some [0]) 1) d = Inl Out_of_bounds"
  using clint.good [of p now c d]
  by (simp add: clint_b_transport_def Let_def reg_defs slice_read_def memcpy_from_def)

theorem clint_accesses_in_bounds_witness:
  "good_outcome (\<lambda>_. True) (fill TLM_READ_COMMAND 0xBFF8 (Some [0, 0, 0, 0]) 4)
     (clint_b_transport 5000000 clint_new (fill TLM_READ_COMMAND 0xBFF8 (Some [0, 0, 0, 0]) 4) 0)"
  using clint_accesses_in_bounds [of "fill TLM_READ_COMMAND 0xBFF8 (Some [0, 0, 0, 0]) 4"
      5000000 clint_new 0]
  by (simp add: clint_ok_def wf_payload_def)

end
