(* ===== verification/Plic_Tlm.thy ===== *)
theory Plic_Tlm
  imports Systemc
begin

text \<open>
  \<open>components/plic_tlm\<close>: the platform-level interrupt controller. The record is the class
  \<open>plic_tlm\<close> with the levels of its input lines and the log of the calls on \<open>cpu_\<close>; the
  definitions are \<open>eligible\<close>, \<open>update_meip\<close>, \<open>on_sources\<close>, \<open>do_claim\<close> and \<open>b_transport\<close>, their
  loops as recursions over the source ids. \<open>plic_step\<close> interleaves bus accesses, changes of the
  lines and the activations of the method \<open>on_sources\<close>.
\<close>

section \<open>The module\<close>

definition kPriorityBase :: u64 where [reg_defs]: "kPriorityBase = 0x000000"
definition kPending :: u64 where [reg_defs]: "kPending = 0x001000"
definition kEnable :: u64 where [reg_defs]: "kEnable = 0x002000"
definition kThreshold :: u64 where [reg_defs]: "kThreshold = 0x200000"
definition kClaim :: u64 where [reg_defs]: "kClaim = 0x200004"
definition kCauseExternal :: nat where [reg_defs]: "kCauseExternal = 11"

record plic =
  num_sources :: u32
  priority :: "u32 list"
  claimed :: "bool list"
  enable :: u32
  threshold :: u32
  irq_in :: "bool list"
  plic_cpu :: irq_log

definition plic_new :: "u32 \<Rightarrow> plic" where
  "plic_new n = \<lparr>num_sources = n, priority = replicate (unat (n + 1)) 0,
     claimed = replicate (unat (n + 1)) False, enable = 0, threshold = 0,
     irq_in = replicate (unat n) False, plic_cpu = []\<rparr>"

definition eligible :: "nat \<Rightarrow> plic \<Rightarrow> bool res" where
  "eligible sid c =
     (if sid < 1 \<or> sid > unat (num_sources c) then Inr False
      else bindR (vec_at (irq_in c) (sid - 1)) (\<lambda>line.
           if sid \<ge> 32 then Inl Shift_too_wide
           else let enabled = (drop_bit sid (enable c) AND 1) \<noteq> 0
                in if \<not> (line \<and> enabled) then Inr False
                   else bindR (vec_at (claimed c) sid) (\<lambda>cl.
                        if cl then Inr False
                        else bindR (vec_at (priority c) sid) (\<lambda>pr. Inr (pr > threshold c)))))"

text \<open>The ids \<open>1, ..., n\<close> the loops run through.\<close>

definition source_ids :: "plic \<Rightarrow> nat list" where
  "source_ids c = [1..<Suc (unat (num_sources c))]"

fun any_eligible :: "nat list \<Rightarrow> plic \<Rightarrow> bool res" where
  "any_eligible [] c = Inr False"
| "any_eligible (sid # ids) c =
     bindR (eligible sid c) (\<lambda>e. if e then Inr True else any_eligible ids c)"

definition plic_set_irq :: "nat \<Rightarrow> bool \<Rightarrow> plic \<Rightarrow> plic" where
  "plic_set_irq cause level c = c\<lparr>plic_cpu := plic_cpu c @ [(cause, level)]\<rparr>"

definition update_meip :: "plic \<Rightarrow> plic res" where
  "update_meip c =
     bindR (any_eligible (source_ids c) c) (\<lambda>any. Inr (plic_set_irq kCauseExternal any c))"

definition on_sources :: "plic \<Rightarrow> plic res" where
  "on_sources c = update_meip c"

fun claim_loop :: "nat list \<Rightarrow> plic \<Rightarrow> u32 \<Rightarrow> u32 \<Rightarrow> u32 res" where
  "claim_loop [] c best best_prio = Inr best"
| "claim_loop (sid # ids) c best best_prio =
     bindR (eligible sid c) (\<lambda>e.
       if e then bindR (vec_at (priority c) sid) (\<lambda>pr.
              if pr > best_prio then claim_loop ids c (of_nat sid) pr
              else claim_loop ids c best best_prio)
       else claim_loop ids c best best_prio)"

definition do_claim :: "plic \<Rightarrow> (plic \<times> u32) res" where
  "do_claim c =
     bindR (claim_loop (source_ids c) c 0 0) (\<lambda>best.
     bindR (if best \<noteq> 0
            then bindR (vec_put (claimed c) (unat best) True) (\<lambda>cl. Inr (c\<lparr>claimed := cl\<rparr>))
            else Inr c) (\<lambda>c1.
     bindR (update_meip c1) (\<lambda>c2. Inr (c2, best))))"

fun pending_loop :: "nat list \<Rightarrow> plic \<Rightarrow> u32 \<Rightarrow> u32 res" where
  "pending_loop [] c v = Inr v"
| "pending_loop (sid # ids) c v =
     bindR (vec_at (irq_in c) (sid - 1)) (\<lambda>line.
       if line then if sid \<ge> 32 then Inl Shift_too_wide
                    else pending_loop ids c (v OR push_bit sid 1)
       else pending_loop ids c v)"

text \<open>
  \<open>b_transport\<close>. The register access proper is \<open>plic_access\<close>: it takes the value of a write and
  gives the value of a read, or \<open>None\<close> for an address without a register.
\<close>

definition plic_access :: "u64 \<Rightarrow> bool \<Rightarrow> u32 \<Rightarrow> plic \<Rightarrow> (plic \<times> u32) option res" where
  "plic_access addr is_read v c =
     (let n = num_sources c; ok = (\<lambda>v c. Inr (Some (c, v)))
      in if addr \<ge> kPriorityBase \<and> addr < kPriorityBase + ucast (4 * (n + 1))
         then let sid = ucast (addr div 4) :: u32
              in if is_read
                 then if sid \<le> n then bindR (vec_at (priority c) (unat sid)) (\<lambda>v. ok v c)
                      else ok 0 c
                 else if sid \<ge> 1 \<and> sid \<le> n
                 then bindR (vec_put (priority c) (unat sid) v) (\<lambda>pr.
                      bindR (update_meip (c\<lparr>priority := pr\<rparr>)) (ok v))
                 else ok v c
         else if addr = kPending
         then if is_read then bindR (pending_loop (source_ids c) c 0) (\<lambda>v. ok v c) else ok v c
         else if addr = kEnable
         then if is_read then ok (enable c) c
              else bindR (update_meip (c\<lparr>enable := v\<rparr>)) (ok v)
         else if addr = kThreshold
         then if is_read then ok (threshold c) c
              else bindR (update_meip (c\<lparr>threshold := v\<rparr>)) (ok v)
         else if addr = kClaim
         then if is_read then bindR (do_claim c) (\<lambda>(c', best). ok best c')
              else bindR (if v \<ge> 1 \<and> v \<le> n
                          then bindR (vec_put (claimed c) (unat v) False) (\<lambda>cl.
                               Inr (c\<lparr>claimed := cl\<rparr>))
                          else Inr c) (\<lambda>c1. bindR (update_meip c1) (ok v))
         else Inr None)"

definition plic_b_transport :: "plic transport" where
  "plic_b_transport c p delay =
     (let delay = delay + 10000;
          is_read = (command p = TLM_READ_COMMAND);
          respond = (\<lambda>r c q. Inr (c, q\<lparr>response_status := r\<rparr>, delay))
      in if data_ptr p = None \<or> data_length p \<noteq> 4 then respond TLM_ADDRESS_ERROR_RESPONSE c p
         else bindR (if is_read then Inr 0 else bindR (ptr_load p 4) (\<lambda>bs. Inr (le_word bs))) (\<lambda>v.
              bindR (plic_access (address p) is_read v c) (\<lambda>r.
              case r of None \<Rightarrow> respond TLM_ADDRESS_ERROR_RESPONSE c p
              | Some (c', v') \<Rightarrow>
                  if is_read then bindR (ptr_store p (le_bytes 4 v')) (respond TLM_OK_RESPONSE c')
                  else respond TLM_OK_RESPONSE c' p)))"

section \<open>Specification\<close>

text \<open>A controller as its constructor builds it, with the 31 sources one word has bits for.\<close>

definition plic_wf :: "plic \<Rightarrow> bool" where
  "plic_wf c \<longleftrightarrow> unat (num_sources c) \<le> 31 \<and> length (priority c) = Suc (unat (num_sources c)) \<and>
     length (claimed c) = Suc (unat (num_sources c)) \<and>
     length (irq_in c) = unat (num_sources c)"

text \<open>What makes a source a candidate: its line, its enable bit, its gateway, its priority.\<close>

definition candidate :: "plic \<Rightarrow> nat \<Rightarrow> bool" where
  "candidate c sid \<longleftrightarrow> 1 \<le> sid \<and> sid \<le> unat (num_sources c) \<and> irq_in c ! (sid - 1) \<and>
     bit (enable c) sid \<and> \<not> claimed c ! sid \<and> priority c ! sid > threshold c"

text \<open>The candidate the specification serves: highest priority, then lowest id.\<close>

definition best_in :: "plic \<Rightarrow> nat set \<Rightarrow> nat \<Rightarrow> bool" where
  "best_in c S sid \<longleftrightarrow> sid \<in> S \<and> candidate c sid \<and>
     (\<forall>j \<in> S. candidate c j \<longrightarrow>
        priority c ! j < priority c ! sid \<or> priority c ! j = priority c ! sid \<and> sid \<le> j)"

definition served :: "plic \<Rightarrow> nat \<Rightarrow> bool" where
  "served c sid \<longleftrightarrow> best_in c (set (source_ids c)) sid"

definition meip :: "plic \<Rightarrow> bool" where
  "meip c = irq_level (plic_cpu c) kCauseExternal"

definition any_candidate :: "plic \<Rightarrow> bool" where
  "any_candidate c \<longleftrightarrow> (\<exists>sid \<in> set (source_ids c). candidate c sid)"

section \<open>The module in a simulation\<close>

text \<open>
  A line driven by a peripheral changes at the end of a delta cycle and schedules \<open>on_sources\<close>
  for the next one; until then bus accesses may still come.
\<close>

record plic_sim =
  sim_plic :: plic
  lines_changed :: bool

inductive plic_step :: "plic_sim \<Rightarrow> plic_sim \<Rightarrow> bool" where
  access: "wf_payload p \<Longrightarrow> plic_b_transport (sim_plic s) p d = Inr (c', p', d') \<Longrightarrow>
    plic_step s (s\<lparr>sim_plic := c'\<rparr>)"
| drive: "length lines = length (irq_in (sim_plic s)) \<Longrightarrow>
    plic_step s \<lparr>sim_plic = (sim_plic s)\<lparr>irq_in := lines\<rparr>,
      lines_changed = (lines_changed s \<or> lines \<noteq> irq_in (sim_plic s))\<rparr>"
| react: "lines_changed s \<Longrightarrow> on_sources (sim_plic s) = Inr c' \<Longrightarrow>
    plic_step s \<lparr>sim_plic = c', lines_changed = False\<rparr>"

inductive plic_reachable :: "u32 \<Rightarrow> plic_sim \<Rightarrow> bool" for n where
  start: "plic_reachable n \<lparr>sim_plic = plic_new n, lines_changed = False\<rparr>"
| step: "plic_reachable n s \<Longrightarrow> plic_step s t \<Longrightarrow> plic_reachable n t"

text \<open>A scenario: bus accesses, and line changes each followed by its \<open>on_sources\<close>.\<close>

datatype plic_event = Bus payload | Lines "bool list"

text \<open>The scenario's final state and the ids its claim reads returned, in order.\<close>

definition claim_answer :: "payload \<Rightarrow> payload \<Rightarrow> u32 list" where
  "claim_answer p p' =
     (if command p = TLM_READ_COMMAND \<and> address p = kClaim \<and> response_status p' = TLM_OK_RESPONSE
      then [le_word (the (data_ptr p'))] else [])"

fun plic_run :: "plic_event list \<Rightarrow> plic \<Rightarrow> (plic \<times> u32 list) res" where
  "plic_run [] c = Inr (c, [])"
| "plic_run (Bus p # evs) c =
     bindR (plic_b_transport c p 0) (\<lambda>(c1, p', d).
     bindR (plic_run evs c1) (\<lambda>(c2, ids). Inr (c2, claim_answer p p' @ ids)))"
| "plic_run (Lines xs # evs) c =
     bindR (on_sources (c\<lparr>irq_in := xs\<rparr>)) (\<lambda>c1. plic_run evs c1)"

fun event_ok :: "plic \<Rightarrow> plic_event \<Rightarrow> bool" where
  "event_ok c (Bus p) = wf_payload p"
| "event_ok c (Lines xs) = (length xs = length (irq_in c))"

fun completes :: "nat \<Rightarrow> plic_event \<Rightarrow> bool" where
  "completes sid (Bus p) = (command p \<noteq> TLM_READ_COMMAND \<and> address p = kClaim \<and>
     (case data_ptr p of None \<Rightarrow> False | Some b \<Rightarrow> unat (le_word b :: u32) = sid))"
| "completes sid (Lines xs) = False"

section \<open>Lemmas\<close>

lemma plic_set_irq_sel [simp]:
  "num_sources (plic_set_irq k l c) = num_sources c" "priority (plic_set_irq k l c) = priority c"
  "claimed (plic_set_irq k l c) = claimed c" "enable (plic_set_irq k l c) = enable c"
  "threshold (plic_set_irq k l c) = threshold c" "irq_in (plic_set_irq k l c) = irq_in c"
  "meip (plic_set_irq kCauseExternal l c) = l"
  by (simp_all add: plic_set_irq_def meip_def)

lemma candidate_set_irq [simp]: "candidate (plic_set_irq k l c) = candidate c"
  by (rule ext) (simp add: candidate_def)

lemma any_candidate_set_irq [simp]: "any_candidate (plic_set_irq k l c) = any_candidate c"
  by (simp add: any_candidate_def source_ids_def)

lemma plic_wf_set_irq [simp]: "plic_wf (plic_set_irq k l c) = plic_wf c"
  by (simp add: plic_wf_def)

lemma bit_and_one: "(drop_bit n (w :: 'a::len word) AND 1) \<noteq> 0 \<longleftrightarrow> bit w n"
  by (simp add: and_one_eq bit_iff_odd_drop_bit odd_iff_mod_2_eq_one)

lemma eligible_candidate:
  assumes "plic_wf c"
  shows "eligible sid c = Inr (candidate c sid)"
  using assms by (auto simp: eligible_def plic_wf_def candidate_def Let_def bit_and_one)

lemma any_eligible_candidate:
  assumes "plic_wf c"
  shows "any_eligible ids c = Inr (\<exists>sid \<in> set ids. candidate c sid)"
  by (induction ids) (auto simp: eligible_candidate [OF assms])

lemma update_meip_eq:
  assumes "plic_wf c"
  shows "update_meip c = Inr (plic_set_irq kCauseExternal (any_candidate c) c)"
  by (simp add: update_meip_def any_eligible_candidate [OF assms] any_candidate_def)

text \<open>The scan keeps the best candidate so far.\<close>

lemma best_in_skip: "best_in c S r \<Longrightarrow> (candidate c i \<Longrightarrow> priority c ! i < priority c ! r) \<Longrightarrow>
    best_in c (insert i S) r"
  by (auto simp: best_in_def)

lemma best_in_first: "candidate c i \<Longrightarrow> \<forall>j \<in> S. i < j \<Longrightarrow>
    \<forall>j \<in> S. candidate c j \<longrightarrow> priority c ! j \<le> priority c ! i \<Longrightarrow> best_in c (insert i S) i"
  by (auto simp: best_in_def order_le_less)

lemma claim_loop_best:
  assumes "plic_wf c" and "sorted_wrt (<) ids" and "\<forall>j \<in> set ids. j \<le> 31"
  shows "\<exists>r. claim_loop ids c best bp = Inr r \<and>
    (r = best \<and> (\<forall>j \<in> set ids. candidate c j \<longrightarrow> priority c ! j \<le> bp) \<or>
     best_in c (set ids) (unat r) \<and> bp < priority c ! unat r)"
  using assms(2,3)
proof (induction ids arbitrary: best bp)
  case Nil
  then show ?case by simp
next
  case (Cons i ids)
  have at: "vec_at (priority c) i = Inr (priority c ! i)" if "candidate c i"
    using that assms(1) by (simp add: candidate_def plic_wf_def)
  have i: "unat (of_nat i :: u32) = i" using Cons.prems(2) by (simp add: unat_of_nat)
  note el = eligible_candidate [OF assms(1)]
  show ?case
  proof (cases "candidate c i \<and> bp < priority c ! i")
    case True
    then have go: "claim_loop (i # ids) c best bp = claim_loop ids c (of_nat i) (priority c ! i)"
      by (simp add: el at)
    from Cons.IH [of "of_nat i" "priority c ! i"] Cons.prems
    obtain r where r: "claim_loop ids c (of_nat i) (priority c ! i) = Inr r"
      and "r = of_nat i \<and> (\<forall>j \<in> set ids. candidate c j \<longrightarrow> priority c ! j \<le> priority c ! i) \<or>
       best_in c (set ids) (unat r) \<and> priority c ! i < priority c ! unat r" by auto
    then have "best_in c (set (i # ids)) (unat r) \<and> bp < priority c ! unat r"
      using True Cons.prems(1) by (auto simp: i intro: best_in_first best_in_skip)
    with r show ?thesis by (simp only: go) blast
  next
    case False
    then have skip: "claim_loop (i # ids) c best bp = claim_loop ids c best bp"
      by (auto simp: el at)
    have ci: "candidate c i \<Longrightarrow> priority c ! i \<le> bp" using False by auto
    from Cons.IH [of best bp] Cons.prems
    obtain r where r: "claim_loop ids c best bp = Inr r"
      and "r = best \<and> (\<forall>j \<in> set ids. candidate c j \<longrightarrow> priority c ! j \<le> bp) \<or>
       best_in c (set ids) (unat r) \<and> bp < priority c ! unat r" by auto
    then have "r = best \<and> (\<forall>j \<in> set (i # ids). candidate c j \<longrightarrow> priority c ! j \<le> bp) \<or>
       best_in c (set (i # ids)) (unat r) \<and> bp < priority c ! unat r"
      using ci by (auto intro: best_in_skip)
    with r show ?thesis by (simp only: skip) blast
  qed
qed

lemma do_claim_eq:
  assumes "plic_wf c"
  obtains best c' where
    "do_claim c = Inr (plic_set_irq kCauseExternal (any_candidate c') c', best)"
    "c' = (if best = 0 then c else c\<lparr>claimed := (claimed c)[unat best := True]\<rparr>)"
    "if any_candidate c then served c (unat best) else best = 0" "plic_wf c'"
proof -
  have ids: "sorted_wrt (<) (source_ids c)" "\<forall>j \<in> set (source_ids c). j \<le> 31"
    using assms by (auto simp: source_ids_def plic_wf_def sorted_wrt_upt simp del: upt_Suc)
  from claim_loop_best [OF assms ids, of 0 0] obtain best
    where loop: "claim_loop (source_ids c) c 0 0 = Inr best"
      and best: "best = 0 \<and> (\<forall>j \<in> set (source_ids c). candidate c j \<longrightarrow> priority c ! j \<le> 0) \<or>
        best_in c (set (source_ids c)) (unat best) \<and> 0 < priority c ! unat best" by auto
  have "\<not> priority c ! j \<le> 0" if "candidate c j" for j
    using that by (auto simp: candidate_def)
  with best have ans: "if any_candidate c then served c (unat best) else best = 0"
    by (auto simp: any_candidate_def served_def best_in_def)
  have len: "unat best < length (claimed c)"
    using best assms by (auto simp: best_in_def candidate_def plic_wf_def)
  define c' where "c' = (if best = 0 then c else c\<lparr>claimed := (claimed c)[unat best := True]\<rparr>)"
  have wf: "plic_wf c'" using assms by (simp add: c'_def plic_wf_def)
  have "(if best \<noteq> 0 then bindR (vec_put (claimed c) (unat best) True)
      (\<lambda>cl. Inr (c\<lparr>claimed := cl\<rparr>)) else Inr c) = Inr c'"
    using len by (simp add: c'_def)
  with loop have "do_claim c = Inr (plic_set_irq kCauseExternal (any_candidate c') c', best)"
    by (simp add: do_claim_def update_meip_eq [OF wf])
  then show ?thesis using that c'_def ans wf by blast
qed

text \<open>The pending register shows the lines.\<close>

lemma pending_loop_bits:
  assumes "\<forall>j \<in> set ids. 1 \<le> j \<and> j \<le> length (irq_in c) \<and> j \<le> 31"
  shows "\<exists>r. pending_loop ids c v = Inr r \<and>
    (\<forall>b. bit r b \<longleftrightarrow> bit v b \<or> b \<in> set ids \<and> irq_in c ! (b - 1))"
  using assms
proof (induction ids arbitrary: v)
  case Nil
  then show ?case by simp
next
  case (Cons i ids)
  then have i: "i - 1 < length (irq_in c)" "i \<le> 31" by auto
  have b: "bit (v OR 2 ^ i) b \<longleftrightarrow> bit v b \<or> b = i" for b
    using i(2) by (auto simp: bit_simps)
  show ?case
  proof (cases "irq_in c ! (i - 1)")
    case True
    with Cons.IH [of "v OR 2 ^ i"] Cons.prems i show ?thesis
      by (auto simp: b)
  next
    case False
    with Cons.IH [of v] Cons.prems i show ?thesis by auto
  qed
qed

text \<open>A register access returns, keeps the controller well-formed, and leaves MEIP coherent.\<close>

definition coherent :: "plic \<Rightarrow> bool" where
  "coherent c \<longleftrightarrow> meip c = any_candidate c"

lemma coherent_update [simp]: "coherent (plic_set_irq kCauseExternal (any_candidate c) c)"
  by (simp add: coherent_def)

lemma plic_priority_id:
  assumes "addr < ucast (4 * (n + 1) :: u32)" and "unat n \<le> 31"
  shows "unat (ucast ((addr :: u64) div 4) :: u32) \<le> unat n"
proof -
  have "unat (4 * (n + 1)) = 4 * (unat n + 1)" using assms(2) by (simp add: unat_word_ariths)
  with assms(1) have "unat addr < 4 * (unat n + 1)" by (simp add: word_less_nat_alt)
  then have le: "unat (addr div 4) \<le> unat n" by (simp add: unat_div)
  with assms(2) have "unat (ucast (addr div 4) :: u32) = unat (addr div 4)"
    by (simp add: unsigned_ucast_eq take_bit_nat_eq_self)
  with le show ?thesis by simp
qed

text \<open>The priority registers end below the others.\<close>

lemma plic_not_priority:
  fixes addr :: u64
  assumes "plic_wf c" and "0x1000 \<le> addr"
  shows "\<not> addr < ucast (4 * num_sources c + 4)"
proof -
  have "unat (4 * num_sources c + 4) = 4 * unat (num_sources c) + 4"
    using assms(1) by (simp add: plic_wf_def unat_word_ariths)
  moreover have "0x1000 \<le> unat addr" using assms(2) by (simp add: word_le_nat_alt)
  ultimately show ?thesis using assms(1) by (simp add: word_less_nat_alt plic_wf_def)
qed

lemma plic_access_registers:
  assumes "plic_wf c"
  shows "plic_access kPending True v c = bindR (pending_loop (source_ids c) c 0) (\<lambda>v. Inr (Some (c, v)))"
    and "plic_access kEnable True v c = Inr (Some (c, enable c))"
    and "plic_access kEnable False v c = bindR (update_meip (c\<lparr>enable := v\<rparr>)) (\<lambda>c. Inr (Some (c, v)))"
    and "plic_access kThreshold True v c = Inr (Some (c, threshold c))"
    and "plic_access kThreshold False v c =
      bindR (update_meip (c\<lparr>threshold := v\<rparr>)) (\<lambda>c. Inr (Some (c, v)))"
    and "plic_access kClaim True v c = bindR (do_claim c) (\<lambda>(c', best). Inr (Some (c', best)))"
    and "plic_access kClaim False v c =
      bindR (if v \<ge> 1 \<and> v \<le> num_sources c
             then bindR (vec_put (claimed c) (unat v) False) (\<lambda>cl. Inr (c\<lparr>claimed := cl\<rparr>))
             else Inr c) (\<lambda>c1. bindR (update_meip c1) (\<lambda>c. Inr (Some (c, v))))"
  using plic_not_priority [OF assms] by (simp_all add: plic_access_def reg_defs Let_def)

lemma plic_priority_access:
  assumes "plic_wf c" and "1 \<le> sid" and "sid \<le> unat (num_sources c)"
  shows "plic_access (of_nat (4 * sid)) True v c = Inr (Some (c, priority c ! sid))"
    and "plic_access (of_nat (4 * sid)) False v c =
      bindR (update_meip (c\<lparr>priority := (priority c)[sid := v]\<rparr>)) (\<lambda>c. Inr (Some (c, v)))"
proof -
  have n31: "unat (num_sources c) \<le> 31" and len: "length (priority c) = Suc (unat (num_sources c))"
    using assms(1) by (simp_all add: plic_wf_def)
  have a: "unat (of_nat (4 * sid) :: u64) = 4 * sid"
    using assms(3) n31 by (simp add: unat_of_nat del: of_nat_mult)
  have "unat (4 * (num_sources c + 1)) = 4 * (unat (num_sources c) + 1)"
    using n31 by (simp add: unat_word_ariths)
  then have lt: "(of_nat (4 * sid) :: u64) < ucast (4 * (num_sources c + 1))"
    using assms(3) a by (simp only: word_less_nat_alt unat_ucast_32_64) simp
  have "unat ((of_nat (4 * sid) :: u64) div 4) = sid" unfolding unat_div a by simp
  then have s: "unat (ucast ((of_nat (4 * sid) :: u64) div 4) :: u32) = sid"
    using assms(3) n31 by (simp add: unsigned_ucast_eq take_bit_nat_eq_self)
  have "(ucast ((of_nat (4 * sid) :: u64) div 4) :: u32) \<le> num_sources c"
    "(ucast ((of_nat (4 * sid) :: u64) div 4) :: u32) \<ge> 1"
    using assms(2,3) s by (simp_all only: word_le_nat_alt unsigned_1)
  with lt s assms(3) len show "plic_access (of_nat (4 * sid)) True v c = Inr (Some (c, priority c ! sid))"
    and "plic_access (of_nat (4 * sid)) False v c =
      bindR (update_meip (c\<lparr>priority := (priority c)[sid := v]\<rparr>)) (\<lambda>c. Inr (Some (c, v)))"
    by (simp_all only: plic_access_def Let_def kPriorityBase_def) (simp_all del: of_nat_mult)
qed

lemma plic_access_returns:
  assumes "plic_wf c"
  shows "\<exists>r. plic_access addr is_read v c = Inr r \<and>
    (\<forall>c' v'. r = Some (c', v') \<longrightarrow> plic_wf c' \<and> num_sources c' = num_sources c \<and>
       irq_in c' = irq_in c \<and> (c' = c \<or> coherent c'))"
proof -
  have n31: "unat (num_sources c) \<le> 31" and lens: "length (priority c) = Suc (unat (num_sources c))"
    "length (claimed c) = Suc (unat (num_sources c))" "length (irq_in c) = unat (num_sources c)"
    using assms by (simp_all add: plic_wf_def)
  have upd: "update_meip c' = Inr (plic_set_irq kCauseExternal (any_candidate c') c')"
    if "plic_wf c'" for c' using that by (rule update_meip_eq)
  have pid: "unat (ucast (addr div 4) :: u32) \<le> unat (num_sources c)"
    if "addr < ucast (4 * (num_sources c + 1))" using that n31 by (rule plic_priority_id)
  obtain pv where pend: "pending_loop (source_ids c) c 0 = Inr pv"
    using pending_loop_bits [of "source_ids c" c 0] n31 lens by (auto simp: source_ids_def simp del: upt_Suc)
  obtain best c1 where cl: "do_claim c = Inr (plic_set_irq kCauseExternal (any_candidate c1) c1, best)"
    "c1 = (if best = 0 then c else c\<lparr>claimed := (claimed c)[unat best := True]\<rparr>)" "plic_wf c1"
    using do_claim_eq [OF assms] by metis
  have wfs: "plic_wf (c\<lparr>priority := (priority c)[i := x]\<rparr>)" "plic_wf (c\<lparr>enable := x\<rparr>)"
    "plic_wf (c\<lparr>threshold := x\<rparr>)" "plic_wf (c\<lparr>claimed := (claimed c)[i := y]\<rparr>)" for i x y
    using assms by (simp_all add: plic_wf_def)
  have le: "w \<le> num_sources c \<longleftrightarrow> unat w < Suc (unat (num_sources c))" for w :: u32
    by (simp add: word_le_nat_alt less_Suc_eq_le)
  show ?thesis
    using cl pid
    by (auto simp: plic_access_def Let_def kPriorityBase_def upd wfs assms pend le lens)
qed

lemma plic_transport_returns:
  assumes "plic_wf c" and "wf_payload p"
  shows "\<exists>c' p' d'. plic_b_transport c p d = Inr (c', p', d') \<and> plic_wf c' \<and>
    num_sources c' = num_sources c \<and> irq_in c' = irq_in c \<and> (c' = c \<or> coherent c') \<and>
    good_outcome plic_wf p (plic_b_transport c p d)"
proof (cases "data_ptr p = None \<or> data_length p \<noteq> 4")
  case True
  then show ?thesis using assms by (simp add: plic_b_transport_def Let_def)
next
  case False
  then obtain b where b: "data_ptr p = Some b" "length b = 4" "data_length p = 4"
    using assms(2) by (auto simp: wf_payload_def)
  obtain r where r: "plic_access (address p) (command p = TLM_READ_COMMAND)
      (if command p = TLM_READ_COMMAND then 0 else le_word b) c = Inr r"
    and post: "\<And>c' v'. r = Some (c', v') \<Longrightarrow> plic_wf c' \<and> num_sources c' = num_sources c \<and>
       irq_in c' = irq_in c \<and> (c' = c \<or> coherent c')"
    using plic_access_returns [OF assms(1)] by metis
  show ?thesis
  proof (cases r)
    case None
    with r b assms(1) show ?thesis
      by (cases "command p = TLM_READ_COMMAND")
        (simp_all add: plic_b_transport_def Let_def ptr_load_def)
  next
    case (Some cv)
    then obtain c' v' where cv: "r = Some (c', v')" by (cases cv) simp
    show ?thesis
      using r b post [OF cv] cv
      by (cases "command p = TLM_READ_COMMAND")
        (simp_all add: plic_b_transport_def Let_def ptr_load_def ptr_store_def same_attrs_def)
  qed
qed

interpretation plic: tlm_target plic_b_transport plic_wf wf_payload
  by (rule tlm_targetI) (metis plic_transport_returns)

lemma plic_new_wf: "unat n \<le> 31 \<Longrightarrow> plic_wf (plic_new n)"
  by (simp add: plic_new_def plic_wf_def unat_word_ariths)

lemma plic_new_coherent: "coherent (plic_new n)"
  by (simp add: coherent_def plic_new_def meip_def any_candidate_def candidate_def)

lemma plic_step_invar:
  assumes "plic_step s t" and "plic_wf (sim_plic s)"
    and "\<not> lines_changed s \<Longrightarrow> coherent (sim_plic s)"
  shows "plic_wf (sim_plic t) \<and> (lines_changed t \<or> coherent (sim_plic t))"
  using assms
proof (induction rule: plic_step.induct)
  case (access p s d c' p' d')
  with plic_transport_returns [of "sim_plic s" p d] show ?case by auto
next
  case (drive lines s)
  then show ?case by (auto simp: plic_wf_def)
next
  case (react s c')
  then show ?case by (auto simp: on_sources_def update_meip_eq)
qed

lemma plic_reachable_invar:
  assumes "plic_reachable n s" and "unat n \<le> 31"
  shows "plic_wf (sim_plic s) \<and> (lines_changed s \<or> coherent (sim_plic s))"
  using assms(1)
proof (induction rule: plic_reachable.induct)
  case start
  with assms(2) show ?case by (simp add: plic_new_wf plic_new_coherent)
next
  case (step s t)
  with plic_step_invar [of s t] show ?case by blast
qed

text \<open>The gateway: a claimed source stays claimed and is not answered until it is completed.\<close>

lemma plic_access_gateway:
  assumes "plic_wf c" and "plic_access addr is_read v c = Inr (Some (c', v'))"
    and "claimed c ! i" and "1 \<le> i" and "i \<le> unat (num_sources c)"
    and "\<not> (addr = kClaim \<and> \<not> is_read \<and> unat v = i)"
  shows "claimed c' ! i \<and> \<not> (addr = kClaim \<and> is_read \<and> unat v' = i)"
proof -
  have i: "i < length (claimed c)" using assms(1,5) by (simp add: plic_wf_def)
  have upd: "update_meip c' = Inr (plic_set_irq kCauseExternal (any_candidate c') c')"
    if "plic_wf c'" for c' using that by (rule update_meip_eq)
  have wfs: "plic_wf (c\<lparr>priority := (priority c)[j := x]\<rparr>)" "plic_wf (c\<lparr>enable := x\<rparr>)"
    "plic_wf (c\<lparr>threshold := x\<rparr>)" "plic_wf (c\<lparr>claimed := (claimed c)[j := y]\<rparr>)" for j x y
    using assms(1) by (simp_all add: plic_wf_def)
  obtain best c1 where cl: "do_claim c = Inr (plic_set_irq kCauseExternal (any_candidate c1) c1, best)"
    "c1 = (if best = 0 then c else c\<lparr>claimed := (claimed c)[unat best := True]\<rparr>)"
    "if any_candidate c then served c (unat best) else best = 0"
    using do_claim_eq [OF assms(1)] by metis
  have best: "unat best \<noteq> i"
    using cl(3) assms(3,4) by (auto simp: served_def best_in_def candidate_def split: if_splits)
  have c1: "claimed c1 ! i" using cl(2) assms(3) best by simp
  have put: "vec_put xs j y = Inr ys \<longleftrightarrow> j < length xs \<and> ys = xs[j := y]"
    for xs ys :: "'x list" and j y by (auto simp: vec_put_def)
  show ?thesis
    using assms(2,3,6) i best c1
      plic_not_priority [OF assms(1), of "0x200004"]
    by (auto simp: plic_access_def Let_def bindR_eq_Inr upd wfs assms(1) cl(1) put nth_list_update
        vec_put_def reg_defs split: if_splits)
qed

text \<open>A transaction with a four-byte buffer, through the register access.\<close>

lemma plic_transport_access:
  assumes "data_ptr p = Some b" and "length b = 4" and "data_length p = 4"
    and "plic_access (address p) (command p = TLM_READ_COMMAND)
      (if command p = TLM_READ_COMMAND then 0 else le_word b) c = Inr (Some (c', v))"
  shows "plic_b_transport c p d = Inr (c',
    p\<lparr>data_ptr := Some (if command p = TLM_READ_COMMAND then le_bytes 4 v else b),
      response_status := TLM_OK_RESPONSE\<rparr>, d + 10000)"
  using assms
  by (cases "command p = TLM_READ_COMMAND")
    (simp_all add: plic_b_transport_def Let_def ptr_load_def ptr_store_def)

lemma plic_write32:
  assumes "plic_access addr False v c = Inr (Some (c', v'))"
  shows "write32 plic_b_transport addr v c = Inr c'"
  using assms plic_transport_access [of "fill TLM_WRITE_COMMAND addr (Some (le_bytes 4 v)) 4"]
  by (simp add: write32_def is_response_error_def)

lemma plic_read32:
  assumes "plic_access addr True 0 c = Inr (Some (c', v))"
  shows "read32 plic_b_transport addr c = Inr (c', v)"
  using assms plic_transport_access [of "fill TLM_READ_COMMAND addr (Some [0, 0, 0, 0]) 4"]
  by (simp add: read32_def is_response_error_def ptr_load_def)

text \<open>One transaction, and then a whole scenario, keeps the gateway of source \<open>i\<close> closed.\<close>

lemma plic_bus_gateway:
  assumes "plic_wf c" and "wf_payload p" and "\<not> completes i (Bus p)"
    and "claimed c ! i" and "1 \<le> i" and "i \<le> unat (num_sources c)"
    and step: "plic_b_transport c p d = Inr (c', p', d')"
  shows "claimed c' ! i \<and> i \<notin> unat ` set (claim_answer p p')"
proof (cases "\<exists>b v. data_ptr p = Some b \<and> data_length p = 4 \<and>
    plic_access (address p) (command p = TLM_READ_COMMAND)
      (if command p = TLM_READ_COMMAND then 0 else le_word b) c = Inr (Some v)")
  case True
  then obtain b c1 v where b: "data_ptr p = Some b" "data_length p = 4" and
    acc: "plic_access (address p) (command p = TLM_READ_COMMAND)
      (if command p = TLM_READ_COMMAND then 0 else le_word b) c = Inr (Some (c1, v))" by auto
  have len: "length b = 4" using assms(2) b by (simp add: wf_payload_def)
  from step plic_transport_access [OF b(1) len b(2) acc, of d]
  have c': "c' = c1" "claim_answer p p' =
      (if command p = TLM_READ_COMMAND \<and> address p = kClaim then [v] else [])"
    by (auto simp: claim_answer_def)
  have "claimed c1 ! i \<and> \<not> (address p = kClaim \<and> command p = TLM_READ_COMMAND \<and> unat v = i)"
    by (rule plic_access_gateway [OF assms(1) acc assms(4-6)]) (use assms(3) b in auto)
  with c' show ?thesis by auto
next
  case False
  with step assms(2,4) show ?thesis
    by (auto simp: plic_b_transport_def Let_def bindR_eq_Inr claim_answer_def wf_payload_def
        ptr_load_def memcpy_from_def split: if_splits option.splits)
qed

lemma plic_run_gateway:
  assumes "plic_wf c" and "\<forall>e \<in> set evs. event_ok c e \<and> \<not> completes i e"
    and "claimed c ! i" and "1 \<le> i" and "i \<le> unat (num_sources c)"
  shows "\<exists>c' ids. plic_run evs c = Inr (c', ids) \<and> claimed c' ! i \<and> i \<notin> unat ` set ids"
  using assms(1-3,5)
proof (induction evs arbitrary: c)
  case Nil
  then show ?case by simp
next
  case (Cons e evs)
  show ?case
  proof (cases e)
    case (Bus p)
    with Cons.prems obtain c1 p' d' where step: "plic_b_transport c p 0 = Inr (c1, p', d')"
      and c1: "plic_wf c1" "num_sources c1 = num_sources c" "irq_in c1 = irq_in c"
      using plic_transport_returns [of c p 0] by auto
    have gw: "claimed c1 ! i \<and> i \<notin> unat ` set (claim_answer p p')"
      by (rule plic_bus_gateway [OF _ _ _ _ assms(4) _ step]) (use Cons.prems Bus in auto)
    have "\<forall>e \<in> set evs. event_ok c1 e \<and> \<not> completes i e"
    proof
      fix x assume "x \<in> set evs"
      with Cons.prems(2) c1(3) show "event_ok c1 x \<and> \<not> completes i x" by (cases x) auto
    qed
    with Cons.IH [of c1] c1 gw Cons.prems(4) obtain c2 ids where
      "plic_run evs c1 = Inr (c2, ids)" "claimed c2 ! i" "i \<notin> unat ` set ids" by auto
    with step gw Bus show ?thesis by auto
  next
    case (Lines xs)
    let ?c = "c\<lparr>irq_in := xs\<rparr>"
    have "plic_wf ?c" using Cons.prems Lines by (simp add: plic_wf_def)
    then have c1: "on_sources ?c = Inr (plic_set_irq kCauseExternal (any_candidate ?c) ?c)"
      by (simp add: on_sources_def update_meip_eq)
    have "\<forall>e \<in> set evs. event_ok (plic_set_irq kCauseExternal (any_candidate ?c) ?c) e \<and>
        \<not> completes i e"
    proof
      fix x assume "x \<in> set evs"
      with Cons.prems(2) Lines show "event_ok (plic_set_irq kCauseExternal (any_candidate ?c) ?c) x
        \<and> \<not> completes i x" by (cases x) auto
    qed
    with Cons.IH [of "plic_set_irq kCauseExternal (any_candidate ?c) ?c"] Cons.prems
      \<open>plic_wf ?c\<close> Lines c1 show ?thesis by auto
  qed
qed

lemma plic_claim_read:
  assumes "plic_wf c"
  obtains best c' where
    "read32 plic_b_transport kClaim c = Inr (plic_set_irq kCauseExternal (any_candidate c') c', best)"
    "c' = (if best = 0 then c else c\<lparr>claimed := (claimed c)[unat best := True]\<rparr>)"
    "if any_candidate c then served c (unat best) else best = 0" "plic_wf c'"
proof (rule do_claim_eq [OF assms])
  fix best c' assume "do_claim c = Inr (plic_set_irq kCauseExternal (any_candidate c') c', best)"
    and post: "c' = (if best = 0 then c else c\<lparr>claimed := (claimed c)[unat best := True]\<rparr>)"
    "if any_candidate c then served c (unat best) else best = 0" "plic_wf c'"
  then have "read32 plic_b_transport kClaim c
      = Inr (plic_set_irq kCauseExternal (any_candidate c') c', best)"
    by (intro plic_read32) (simp add: plic_access_registers [OF assms])
  from that [OF this post] show thesis .
qed

lemma served_bounds: "served c sid \<Longrightarrow> 1 \<le> sid \<and> sid \<le> unat (num_sources c) \<and> \<not> claimed c ! sid"
  by (simp add: served_def best_in_def candidate_def)

text \<open>The unit test's controller: one source, enabled with priority 1, its line high.\<close>

definition plic_demo :: plic where
  "plic_demo = (plic_new 1)\<lparr>priority := [0, 1], claimed := [False, False], enable := 2,
     irq_in := [True]\<rparr>"

lemma plic_demo_wf: "plic_wf plic_demo"
  by (simp add: plic_demo_def plic_new_def plic_wf_def)

lemma plic_demo_candidate: "candidate plic_demo (Suc 0)" "any_candidate plic_demo"
  by (simp_all add: plic_demo_def plic_new_def candidate_def any_candidate_def source_ids_def
      bit_Suc upt_rec)

lemma plic_demo_served: "served plic_demo (unat v) \<Longrightarrow> v = 1"
  using served_bounds [of plic_demo "unat v"]
  by (simp add: plic_demo_def plic_new_def word_unat_eq_iff)

section \<open>Properties\<close>

text \<open>
  C10: a claim serves the right source. On a controller with at most 31 sources a read of the
  claim register returns. If a source is a candidate (line high, enabled, gateway open, priority
  above the threshold) the answer is the candidate with the highest priority, among equals the
  lowest id, and exactly its gateway is closed; otherwise the answer is zero and no gateway
  changes. Afterwards MEIP is the presence of a remaining candidate; nothing else changes.
\<close>

theorem plic_claim_serves_best:
  assumes "plic_wf c"
  shows "\<exists>c' v. read32 plic_b_transport kClaim c = Inr (c', v) \<and>
    (if any_candidate c
     then served c (unat v) \<and> claimed c' = (claimed c)[unat v := True]
     else v = 0 \<and> claimed c' = claimed c) \<and>
    meip c' = any_candidate c' \<and> priority c' = priority c \<and> enable c' = enable c \<and>
    threshold c' = threshold c \<and> irq_in c' = irq_in c"
proof (rule plic_claim_read [OF assms])
  fix best c' assume r: "read32 plic_b_transport kClaim c
      = Inr (plic_set_irq kCauseExternal (any_candidate c') c', best)"
    and c': "c' = (if best = 0 then c else c\<lparr>claimed := (claimed c)[unat best := True]\<rparr>)"
    and ans: "if any_candidate c then served c (unat best) else best = 0"
  from ans have "any_candidate c \<Longrightarrow> best \<noteq> 0" using served_bounds [of c "unat best"] by auto
  with r c' ans show ?thesis by (auto simp: coherent_def)
qed

theorem plic_claim_serves_best_witness:
  "\<exists>c'. read32 plic_b_transport kClaim plic_demo = Inr (c', 1) \<and> claimed c' = [False, True]"
proof -
  from plic_claim_serves_best [OF plic_demo_wf] obtain c' v where
    r: "read32 plic_b_transport kClaim plic_demo = Inr (c', v)" and s: "served plic_demo (unat v)"
    and cl: "claimed c' = (claimed plic_demo)[unat v := True]"
    by (auto simp: plic_demo_candidate)
  from plic_demo_served [OF s] r cl show ?thesis by (simp add: plic_demo_def plic_new_def)
qed

text \<open>
  C18: MEIP is right whenever no line change is waiting to be seen. In every state reached from a
  new controller with at most 31 sources by any interleaving of bus accesses, changes of the
  lines and activations of \<open>on_sources\<close>, if no activation is outstanding then the external
  interrupt at the CPU is asserted iff some source is a candidate.
\<close>

theorem plic_meip_correct:
  assumes "plic_reachable n s" and "unat n \<le> 31" and "\<not> lines_changed s"
  shows "meip (sim_plic s) \<longleftrightarrow> (\<exists>sid. candidate (sim_plic s) sid)"
proof -
  have "meip (sim_plic s) = any_candidate (sim_plic s)"
    using plic_reachable_invar [OF assms(1,2)] assms(3) by (simp add: coherent_def)
  then show ?thesis
    by (auto simp: any_candidate_def source_ids_def candidate_def less_Suc_eq_le simp del: upt_Suc)
qed

theorem plic_meip_correct_witness: "\<not> meip (plic_new 31)"
  using plic_meip_correct [OF plic_reachable.start [of 31]]
  by (simp add: candidate_def plic_new_def)

text \<open>
  C24: the gateway is exclusive. Once a claim read has answered a source, no scenario of bus
  accesses and line changes makes a claim read answer it again, or lets it raise MEIP, as long
  as nothing writes its id to the complete register; and every such scenario runs to its end.
\<close>

theorem plic_gateway_exclusive:
  assumes "plic_wf c" and "read32 plic_b_transport kClaim c = Inr (c1, v)" and "v \<noteq> 0"
    and "\<forall>e \<in> set evs. event_ok c e \<and> \<not> completes (unat v) e"
  shows "\<exists>c2 ids. plic_run evs c1 = Inr (c2, ids) \<and> v \<notin> set ids \<and> \<not> candidate c2 (unat v)"
proof (rule plic_claim_read [OF assms(1)])
  fix best c' assume "read32 plic_b_transport kClaim c
      = Inr (plic_set_irq kCauseExternal (any_candidate c') c', best)"
    and c': "c' = (if best = 0 then c else c\<lparr>claimed := (claimed c)[unat best := True]\<rparr>)"
    and ans: "if any_candidate c then served c (unat best) else best = 0" and wf: "plic_wf c'"
  with assms(2) have c1: "c1 = plic_set_irq kCauseExternal (any_candidate c') c'" "best = v" by auto
  have v: "1 \<le> unat v" "unat v \<le> unat (num_sources c)"
    using ans assms(3) c1(2) served_bounds [of c "unat v"] by (auto split: if_splits)
  have "plic_wf c1" "num_sources c1 = num_sources c" "irq_in c1 = irq_in c" "claimed c1 ! unat v"
    using wf c1 c' assms(1,3) v by (auto simp: plic_wf_def)
  moreover from assms(4) \<open>irq_in c1 = irq_in c\<close> have "event_ok c1 e \<and> \<not> completes (unat v) e"
    if "e \<in> set evs" for e using that by (cases e) auto
  ultimately obtain c2 ids where "plic_run evs c1 = Inr (c2, ids)" "claimed c2 ! unat v"
    "unat v \<notin> unat ` set ids"
    using plic_run_gateway [of c1 evs "unat v"] v by auto
  then show ?thesis by (auto simp: candidate_def)
qed

theorem plic_gateway_exclusive_witness:
  "\<exists>c1 c2 ids. read32 plic_b_transport kClaim plic_demo = Inr (c1, 1) \<and>
     plic_run [Lines [False], Lines [True], Bus (fill TLM_READ_COMMAND kClaim (Some [0, 0, 0, 0]) 4)] c1
       = Inr (c2, ids) \<and> 1 \<notin> set ids"
proof -
  obtain c1 v where "read32 plic_b_transport kClaim plic_demo = Inr (c1, v)"
    "served plic_demo (unat v)"
    by (rule plic_claim_read [OF plic_demo_wf]) (simp add: plic_demo_candidate)
  then have r: "read32 plic_b_transport kClaim plic_demo = Inr (c1, 1)"
    using plic_demo_served by blast
  have "event_ok plic_demo e \<and> \<not> completes (unat (1 :: u32)) e"
    if "e \<in> set [Lines [False], Lines [True], Bus (fill TLM_READ_COMMAND kClaim (Some [0, 0, 0, 0]) 4)]"
    for e using that by (auto simp: plic_demo_def plic_new_def wf_payload_def)
  then have "\<forall>e \<in> set [Lines [False], Lines [True],
      Bus (fill TLM_READ_COMMAND kClaim (Some [0, 0, 0, 0]) 4)].
    event_ok plic_demo e \<and> \<not> completes (unat (1 :: u32)) e" by blast
  from plic_gateway_exclusive [OF plic_demo_wf r _ this] r show ?thesis by auto
qed

text \<open>
  Completion opens the gateway again. Writing the id of a source to the complete register
  clears exactly that source's gateway; a source whose line is still high, enabled and above the
  threshold is then a candidate again and raises MEIP.
\<close>

lemma plic_complete_reopens:
  assumes "plic_wf c" and "1 \<le> unat v" and "v \<le> num_sources c"
  shows "\<exists>c'. write32 plic_b_transport kClaim v c = Inr c' \<and>
    claimed c' = (claimed c)[unat v := False] \<and> meip c' = any_candidate c' \<and>
    (irq_in c ! (unat v - 1) \<and> bit (enable c) (unat v) \<and> priority c ! unat v > threshold c \<longrightarrow>
       candidate c' (unat v) \<and> meip c')"
proof -
  define c1 where "c1 = c\<lparr>claimed := (claimed c)[unat v := False]\<rparr>"
  have le: "unat v \<le> unat (num_sources c)" using assms(3) by (simp add: word_le_nat_alt)
  have wf: "plic_wf c1" using assms(1) by (simp add: c1_def plic_wf_def)
  have "1 \<le> v" using assms(2) by (simp add: word_le_nat_alt)
  then have "write32 plic_b_transport kClaim v c = Inr (plic_set_irq kCauseExternal (any_candidate c1) c1)"
    using assms le wf
    by (intro plic_write32 [where v' = v])
      (simp add: plic_access_registers plic_wf_def update_meip_eq c1_def)
  moreover have "candidate c1 (unat v)"
    if "irq_in c ! (unat v - 1)" "bit (enable c) (unat v)" "priority c ! unat v > threshold c"
    using that assms(1,2) le by (simp add: candidate_def c1_def plic_wf_def)
  moreover have "any_candidate c1" if "candidate c1 (unat v)"
    using that by (auto simp: any_candidate_def source_ids_def candidate_def simp del: upt_Suc)
  ultimately show ?thesis by (auto simp: c1_def)
qed

text \<open>
  The programming registers. On a controller with at most 31 sources a word written to the
  enable register, the threshold register or the priority register of a source is accepted, is
  read back, and MEIP follows it at once; the pending register reads the lines, source \<open>i\<close> at
  bit \<open>i\<close>.
\<close>

lemma plic_registers_roundtrip:
  assumes "plic_wf c" and "1 \<le> sid" and "sid \<le> unat (num_sources c)"
  shows "\<exists>c1 c2 c3 pend.
    write32 plic_b_transport kEnable v c = Inr c1 \<and> coherent c1 \<and>
    read32 plic_b_transport kEnable c1 = Inr (c1, v) \<and>
    write32 plic_b_transport kThreshold v c = Inr c2 \<and> coherent c2 \<and>
    read32 plic_b_transport kThreshold c2 = Inr (c2, v) \<and>
    write32 plic_b_transport (of_nat (4 * sid)) v c = Inr c3 \<and> coherent c3 \<and>
    read32 plic_b_transport (of_nat (4 * sid)) c3 = Inr (c3, v) \<and>
    read32 plic_b_transport kPending c = Inr (c, pend) \<and>
    (\<forall>b. bit pend b \<longleftrightarrow> 1 \<le> b \<and> b \<le> unat (num_sources c) \<and> irq_in c ! (b - 1))"
proof -
  let ?c1 = "c\<lparr>enable := v\<rparr>" and ?c2 = "c\<lparr>threshold := v\<rparr>" and ?c3 = "c\<lparr>priority := (priority c)[sid := v]\<rparr>"
  let ?u = "\<lambda>c. plic_set_irq kCauseExternal (any_candidate c) c"
  have n31: "unat (num_sources c) \<le> 31" and lens: "length (priority c) = Suc (unat (num_sources c))"
    "length (irq_in c) = unat (num_sources c)"
    using assms by (simp_all add: plic_wf_def)
  have wfs: "plic_wf ?c1" "plic_wf ?c2" "plic_wf ?c3" using assms(1) by (simp_all add: plic_wf_def)
  then have wfu: "plic_wf (?u ?c1)" "plic_wf (?u ?c2)" by simp_all
  have "write32 plic_b_transport kEnable v c = Inr (?u ?c1)"
    "write32 plic_b_transport kThreshold v c = Inr (?u ?c2)"
    using wfs by (auto intro!: plic_write32 simp: plic_access_registers [OF assms(1)] update_meip_eq)
  moreover have "read32 plic_b_transport kEnable (?u ?c1) = Inr (?u ?c1, v)"
    "read32 plic_b_transport kThreshold (?u ?c2) = Inr (?u ?c2, v)"
    by (auto intro!: plic_read32 simp: plic_access_registers [OF wfu(1)] plic_access_registers [OF wfu(2)])
  moreover have "write32 plic_b_transport (of_nat (4 * sid)) v c = Inr (?u ?c3)"
    "read32 plic_b_transport (of_nat (4 * sid)) (?u ?c3) = Inr (?u ?c3, v)"
    using plic_priority_access [OF assms, of v] plic_priority_access [of "?u ?c3" sid 0] wfs(3) assms lens
    by (auto intro!: plic_write32 plic_read32 simp: update_meip_eq [OF wfs(3)])
  moreover obtain pend where "pending_loop (source_ids c) c 0 = Inr pend"
    "\<And>b. bit pend b \<longleftrightarrow> b \<in> set (source_ids c) \<and> irq_in c ! (b - 1)"
    using pending_loop_bits [of "source_ids c" c 0] n31 lens
    by (auto simp: source_ids_def simp del: upt_Suc)
  moreover from this have "read32 plic_b_transport kPending c = Inr (c, pend)"
    by (auto intro!: plic_read32 simp: plic_access_registers [OF assms(1)])
  ultimately show ?thesis
    by (intro exI [of _ "?u ?c1"] exI [of _ "?u ?c2"] exI [of _ "?u ?c3"] exI [of _ pend])
      (auto simp: source_ids_def less_Suc_eq_le simp del: upt_Suc)
qed

end
