(* ===== verification/Elf_Format.thy ===== *)
theory Elf_Format
  imports Prelude
begin

text \<open>
  What an ELF file asks a loader to do, read off the layout of its structures in the ELF standard and
  independent of the loader in \<open>cpu_models/include/cdc/cpu/elf_loader.h\<close>, which \<open>Elf_Loader\<close> compares
  with it.
\<close>

section \<open>The structures\<close>

text \<open>
  The structures of the ELF standard as the lists of their fields with their sizes; where a field
  lies follows from the sizes before it. All numbers are unbounded here and no sum wraps. A field
  that leaves the file has no value.
\<close>

fun le_nat :: "u8 list \<Rightarrow> nat" where
  "le_nat [] = 0"
| "le_nat (x # xs) = unat x + 256 * le_nat xs"

datatype elf_field = E_ident | E_type | E_machine | E_version | E_entry | E_phoff | E_shoff | E_flags | E_ehsize
  | E_phentsize | E_phnum | E_shentsize | E_shnum | E_shstrndx
  | P_type | P_flags | P_offset | P_vaddr | P_paddr | P_filesz | P_memsz | P_align

definition file_header_layout :: "bool \<Rightarrow> (elf_field \<times> nat) list" where
  "file_header_layout is64 = (let addr = (if is64 then 8 else 4) in
     [(E_ident, 16), (E_type, 2), (E_machine, 2), (E_version, 4), (E_entry, addr), (E_phoff, addr), (E_shoff, addr),
      (E_flags, 4), (E_ehsize, 2), (E_phentsize, 2), (E_phnum, 2), (E_shentsize, 2), (E_shnum, 2), (E_shstrndx, 2)])"

definition program_header_layout :: "bool \<Rightarrow> (elf_field \<times> nat) list" where
  "program_header_layout is64 =
     (if is64 then [(P_type, 4), (P_flags, 4), (P_offset, 8), (P_vaddr, 8), (P_paddr, 8), (P_filesz, 8), (P_memsz, 8), (P_align, 8)]
      else [(P_type, 4), (P_offset, 4), (P_vaddr, 4), (P_paddr, 4), (P_filesz, 4), (P_memsz, 4), (P_flags, 4), (P_align, 4)])"

fun field_at :: "(elf_field \<times> nat) list \<Rightarrow> elf_field \<Rightarrow> nat \<Rightarrow> u8 list \<Rightarrow> nat option" where
  "field_at [] f base b = None"
| "field_at ((g, n) # layout) f base b =
     (if g = f then if base + n \<le> length b then Some (le_nat (take n (drop base b))) else None
      else field_at layout f (base + n) b)"

section \<open>The image\<close>

text \<open>
  The bytes the program header at \<open>base\<close> asks to place, with their address, which the header gives
  twice: \<open>addr\<close> says which one is meant. Only loadable segments that are not empty ask for any, and
  they have to lie in the file.
\<close>

definition header_segment :: "bool \<Rightarrow> elf_field \<Rightarrow> u8 list \<Rightarrow> nat \<Rightarrow> (u64 \<times> u8 list) list option" where
  "header_segment is64 addr b base =
     (let field = (\<lambda>f. field_at (program_header_layout is64) f base b) in
      case field P_type of None \<Rightarrow> None
      | Some t \<Rightarrow> if t \<noteq> 1 then Some []
          else (case (field P_offset, field addr, field P_filesz) of
                  (Some off, Some a, Some n) \<Rightarrow> if n = 0 then Some []
                     else if off + n \<le> length b then Some [(of_nat a, take n (drop off b))] else None
                | _ \<Rightarrow> None))"

text \<open>
  The image of a file: the entry point and the segments in the order of the headers. A file is at
  least 64 bytes long, starts with the magic number, is little-endian, and its last program header
  starts less than 2 GiB into the table. The class of the file is in the fifth byte; anything but 2 counts as 32 bits.
\<close>

definition elf_image_by :: "elf_field \<Rightarrow> u8 list \<Rightarrow> (u64 \<times> (u64 \<times> u8 list) list) option" where
  "elf_image_by addr b =
     (let is64 = (b ! 4 = 2); field = (\<lambda>f. field_at (file_header_layout is64) f 0 b) in
      if length b < 64 \<or> take 4 b \<noteq> [0x7F, 0x45, 0x4C, 0x46] \<or> b ! 5 \<noteq> 1 then None
      else (case (field E_entry, field E_phoff, field E_phentsize, field E_phnum) of
              (Some entry, Some phoff, Some phentsize, Some phnum) \<Rightarrow>
                if (phnum - 1) * phentsize \<ge> 2 ^ 31 then None
                else map_option (\<lambda>segs. (of_nat entry, concat segs))
                  (those (map (\<lambda>i. header_segment is64 addr b (phoff + i * phentsize)) [0..<phnum]))
            | _ \<Rightarrow> None))"

text \<open>
  The loader places the segments of a 32-bit file at their physical addresses. Of a 64-bit file it
  takes the virtual ones: the field it reads as \<open>p_paddr\<close> is \<open>p_vaddr\<close>.
\<close>

definition elf_image :: "u8 list \<Rightarrow> (u64 \<times> (u64 \<times> u8 list) list) option" where
  "elf_image b = elf_image_by (if b ! 4 = 2 then P_vaddr else P_paddr) b"

section \<open>Lemmas\<close>

lemma le_nat_less: "le_nat bs < 256 ^ length bs"
proof (induction bs)
  case (Cons x xs)
  have "unat x < 256" using unsigned_less [of x, where ?'a = nat] by simp
  with Cons show ?case by simp
qed simp

lemma le_nat_take: "le_nat (take n bs) < 256 ^ n"
proof -
  have "le_nat (take n bs) < 256 ^ length (take n bs)" by (rule le_nat_less)
  also have "\<dots> \<le> 256 ^ n" by (intro power_increasing) simp_all
  finally show ?thesis .
qed

lemma le_word_le_nat: "(le_word bs :: 'a::len word) = of_nat (le_nat bs)"
proof (induction bs)
  case (Cons x xs)
  have "(ucast x OR push_bit 8 (le_word xs) :: 'a word) = ucast x + push_bit 8 (le_word xs)"
    by (rule disjunctive_add [symmetric]) (auto simp: bit_simps dest: bit_imp_le_length)
  with Cons show ?case by (simp add: push_bit_eq_mult)
qed simp

lemma field_at_bound: "field_at layout f base b = Some n \<Longrightarrow> (f, k) \<in> set layout \<Longrightarrow> distinct (map fst layout) \<Longrightarrow> n < 256 ^ k"
  by (induction layout f base b rule: field_at.induct) (auto simp: le_nat_take image_iff split: if_splits)

end
