(* ===== verification/Elf_Loader.thy ===== *)
theory Elf_Loader
  imports Memory_Map Elf_Format
begin

text \<open>
  \<open>cpu_models/include/cdc/cpu/elf_loader.h\<close>: the loader of firmware images. The file's content is
  a parameter (reading it is the C++ library's business); the readers of little-endian fields, the
  backdoor write, the loop over the program headers and \<open>load_elf\<close> are translated, with the
  64-bit and promoted \<open>int\<close> arithmetic. The loader works on any socket: the locale \<open>debug_target\<close>
  states what it relies on, and is interpreted on a memory and on memories behind the router.
\<close>

section \<open>The loader\<close>

text \<open>\<open>std::vector::at\<close>.\<close>

definition at_byte :: "u8 list \<Rightarrow> u64 \<Rightarrow> u8 res" where
  "at_byte b off = (if unat off < length b then Inr (b ! unat off) else Inl (Out_of_range ''vector::at''))"

definition rd16 :: "u8 list \<Rightarrow> u64 \<Rightarrow> u16 res" where
  "rd16 b off =
     bindR (at_byte b off) (\<lambda>x0. bindR (at_byte b (off + 1)) (\<lambda>x1.
       Inr (ucast x0 OR push_bit 8 (ucast x1))))"

definition rd32 :: "u8 list \<Rightarrow> u64 \<Rightarrow> u32 res" where
  "rd32 b off =
     bindR (at_byte b off) (\<lambda>x0. bindR (at_byte b (off + 1)) (\<lambda>x1.
     bindR (at_byte b (off + 2)) (\<lambda>x2. bindR (at_byte b (off + 3)) (\<lambda>x3.
       Inr (ucast x0 OR push_bit 8 (ucast x1) OR push_bit 16 (ucast x2) OR push_bit 24 (ucast x3))))))"

definition rd64 :: "u8 list \<Rightarrow> u64 \<Rightarrow> u64 res" where
  "rd64 b off =
     bindR (rd32 b off) (\<lambda>lo. bindR (rd32 b (off + 4)) (\<lambda>hi.
       Inr (ucast lo OR push_bit 32 (ucast hi))))"

text \<open>
  The backdoor write. The pointer into the file's buffer is the bytes from there on, as far as
  the length says and the buffer reaches.
\<close>

definition dbg_write :: "'s debug_transport \<Rightarrow> u64 \<Rightarrow> u8 list \<Rightarrow> u32 \<Rightarrow> 's \<Rightarrow> 's res" where
  "dbg_write dbg addr dat len s =
     bindR (dbg s (fill TLM_WRITE_COMMAND addr (Some dat) len)) (\<lambda>(s', p', n).
       if n \<noteq> len
       then Inl (Runtime_error ''elf_loader: backdoor write incomplete (address not mapped?)'')
       else Inr s')"

definition load_segment :: "'s debug_transport \<Rightarrow> u8 list \<Rightarrow> u64 \<Rightarrow> u64 \<Rightarrow> u64 \<Rightarrow> 's \<Rightarrow> 's res" where
  "load_segment dbg b p_offset p_paddr p_filesz s =
     (if p_filesz = 0 then Inr s
      else if unat (p_offset + p_filesz) > length b
      then Inl (Runtime_error ''elf_loader: segment exceeds file size'')
      else let len = ucast p_filesz :: u32
           in dbg_write dbg p_paddr (take (unat len) (drop (unat p_offset) b)) len s)"

text \<open>The fields of a program header: type, and for a segment to load its three others.\<close>

definition segment_fields :: "bool \<Rightarrow> u8 list \<Rightarrow> u64 \<Rightarrow> (u64 \<times> u64 \<times> u64) option res" where
  "segment_fields is64 b ph =
     bindR (rd32 b ph) (\<lambda>p_type.
       if p_type \<noteq> 1 then Inr None
       else if is64
       then bindR (rd64 b (ph + 8)) (\<lambda>p_offset. bindR (rd64 b (ph + 16)) (\<lambda>p_paddr.
            bindR (rd64 b (ph + 32)) (\<lambda>p_filesz. Inr (Some (p_offset, p_paddr, p_filesz)))))
       else bindR (rd32 b (ph + 4)) (\<lambda>p_offset. bindR (rd32 b (ph + 12)) (\<lambda>p_paddr.
            bindR (rd32 b (ph + 16)) (\<lambda>p_filesz.
              Inr (Some (ucast p_offset, ucast p_paddr, ucast p_filesz))))))"

text \<open>The product \<open>i * phentsize\<close> is computed in \<open>int\<close>, to which both factors are promoted.\<close>

definition header_at :: "u64 \<Rightarrow> u16 \<Rightarrow> nat \<Rightarrow> u64 res" where
  "header_at phoff phentsize i =
     (if i * unat phentsize \<ge> 2 ^ 31 then Inl Signed_overflow
      else Inr (phoff + of_nat (i * unat phentsize)))"

fun load_segments ::
  "'s debug_transport \<Rightarrow> bool \<Rightarrow> u8 list \<Rightarrow> u64 \<Rightarrow> u16 \<Rightarrow> nat list \<Rightarrow> 's \<Rightarrow> 's res" where
  "load_segments dbg is64 b phoff phentsize [] s = Inr s"
| "load_segments dbg is64 b phoff phentsize (i # is) s =
     bindR (header_at phoff phentsize i) (\<lambda>ph.
     bindR (segment_fields is64 b ph) (\<lambda>seg.
     bindR (case seg of None \<Rightarrow> Inr s
            | Some (p_offset, p_paddr, p_filesz) \<Rightarrow> load_segment dbg b p_offset p_paddr p_filesz s)
       (load_segments dbg is64 b phoff phentsize is)))"

text \<open>The header's fields: class, entry point, and the place, size and number of the headers.\<close>

definition elf_header :: "string \<Rightarrow> u8 list \<Rightarrow> (bool \<times> u64 \<times> u64 \<times> u16 \<times> u16) res" where
  "elf_header path b =
     (if length b < 64 \<or> take 4 b \<noteq> [0x7F, 0x45, 0x4C, 0x46]
      then Inl (Runtime_error (''elf_loader: not an ELF file: '' @ path))
      else let is64 = (b ! 4 = 2)
      in if b ! 5 \<noteq> 1 then Inl (Runtime_error ''elf_loader: only little-endian ELF supported'')
         else if is64
         then bindR (rd64 b 24) (\<lambda>entry. bindR (rd64 b 32) (\<lambda>phoff.
              bindR (rd16 b 54) (\<lambda>phentsize. bindR (rd16 b 56) (\<lambda>phnum.
                Inr (is64, entry, phoff, phentsize, phnum)))))
         else bindR (rd32 b 24) (\<lambda>entry. bindR (rd32 b 28) (\<lambda>phoff.
              bindR (rd16 b 42) (\<lambda>phentsize. bindR (rd16 b 44) (\<lambda>phnum.
                Inr (is64, ucast entry, ucast phoff, phentsize, phnum))))))"

definition load_elf :: "'s debug_transport \<Rightarrow> string \<Rightarrow> u8 list option \<Rightarrow> 's \<Rightarrow> ('s \<times> u64) res" where
  "load_elf dbg path file s =
     (case file of
        None \<Rightarrow> Inl (Runtime_error (''elf_loader: cannot open '' @ path))
      | Some b \<Rightarrow>
          bindR (elf_header path b) (\<lambda>(is64, entry, phoff, phentsize, phnum).
          bindR (load_segments dbg is64 b phoff phentsize [0..<unat phnum] s) (\<lambda>s'.
            Inr (s', entry))))"

definition place :: "(u64 \<times> u8 list) list \<Rightarrow> (u64 \<Rightarrow> u8 option) \<Rightarrow> u64 \<Rightarrow> u8 option" where
  "place segs f = fold (\<lambda>(a, bs) f. view_write f a bs) segs f"

section \<open>What the loader reads\<close>

text \<open>The same through the readers of the loader, as far as none of them throws.\<close>

definition segment_image :: "u8 list \<Rightarrow> u64 \<times> u64 \<times> u64 \<Rightarrow> (u64 \<times> u8 list) list option" where
  "segment_image b = (\<lambda>(p_offset, p_paddr, p_filesz).
     if p_filesz = 0 then Some []
     else if unat p_offset + unat p_filesz \<le> length b
     then Some [(p_paddr, take (unat p_filesz) (drop (unat p_offset) b))] else None)"

fun image_segments :: "bool \<Rightarrow> u8 list \<Rightarrow> u64 \<Rightarrow> u16 \<Rightarrow> nat list \<Rightarrow> (u64 \<times> u8 list) list option" where
  "image_segments is64 b phoff phentsize [] = Some []"
| "image_segments is64 b phoff phentsize (i # is) =
     (case bindR (header_at phoff phentsize i) (segment_fields is64 b) of
        Inl e \<Rightarrow> None
      | Inr seg \<Rightarrow>
          (case (case seg of None \<Rightarrow> Some [] | Some f \<Rightarrow> segment_image b f) of
             None \<Rightarrow> None
           | Some here \<Rightarrow> map_option (append here) (image_segments is64 b phoff phentsize is)))"

definition parsed_image :: "u8 list \<Rightarrow> (u64 \<times> (u64 \<times> u8 list) list) option" where
  "parsed_image b = (case elf_header [] b of
     Inl e \<Rightarrow> None
   | Inr (is64, entry, phoff, phentsize, phnum) \<Rightarrow>
       map_option (Pair entry) (image_segments is64 b phoff phentsize [0..<unat phnum]))"

section \<open>Lemmas on images\<close>

text \<open>In a file below 4 GiB, a segment inside it passes the loader's check and keeps its length.\<close>

lemma segment_inside:
  assumes "segment_image b (p_offset, p_paddr, p_filesz) = Some [(a, bs)]" and "length b < 2 ^ 32"
  shows "a = p_paddr" and "bs \<noteq> []" and "length bs < 2 ^ 32" and "p_filesz \<noteq> 0"
    and "unat (p_offset + p_filesz) \<le> length b" and "of_nat (length bs) = (ucast p_filesz :: u32)"
    and "bs = take (unat (ucast p_filesz :: u32)) (drop (unat p_offset) b)"
proof -
  have fs: "p_filesz \<noteq> 0" and fit: "unat p_offset + unat p_filesz \<le> length b" and a: "a = p_paddr"
    and bs: "bs = take (unat p_filesz) (drop (unat p_offset) b)"
    using assms(1) by (auto simp: segment_image_def split: if_splits)
  have len: "length bs = unat p_filesz" using bs fit by simp
  have u: "unat (ucast p_filesz :: u32) = unat p_filesz"
    using fit assms(2) by (simp add: unsigned_ucast_eq take_bit_nat_eq_self)
  show "a = p_paddr" "p_filesz \<noteq> 0" by fact+
  show "bs \<noteq> []" using len fs by (auto simp: unat_eq_zero)
  show "length bs < 2 ^ 32" using len fit assms(2) by simp
  show "unat (p_offset + p_filesz) \<le> length b" using fit assms(2) by (simp add: unat_word_ariths)
  show "of_nat (length bs) = (ucast p_filesz :: u32)" using len u by (simp add: word_unat_eq_iff)
  show "bs = take (unat (ucast p_filesz :: u32)) (drop (unat p_offset) b)" using bs u by simp
qed

lemma segment_image_cases:
  assumes "segment_image b (p_offset, p_paddr, p_filesz) = Some here"
  obtains "here = []" "p_filesz = 0" | bs where "here = [(p_paddr, bs)]"
  using assms by (auto simp: segment_image_def split: if_splits)

lemma image_segments_Cons:
  assumes "image_segments is64 b phoff phentsize (i # is) = Some segs"
  obtains ph seg here rest where "header_at phoff phentsize i = Inr ph"
    "segment_fields is64 b ph = Inr seg" "segs = here @ rest"
    "(case seg of None \<Rightarrow> Some [] | Some f \<Rightarrow> segment_image b f) = Some here"
    "image_segments is64 b phoff phentsize is = Some rest"
  using assms by (auto simp: bindR_eq_Inr split: sum.splits option.splits)

lemma place_append: "place (xs @ ys) f = place ys (place xs f)"
  by (simp add: place_def)

section \<open>Little-endian fields\<close>

lemma at_byte_off:
  assumes "unat (off :: u64) + n < length b" and "length b < 2 ^ 64"
  shows "at_byte b (off + of_nat n) = Inr (b ! (unat off + n))"
proof -
  have "unat (off + of_nat n) = unat off + n" using assms by (simp add: unat_word_ariths unat_of_nat)
  with assms(1) show ?thesis by (simp add: at_byte_def)
qed

lemma slice4: "i + 4 \<le> length b \<Longrightarrow> take 4 (drop i b) = [b ! i, b ! (i + 1), b ! (i + 2), b ! (i + 3)]"
  by (rule nth_equalityI) (auto simp: nth_Cons less_Suc_eq numeral_eq_Suc split: nat.split)

lemma slice2: "i + 2 \<le> length b \<Longrightarrow> take 2 (drop i b) = [b ! i, b ! (i + 1)]"
  by (rule nth_equalityI) (auto simp: nth_Cons less_Suc_eq numeral_eq_Suc split: nat.split)

lemma rd16_slice:
  assumes "unat off + 2 \<le> length b" "length b < 2 ^ 64"
  shows "rd16 b off = Inr (le_word (take 2 (drop (unat off) b)))"
proof -
  have "at_byte b off = Inr (b ! unat off)" "at_byte b (off + 1) = Inr (b ! (unat off + 1))"
    using at_byte_off [of off 0 b] at_byte_off [of off 1 b] assms by simp_all
  then show ?thesis by (simp add: rd16_def slice2 [OF assms(1)])
qed

lemma rd32_slice:
  assumes "unat off + 4 \<le> length b" "length b < 2 ^ 64"
  shows "rd32 b off = Inr (le_word (take 4 (drop (unat off) b)))"
proof -
  have at: "at_byte b off = Inr (b ! unat off)" "at_byte b (off + 1) = Inr (b ! (unat off + 1))"
    "at_byte b (off + 2) = Inr (b ! (unat off + 2))" "at_byte b (off + 3) = Inr (b ! (unat off + 3))"
    using at_byte_off [of off 0 b] at_byte_off [of off 1 b] at_byte_off [of off 2 b]
      at_byte_off [of off 3 b] assms by simp_all
  show ?thesis
    unfolding rd32_def at bindR_Inr slice4 [OF assms(1)]
    by (rule arg_cong [where f = Inr], rule bit_word_eqI) (auto simp: bit_simps)
qed

lemma rd64_slice:
  assumes "unat off + 8 \<le> length b" "length b < 2 ^ 64"
  shows "rd64 b off = Inr (le_word (take 8 (drop (unat off) b)))"
proof -
  have o4: "unat (off + 4) = unat off + 4" using assms by (simp add: unat_word_ariths)
  let ?lo = "take 4 (drop (unat off) b)" and ?hi = "take 4 (drop (unat off + 4) b)"
  have "rd64 b off = Inr (ucast (le_word ?lo :: u32) OR push_bit 32 (ucast (le_word ?hi :: u32)))"
    using assms o4 by (simp add: rd64_def rd32_slice)
  moreover have "take 8 (drop (unat off) b) = ?lo @ ?hi"
    using take_add [of 4 4 "drop (unat off) b"] by (simp add: drop_drop add.commute)
  moreover have "ucast (le_word xs :: u32) = (le_word xs :: u64)" if "length xs = 4" for xs
  proof -
    have "le_word xs = (le_word (le_bytes 4 (le_word xs :: u32)) :: u64)"
      using that by (simp add: le_bytes_of_word)
    also have "\<dots> = ucast (le_word xs :: u32)" by (simp add: le_word_le_bytes_ucast take_bit_word_eq_self)
    finally show ?thesis by simp
  qed
  ultimately show ?thesis using assms by (simp add: le_word_append)
qed

lemma at_byte_fail: "at_byte b off = Inl e \<Longrightarrow> e = Out_of_range ''vector::at''"
  by (simp add: at_byte_def split: if_splits)

text \<open>Fields that leave the file throw.\<close>

lemma at_byte_past: "length b \<le> unat off \<Longrightarrow> at_byte b off = Inl (Out_of_range ''vector::at'')"
  by (simp add: at_byte_def)

lemma at_byte_some:
  assumes "length b < 2 ^ 63" "unat off < length b" "n < 4"
  shows "at_byte b (off + of_nat n) = (if unat off + n < length b then Inr (b ! (unat off + n))
    else Inl (Out_of_range ''vector::at''))"
proof -
  have "unat (off + of_nat n) = unat off + n" using assms by (simp add: unat_word_ariths unat_of_nat)
  then show ?thesis by (simp add: at_byte_def)
qed

lemma rd32_past:
  assumes "length b < 2 ^ 63" "length b < unat off + 4"
  shows "rd32 b off = Inl (Out_of_range ''vector::at'')"
proof (cases "unat off < length b")
  case True
  with assms at_byte_some [OF assms(1) True, of 1] at_byte_some [OF assms(1) True, of 2]
    at_byte_some [OF assms(1) True, of 3] at_byte_some [OF assms(1) True, of 0]
  show ?thesis by (auto simp: rd32_def)
next
  case False
  then show ?thesis by (simp add: rd32_def at_byte_past)
qed

section \<open>The loader reads what the file means\<close>

lemma fields_read:
  assumes "q + n \<le> length b" and "length b < 2 ^ 32"
  shows "n = 2 \<Longrightarrow> rd16 b (of_nat q) = Inr (of_nat (le_nat (take n (drop q b))))"
    and "n = 4 \<Longrightarrow> rd32 b (of_nat q) = Inr (of_nat (le_nat (take n (drop q b))))"
    and "n = 8 \<Longrightarrow> rd64 b (of_nat q) = Inr (of_nat (le_nat (take n (drop q b))))"
proof -
  have "unat (of_nat q :: u64) = q" using assms by (simp add: unat_of_nat)
  then show "n = 2 \<Longrightarrow> rd16 b (of_nat q) = Inr (of_nat (le_nat (take n (drop q b))))"
    "n = 4 \<Longrightarrow> rd32 b (of_nat q) = Inr (of_nat (le_nat (take n (drop q b))))"
    "n = 8 \<Longrightarrow> rd64 b (of_nat q) = Inr (of_nat (le_nat (take n (drop q b))))"
    using assms rd16_slice [of "of_nat q" b] rd32_slice [of "of_nat q" b] rd64_slice [of "of_nat q" b]
    by (simp_all add: le_word_le_nat)
qed

lemma ucast_small: "n < 2 ^ 32 \<Longrightarrow> (ucast (of_nat n :: u32) :: u64) = of_nat n"
  by (simp add: word_unat_eq_iff unsigned_ucast_eq unat_of_nat take_bit_nat_eq_self)

lemmas take_small = le_nat_take [of 4, simplified] le_nat_take [of 8, simplified] le_nat_take [of 2, simplified]

lemma segment_image_of_nat:
  assumes "off < 2 ^ 64" and "n < 2 ^ 64"
  shows "segment_image b (of_nat off, a, of_nat n) =
    (if n = 0 then Some [] else if off + n \<le> length b then Some [(a, take n (drop off b))] else None)"
proof -
  have "unat (of_nat off :: u64) = off" "unat (of_nat n :: u64) = n" using assms by (simp_all add: unat_of_nat)
  moreover have "(of_nat n :: u64) = 0 \<longleftrightarrow> n = 0" using assms(2) by (simp add: word_unat_eq_iff unat_of_nat)
  ultimately show ?thesis by (simp add: segment_image_def)
qed

lemma header_segment_read:
  assumes "header_segment is64 (if is64 then P_vaddr else P_paddr) b base = Some here" and "length b < 2 ^ 32"
  shows "\<exists>seg. segment_fields is64 b (of_nat base) = Inr seg \<and>
    (case seg of None \<Rightarrow> Some [] | Some f \<Rightarrow> segment_image b f) = Some here"
proof -
  have t: "base + 4 \<le> length b" using assms(1) by (auto simp: header_segment_def program_header_layout_def split: if_splits)
  let ?t = "le_nat (take 4 (drop base b))"
  have t1: "(of_nat ?t :: u32) = 1 \<longleftrightarrow> ?t = 1"
    using take_small(1) [of "drop base b"] by (simp add: word_unat_eq_iff unat_of_nat)
  have type: "rd32 b (of_nat base) = Inr (of_nat ?t)" using fields_read(2) [OF t assms(2)] by simp
  show ?thesis
  proof (cases "?t = 1")
    case False
    with assms(1) t type t1 show ?thesis
      by (auto simp: header_segment_def program_header_layout_def segment_fields_def split: if_splits)
  next
    case load: True
    have off: "of_nat base + 8 = (of_nat (8 + base) :: u64)" "of_nat base + 16 = (of_nat (16 + base) :: u64)"
      "of_nat base + 32 = (of_nat (32 + base) :: u64)" "of_nat base + 4 = (of_nat (base + 4) :: u64)"
      "of_nat base + 12 = (of_nat (12 + base) :: u64)" by simp_all
    show ?thesis
    proof (cases is64)
      case True
      with assms(1) load have "base + 16 \<le> length b" "base + 24 \<le> length b" "base + 40 \<le> length b"
        by (auto simp: header_segment_def program_header_layout_def split: if_splits)
      with True load assms t1 type show ?thesis
        using fields_read(3) [of "8 + base" 8 b] fields_read(3) [of "16 + base" 8 b] fields_read(3) [of "32 + base" 8 b]
        by (auto simp: header_segment_def program_header_layout_def segment_fields_def off segment_image_of_nat take_small
            simp del: of_nat_add)
    next
      case False
      with assms(1) load have "base + 8 \<le> length b" "base + 16 \<le> length b" "base + 20 \<le> length b"
        by (auto simp: header_segment_def program_header_layout_def split: if_splits)
      with False load assms t1 type show ?thesis
        using fields_read(2) [of "base + 4" 4 b] fields_read(2) [of "12 + base" 4 b] fields_read(2) [of "16 + base" 4 b]
        by (auto simp: header_segment_def program_header_layout_def segment_fields_def off segment_image_of_nat take_small
            ucast_small less_trans [OF take_small(1)] simp del: of_nat_add)
    qed
  qed
qed

lemma segments_read:
  assumes "length b < 2 ^ 32" and "phnum \<le> 65536" and "(phnum - 1) * phentsize < 2 ^ 31" and "phentsize < 2 ^ 16"
    and "those (map (\<lambda>i. header_segment is64 (if is64 then P_vaddr else P_paddr) b (phoff + i * phentsize)) is) = Some segs"
    and "set is \<subseteq> {..<phnum}"
  shows "image_segments is64 b (of_nat phoff) (of_nat phentsize) is = Some (concat segs)"
  using assms(5,6)
proof (induction "is" arbitrary: segs)
  case (Cons i "is")
  obtain here rest where h: "header_segment is64 (if is64 then P_vaddr else P_paddr) b (phoff + i * phentsize) = Some here"
    "those (map (\<lambda>i. header_segment is64 (if is64 then P_vaddr else P_paddr) b (phoff + i * phentsize)) is) = Some rest"
    "segs = here # rest"
    using Cons.prems(1) by (auto split: option.splits)
  have "i * phentsize \<le> (phnum - 1) * phentsize" using Cons.prems(2) by (intro mult_le_mono1) auto
  moreover have "unat (of_nat phentsize :: u16) = phentsize" using assms(4) by (simp add: unat_of_nat)
  moreover from calculation assms(3) have "i * phentsize < 2 ^ 31" by linarith
  ultimately have "header_at (of_nat phoff) (of_nat phentsize) i = Inr (of_nat (phoff + i * phentsize))"
    by (simp add: header_at_def)
  with header_segment_read [OF h(1) assms(1)] Cons.IH [OF h(2)] Cons.prems(2) h(3) show ?case
    by auto
qed simp

lemma elf_image_read:
  assumes "elf_image b = Some (entry, segs)" and "length b < 2 ^ 32"
  shows "parsed_image b = Some (entry, segs)"
proof -
  let ?is64 = "b ! 4 = 2"
  define h where "h = (if ?is64 then 8 else 4 :: nat)"
  define n where "n q k = le_nat (take k (drop q b))" for q k :: nat
  have magic: "64 \<le> length b" "take 4 b = [0x7F, 0x45, 0x4C, 0x46]" "b ! 5 = 1"
    using assms(1) by (auto simp: elf_image_def elf_image_by_def Let_def split: if_splits)
  let ?phentsize = "n (if ?is64 then 54 else 42) 2" and ?phnum = "n (if ?is64 then 56 else 44) 2" and ?phoff = "n (24 + h) h"
  obtain xs where xs: "those (map (\<lambda>i. header_segment ?is64 (if ?is64 then P_vaddr else P_paddr) b (?phoff + i * ?phentsize))
      [0..<?phnum]) = Some xs" "entry = of_nat (n 24 h)" "segs = concat xs" "(?phnum - 1) * ?phentsize < 2 ^ 31"
    using assms(1) magic by (auto simp: elf_image_def elf_image_by_def file_header_layout_def Let_def n_def h_def split: if_splits)
  have small: "?phentsize < 2 ^ 16" "?phnum < 2 ^ 16" by (simp_all add: n_def take_small)
  have "image_segments ?is64 b (of_nat ?phoff) (of_nat ?phentsize) [0..<?phnum] = Some segs"
    unfolding xs(3) by (rule segments_read [OF assms(2) _ xs(4) small(1) xs(1)]) (use small(2) in auto)
  moreover have "elf_header [] b = Inr (?is64, of_nat (n 24 h), of_nat ?phoff, of_nat ?phentsize, of_nat ?phnum)"
    using magic assms(2) fields_read [of 24 4 b] fields_read [of 28 4 b] fields_read [of 24 8 b] fields_read [of 32 8 b]
      fields_read [of 42 2 b] fields_read [of 44 2 b] fields_read [of 54 2 b] fields_read [of 56 2 b]
    by (auto simp: elf_header_def Let_def n_def h_def ucast_small take_small)
  moreover have "unat (of_nat ?phnum :: u16) = ?phnum" using small(2) by (simp add: unat_of_nat)
  ultimately show ?thesis by (simp add: parsed_image_def xs(2))
qed

section \<open>The interface of the loader\<close>

text \<open>
  \<open>view\<close> is the store of bytes behind the socket and \<open>writable s a n\<close> says that the backdoor can
  write \<open>n\<close> bytes at \<open>a\<close>. A write inside reports its length and stores its bytes; one outside
  reports another number.
\<close>

locale debug_target =
  fixes dbg :: "'s debug_transport"
    and invar :: "'s \<Rightarrow> bool"
    and view :: "'s \<Rightarrow> u64 \<Rightarrow> u8 option"
    and writable :: "'s \<Rightarrow> u64 \<Rightarrow> nat \<Rightarrow> bool"
  assumes write_inside: "invar s \<Longrightarrow> writable s a (length bs) \<Longrightarrow> length bs < 2 ^ 32 \<Longrightarrow>
      \<exists>s' p'. dbg s (fill TLM_WRITE_COMMAND a (Some bs) (of_nat (length bs)))
          = Inr (s', p', of_nat (length bs)) \<and>
        invar s' \<and> view s' = view_write (view s) a bs \<and> writable s' = writable s"
    and write_outside: "invar s \<Longrightarrow> \<not> writable s a (length bs) \<Longrightarrow> bs \<noteq> [] \<Longrightarrow> length bs < 2 ^ 32 \<Longrightarrow>
      \<exists>s' p' n. dbg s (fill TLM_WRITE_COMMAND a (Some bs) (of_nat (length bs))) = Inr (s', p', n) \<and>
        n \<noteq> of_nat (length bs)"
begin

lemma dbg_write_inside:
  assumes "invar s" "writable s a (length bs)" "length bs < 2 ^ 32"
  obtains s' where "dbg_write dbg a bs (of_nat (length bs)) s = Inr s'" "invar s'"
    "view s' = view_write (view s) a bs" "writable s' = writable s"
  using write_inside [OF assms] that by (auto simp: dbg_write_def)

lemma dbg_write_outside:
  assumes "invar s" "\<not> writable s a (length bs)" "bs \<noteq> []" "length bs < 2 ^ 32"
  shows "dbg_write dbg a bs (of_nat (length bs)) s =
    Inl (Runtime_error ''elf_loader: backdoor write incomplete (address not mapped?)'')"
  using write_outside [OF assms] by (auto simp: dbg_write_def)

text \<open>One segment: placed when the backdoor reaches it, refused otherwise.\<close>

lemma load_segment_inside:
  assumes "invar s" "length b < 2 ^ 32" "segment_image b (p_offset, p_paddr, p_filesz) = Some here"
    "\<forall>(a, bs) \<in> set here. writable s a (length bs)"
  shows "\<exists>s'. load_segment dbg b p_offset p_paddr p_filesz s = Inr s' \<and> invar s' \<and>
    view s' = place here (view s) \<and> writable s' = writable s"
proof (cases rule: segment_image_cases [OF assms(3)])
  case 1
  then show ?thesis using assms(1) by (simp add: load_segment_def place_def)
next
  case (2 bs)
  note seg = segment_inside [OF assms(3) [unfolded 2] assms(2)]
  obtain s' where "dbg_write dbg p_paddr bs (of_nat (length bs)) s = Inr s'" "invar s'"
    "view s' = view_write (view s) p_paddr bs" "writable s' = writable s"
    using dbg_write_inside [of s p_paddr bs] assms(1,4) seg(3) 2 by auto
  with seg(4,5,6) seg(7) [symmetric] 2 show ?thesis
    by (auto simp: load_segment_def Let_def place_def)
qed

lemma load_segment_outside:
  assumes "invar s" "length b < 2 ^ 32" "segment_image b (p_offset, p_paddr, p_filesz) = Some here"
    "\<not> (\<forall>(a, bs) \<in> set here. writable s a (length bs))"
  shows "load_segment dbg b p_offset p_paddr p_filesz s =
    Inl (Runtime_error ''elf_loader: backdoor write incomplete (address not mapped?)'')"
proof (cases rule: segment_image_cases [OF assms(3)])
  case 1
  then show ?thesis using assms(4) by simp
next
  case (2 bs)
  note seg = segment_inside [OF assms(3) [unfolded 2] assms(2)]
  have "dbg_write dbg p_paddr bs (of_nat (length bs)) s =
      Inl (Runtime_error ''elf_loader: backdoor write incomplete (address not mapped?)'')"
    using dbg_write_outside [of s p_paddr bs] assms(1,4) seg(2,3) 2 by auto
  with seg(4,5,6) seg(7) [symmetric] show ?thesis
    by (auto simp: load_segment_def Let_def)
qed

text \<open>The whole program-header table.\<close>

lemma load_segments_spec:
  assumes "invar s" "length b < 2 ^ 32" "image_segments is64 b phoff phentsize is = Some segs"
  shows "if \<forall>(a, bs) \<in> set segs. writable s a (length bs)
    then \<exists>s'. load_segments dbg is64 b phoff phentsize is s = Inr s' \<and> invar s' \<and>
      view s' = place segs (view s) \<and> writable s' = writable s
    else load_segments dbg is64 b phoff phentsize is s =
      Inl (Runtime_error ''elf_loader: backdoor write incomplete (address not mapped?)'')"
  using assms(1,3)
proof (induction "is" arbitrary: s segs)
  case Nil
  then show ?case by (simp add: place_def)
next
  case (Cons i "is")
  obtain ph seg here rest where ph: "header_at phoff phentsize i = Inr ph"
    "segment_fields is64 b ph = Inr seg" and segs: "segs = here @ rest"
    and here: "(case seg of None \<Rightarrow> Some [] | Some f \<Rightarrow> segment_image b f) = Some here"
    and rest: "image_segments is64 b phoff phentsize is = Some rest"
    using image_segments_Cons [OF Cons.prems(2)] by metis
  let ?go = "case seg of None \<Rightarrow> Inr s
    | Some (p_offset, p_paddr, p_filesz) \<Rightarrow> load_segment dbg b p_offset p_paddr p_filesz s"
  have step: "load_segments dbg is64 b phoff phentsize (i # is) s =
      bindR ?go (load_segments dbg is64 b phoff phentsize is)"
    using ph by simp
  show ?case
  proof (cases "\<forall>(a, bs) \<in> set here. writable s a (length bs)")
    case True
    have "\<exists>s1. ?go = Inr s1 \<and> invar s1 \<and> view s1 = place here (view s) \<and> writable s1 = writable s"
      using here True Cons.prems(1) load_segment_inside [OF Cons.prems(1) assms(2)]
      by (cases seg) (auto simp: place_def)
    then obtain s1 where s1: "?go = Inr s1" "invar s1" "view s1 = place here (view s)"
      "writable s1 = writable s" by blast
    from Cons.IH [OF s1(2) rest] s1 True show ?thesis
      unfolding step segs by (auto simp: place_append split: if_splits)
  next
    case False
    then obtain p_offset p_paddr p_filesz where seg: "seg = Some (p_offset, p_paddr, p_filesz)"
      using here by (cases seg) auto
    then have "?go = Inl (Runtime_error ''elf_loader: backdoor write incomplete (address not mapped?)'')"
      using here load_segment_outside [OF Cons.prems(1) assms(2) _ False] by simp
    with False show ?thesis unfolding step segs by auto
  qed
qed

lemma load_parsed_spec:
  assumes "invar s" "length b < 2 ^ 32" "parsed_image b = Some (entry, segs)"
  shows "if \<forall>(a, bs) \<in> set segs. writable s a (length bs)
    then \<exists>s'. load_elf dbg path (Some b) s = Inr (s', entry) \<and> invar s' \<and>
      view s' = place segs (view s)
    else load_elf dbg path (Some b) s =
      Inl (Runtime_error ''elf_loader: backdoor write incomplete (address not mapped?)'')"
proof -
  obtain is64 phoff phentsize phnum where
    h: "elf_header [] b = Inr (is64, entry, phoff, phentsize, phnum)"
    and im: "image_segments is64 b phoff phentsize [0..<unat phnum] = Some segs"
    using assms(3) by (auto simp: parsed_image_def split: sum.splits)
  have "elf_header path b = Inr (is64, entry, phoff, phentsize, phnum)"
    using h by (auto simp: elf_header_def Let_def split: if_splits)
  with load_segments_spec [OF assms(1,2) im] show ?thesis
    by (auto simp: load_elf_def split: if_splits)
qed

lemma load_elf_spec:
  assumes "invar s" "length b < 2 ^ 32" "elf_image b = Some (entry, segs)"
  shows "if \<forall>(a, bs) \<in> set segs. writable s a (length bs)
    then \<exists>s'. load_elf dbg path (Some b) s = Inr (s', entry) \<and> invar s' \<and>
      view s' = place segs (view s)
    else load_elf dbg path (Some b) s =
      Inl (Runtime_error ''elf_loader: backdoor write incomplete (address not mapped?)'')"
  by (rule load_parsed_spec [OF assms(1,2) elf_image_read [OF assms(3,2)]])

end

section \<open>The interface on a memory and on the memories behind the router\<close>

definition mem_writable :: "memory \<Rightarrow> u64 \<Rightarrow> nat \<Rightarrow> bool" where
  "mem_writable m a n \<longleftrightarrow> \<not> mem_read_only m \<and> unat a + n \<le> memory_size m"

definition byte_view :: "memory \<Rightarrow> u64 \<Rightarrow> u8 option" where
  "byte_view m a = mem_view m (unat a)"

lemma unat_of_length: "length bs < 2 ^ 32 \<Longrightarrow> unat (of_nat (length bs) :: u32) = length bs"
  by (simp add: unat_of_nat)

lemma memory_dbg_write_inside:
  assumes "mem_writable m a (length bs)" "length bs < 2 ^ 32"
  obtains st where "memcpy_to (mem_data m) (unat a) bs = Inr st"
    "memory_transport_dbg m (fill TLM_WRITE_COMMAND a (Some bs) (of_nat (length bs))) =
      Inr (m\<lparr>mem_data := st\<rparr>, (fill TLM_WRITE_COMMAND a (Some bs) (of_nat (length bs)))
        \<lparr>response_status := TLM_OK_RESPONSE\<rparr>, of_nat (length bs))"
proof -
  obtain st where st: "memcpy_to (mem_data m) (unat a) bs = Inr st"
    using assms(1) memcpy_to_ok [of "unat a" bs "mem_data m"] by (auto simp: mem_writable_def memory_size_def)
  moreover have "min (length bs) (memory_size m - unat a) = length bs"
    using assms(1) by (auto simp: mem_writable_def)
  ultimately show ?thesis
    using assms that [of st]
    by (simp add: memory_transport_dbg_def Let_def mem_writable_def unat_of_length ptr_load_def)
qed

lemma memory_dbg_write_outside:
  assumes "\<not> mem_writable m a (length bs)" "bs \<noteq> []" "length bs < 2 ^ 32"
  shows "\<exists>m' p' n. memory_transport_dbg m (fill TLM_WRITE_COMMAND a (Some bs) (of_nat (length bs))) =
      Inr (m', p', n) \<and> n \<noteq> of_nat (length bs)"
proof (cases "unat a > memory_size m \<or> mem_read_only m")
  case True
  have "(0 :: u32) \<noteq> of_nat (length bs)"
    using assms(2) unat_of_length [OF assms(3)] by (metis length_0_conv unsigned_0)
  with True show ?thesis
    by (auto simp: memory_transport_dbg_def Let_def)
next
  case False
  let ?n = "memory_size m - unat a"
  have n: "?n < length bs" using assms(1) False by (auto simp: mem_writable_def)
  then have "unat (of_nat ?n :: u32) \<noteq> length bs" using assms(3) by (simp add: unat_of_nat)
  then have neq: "(of_nat ?n :: u32) \<noteq> of_nat (length bs)" using unat_of_length [OF assms(3)] by metis
  obtain st where "memcpy_to (mem_data m) (unat a) (take ?n bs) = Inr st"
    using False n memcpy_to_ok [of "unat a" "take ?n bs" "mem_data m"] by (auto simp: memory_size_def)
  with False n neq assms(3) show ?thesis
    by (simp add: memory_transport_dbg_def Let_def unat_of_length ptr_load_def memcpy_from_def)
qed

lemma byte_view_write:
  assumes "memcpy_to (mem_data m) (unat a) bs = Inr st"
  shows "byte_view (m\<lparr>mem_data := st\<rparr>) = view_write (byte_view m) a bs"
  using memcpy_to_view [OF assms] by (auto simp: byte_view_def view_write_def store_write_def fun_eq_iff)

lemma memory_debug_target: "debug_target memory_transport_dbg (\<lambda>_. True) byte_view mem_writable"
proof (rule debug_target.intro)
  fix m :: memory and a :: u64 and bs :: "u8 list"
  assume len: "length bs < 2 ^ 32"
  show "\<exists>m' p'. memory_transport_dbg m (fill TLM_WRITE_COMMAND a (Some bs) (of_nat (length bs)))
      = Inr (m', p', of_nat (length bs)) \<and> True \<and> byte_view m' = view_write (byte_view m) a bs \<and>
      mem_writable m' = mem_writable m" if w: "mem_writable m a (length bs)"
  proof -
    obtain st where st: "memcpy_to (mem_data m) (unat a) bs = Inr st"
      "memory_transport_dbg m (fill TLM_WRITE_COMMAND a (Some bs) (of_nat (length bs))) =
      Inr (m\<lparr>mem_data := st\<rparr>, (fill TLM_WRITE_COMMAND a (Some bs) (of_nat (length bs)))
        \<lparr>response_status := TLM_OK_RESPONSE\<rparr>, of_nat (length bs))"
      by (rule memory_dbg_write_inside [OF w len])
    have "mem_writable (m\<lparr>mem_data := st\<rparr>) = mem_writable m"
      using length_memcpy_to [OF st(1)] by (simp add: mem_writable_def memory_size_def fun_eq_iff)
    with st byte_view_write [OF st(1)] show ?thesis by simp
  qed
  show "\<exists>m' p' n. memory_transport_dbg m (fill TLM_WRITE_COMMAND a (Some bs) (of_nat (length bs))) =
      Inr (m', p', n) \<and> n \<noteq> of_nat (length bs)" if "\<not> mem_writable m a (length bs)" "bs \<noteq> []"
    using memory_dbg_write_outside [OF that len] .
qed

interpretation mem_dbg: debug_target memory_transport_dbg "\<lambda>_. True" byte_view mem_writable
  by (rule memory_debug_target)

text \<open>Behind the router: a write inside one region of a RAM, at its local address.\<close>

definition bank_writable :: "bus_router \<Rightarrow> memory list \<Rightarrow> u64 \<Rightarrow> nat \<Rightarrow> bool" where
  "bank_writable r ms a n \<longleftrightarrow> 0 \<le> decode r a \<and>
     mem_writable (ms ! nat (decode r a)) (a - range_base (ranges r ! nat (decode r a))) n"

lemma bank_dbg_at:
  assumes "mapped r ms" and "decode r (address p) = int k"
  shows "bank_transport_dbg r ms p =
    bindR (memory_transport_dbg (ms ! k) (p\<lparr>address := address p - range_base (ranges r ! k)\<rparr>))
      (\<lambda>(m', p', n). Inr (ms[k := m'], p'\<lparr>address := address p\<rparr>, n))"
proof -
  have "k < length ms" using assms by (auto simp: mapped_def decode_eq)
  with assms(2) show ?thesis
    by (auto simp: bank_transport_dbg_def router_transport_dbg_def call_socket_def bank_dbg_targets_def
        on_part_dbg_def bindR_def Let_def split: sum.splits prod.splits)
qed

lemma fill_address [simp]: "(fill c a x n)\<lparr>address := b\<rparr> = fill c b x n"
  by (simp add: fill_def)

lemma bank_writable_update:
  assumes "k < length ms" "memory_size m' = memory_size (ms ! k)" "mem_read_only m' = mem_read_only (ms ! k)"
  shows "bank_writable r (ms[k := m']) = bank_writable r ms"
  using assms by (auto simp: bank_writable_def mem_writable_def fun_eq_iff nth_list_update)

lemma bank_dbg_write_inside:
  assumes map: "mapped r ms" and w: "bank_writable r ms a (length bs)" and len: "length bs < 2 ^ 32"
  shows "\<exists>ms' p'. bank_transport_dbg r ms (fill TLM_WRITE_COMMAND a (Some bs) (of_nat (length bs)))
      = Inr (ms', p', of_nat (length bs)) \<and> mapped r ms' \<and>
    global_view r ms' = view_write (global_view r ms) a bs \<and> bank_writable r ms' = bank_writable r ms"
proof -
  have "0 \<le> decode r a" using w by (simp add: bank_writable_def)
  then obtain k where k: "decode r a = int k" by (rule nonneg_int_cases)
  note b = bank_decode_bounds [OF map k]
  let ?a = "a - range_base (ranges r ! k)"
  have wk: "mem_writable (ms ! k) ?a (length bs)" using w k by (simp add: bank_writable_def)
  obtain st where st: "memcpy_to (mem_data (ms ! k)) (unat ?a) bs = Inr st"
    "memory_transport_dbg (ms ! k) (fill TLM_WRITE_COMMAND ?a (Some bs) (of_nat (length bs))) =
      Inr ((ms ! k)\<lparr>mem_data := st\<rparr>, (fill TLM_WRITE_COMMAND ?a (Some bs) (of_nat (length bs)))
        \<lparr>response_status := TLM_OK_RESPONSE\<rparr>, of_nat (length bs))"
    by (rule memory_dbg_write_inside [OF wk len])
  let ?m = "(ms ! k)\<lparr>mem_data := st\<rparr>"
  have sz: "memory_size ?m = memory_size (ms ! k)"
    using length_memcpy_to [OF st(1)] by (simp add: memory_size_def)
  have "unat a + length bs \<le> unat (range_base (ranges r ! k)) + memory_size (ms ! k)"
    using wk b(2,3) by (auto simp: mem_writable_def)
  then have "global_view r (ms[k := ?m]) = view_write (global_view r ms) a bs"
    using b memcpy_to_view [OF st(1)] by (intro ext global_view_update [OF map]) simp_all
  moreover have "mapped r (ms[k := ?m])" using map sz by (rule mapped_update)
  moreover have "bank_writable r (ms[k := ?m]) = bank_writable r ms"
    using b(1) sz by (rule bank_writable_update) simp
  ultimately show ?thesis using st(2) k by (simp add: bank_dbg_at [OF map])
qed

lemma bank_dbg_write_outside:
  assumes map: "mapped r ms" and w: "\<not> bank_writable r ms a (length bs)" and "bs \<noteq> []"
    and len: "length bs < 2 ^ 32"
  shows "\<exists>ms' p' n. bank_transport_dbg r ms (fill TLM_WRITE_COMMAND a (Some bs) (of_nat (length bs)))
      = Inr (ms', p', n) \<and> n \<noteq> of_nat (length bs)"
proof (cases "0 \<le> decode r a")
  case True
  then obtain k where k: "decode r a = int k" by (rule nonneg_int_cases)
  then have "\<not> mem_writable (ms ! k) (a - range_base (ranges r ! k)) (length bs)"
    using w by (simp add: bank_writable_def)
  from memory_dbg_write_outside [OF this assms(3) len] obtain m' p' n where
    "memory_transport_dbg (ms ! k) (fill TLM_WRITE_COMMAND (a - range_base (ranges r ! k)) (Some bs)
      (of_nat (length bs))) = Inr (m', p', n)" "n \<noteq> of_nat (length bs)" by blast
  with k show ?thesis by (simp add: bank_dbg_at [OF map])
next
  case False
  have "(0 :: u32) \<noteq> of_nat (length bs)"
    using assms(3) unat_of_length [OF len] by (metis length_0_conv unsigned_0)
  with False show ?thesis by (auto simp: bank_transport_dbg_def router_transport_dbg_def Let_def)
qed

interpretation bank_dbg: debug_target "bank_transport_dbg r" "mapped r" "global_view r" "bank_writable r" for r
  by (rule debug_target.intro) (rule bank_dbg_write_inside bank_dbg_write_outside; assumption)+

section \<open>Examples\<close>

text \<open>A firmware image: one segment of four bytes for address \<open>0x80000000\<close>, the entry point.\<close>

definition demo_image :: "u8 list" where
  "demo_image = [0x7F, 0x45, 0x4C, 0x46, 1, 1, 1, 0, 0, 0, 0, 0, 0, 0, 0, 0,
     2, 0, 0xF3, 0, 1, 0, 0, 0, 0, 0, 0, 0x80, 52, 0, 0, 0,
     0, 0, 0, 0, 0, 0, 0, 0, 52, 0, 32, 0, 1, 0, 0, 0,
     0, 0, 0, 0, 1, 0, 0, 0, 84, 0, 0, 0, 0, 0, 0, 0x80,
     0, 0, 0, 0x80, 4, 0, 0, 0, 4, 0, 0, 0, 5, 0, 0, 0,
     4, 0, 0, 0, 0x13, 0x05, 0x10, 0x00]"

lemma demo_image_length [simp]: "length demo_image = 88"
  by (simp add: demo_image_def)

lemmas image_eval = elf_image_by_def header_segment_def file_header_layout_def program_header_layout_def Let_def

lemma demo_image_eq: "elf_image demo_image = Some (0x80000000, [(0x80000000, [0x13, 0x05, 0x10, 0x00])])"
  unfolding elf_image_def by (simp add: image_eval demo_image_def)

text \<open>The same in a 64-bit image, whose segment has the virtual address \<open>0x1000\<close>.\<close>

definition demo_image64 :: "u8 list" where
  "demo_image64 = [0x7F, 0x45, 0x4C, 0x46, 2, 1, 1, 0, 0, 0, 0, 0, 0, 0, 0, 0,
     2, 0, 0xF3, 0, 1, 0, 0, 0, 0, 0, 0, 0x80, 0, 0, 0, 0, 64, 0, 0, 0, 0, 0, 0, 0,
     0, 0, 0, 0, 0, 0, 0, 0, 0, 0, 0, 0, 64, 0, 56, 0, 1, 0, 0, 0, 0, 0, 0, 0,
     1, 0, 0, 0, 5, 0, 0, 0, 120, 0, 0, 0, 0, 0, 0, 0, 0, 0x10, 0, 0, 0, 0, 0, 0,
     0, 0, 0, 0x80, 0, 0, 0, 0, 4, 0, 0, 0, 0, 0, 0, 0, 4, 0, 0, 0, 0, 0, 0, 0,
     4, 0, 0, 0, 0, 0, 0, 0, 0x13, 0x05, 0x10, 0x00]"

lemma demo_image64_eq:
  "elf_image_by P_vaddr demo_image64 = Some (0x80000000, [(0x1000, [0x13, 0x05, 0x10, 0x00])])"
  "elf_image_by P_paddr demo_image64 = Some (0x80000000, [(0x80000000, [0x13, 0x05, 0x10, 0x00])])"
  "demo_image64 ! 4 = 2" "length demo_image64 = 124"
  by (simp_all add: image_eval demo_image64_def)

text \<open>The RAM of the RISC-V platforms behind the router.\<close>

definition demo_router :: bus_router where
  "demo_router = \<lparr>ranges = [\<lparr>range_base = 0x80000000, range_size = 0x10000\<rparr>], n_sockets = 1,
     n_extra_ports = 0\<rparr>"

definition demo_bank :: "memory list" where
  "demo_bank = [memory_new 0x10000 False 10000]"

lemma demo_mapped: "mapped demo_router demo_bank"
  by (simp add: mapped_def demo_router_def demo_bank_def disjoint_map_def ends_in_space_def
      memory_new_def memory_size_def)

lemma demo_writable: "bank_writable demo_router demo_bank 0x80000000 4"
  "\<not> bank_writable demo_router demo_bank 0x1000 4"
  by (simp_all add: bank_writable_def mem_writable_def demo_router_def demo_bank_def decode_def
      contains_def memory_new_def memory_size_def)

section \<open>Properties\<close>

text \<open>
  C12: loading an image places exactly its segments. Through the router, into memories that form
  a proper map, the loader given a file below 4 GiB that is a well-formed image by the layout of
  the ELF structures, whose segments all lie in RAM, returns the entry point, and the global store
  afterwards is the one before with the bytes of the segments at their addresses (the physical
  ones of a 32-bit file, the virtual ones of a 64-bit file), in the order of the program headers,
  and nothing else.
\<close>

theorem elf_load_places_segments:
  assumes "mapped r ms" and "length b < 2 ^ 32" and "elf_image b = Some (entry, segs)"
    and "\<forall>(a, bs) \<in> set segs. bank_writable r ms a (length bs)"
  shows "\<exists>ms'. load_elf (bank_transport_dbg r) path (Some b) ms = Inr (ms', entry) \<and> mapped r ms' \<and>
    global_view r ms' = place segs (global_view r ms)"
  using bank_dbg.load_elf_spec [OF assms(1-3), of path] assms(4) by auto

theorem elf_load_places_segments_witness:
  "\<exists>ms'. load_elf (bank_transport_dbg demo_router) ''fw.elf'' (Some demo_image) demo_bank = Inr (ms', 0x80000000) \<and>
     global_view demo_router ms' 0x80000001 = Some 0x05"
proof -
  have "\<forall>(a, bs) \<in> set [(0x80000000, [0x13, 0x05, 0x10, 0x00])].
      bank_writable demo_router demo_bank a (length (bs :: u8 list))"
    using demo_writable(1) by (simp add: numeral_eq_Suc)
  from elf_load_places_segments [OF demo_mapped _ demo_image_eq this, of "''fw.elf''"] show ?thesis
    by (auto simp: place_def view_write_def)
qed

text \<open>
  C13: 64-bit images are not placed at their physical addresses. Of a 64-bit image whose segments
  all lie in RAM at their physical addresses, the loader places them at their virtual addresses,
  and refuses the image when one of those does not lie in RAM.
\<close>

theorem elf64_placed_virtually:
  assumes "mapped r ms" and "length b < 2 ^ 32" and "b ! 4 = 2"
    and "elf_image_by P_paddr b = Some (entry, psegs)" and "\<forall>(a, bs) \<in> set psegs. bank_writable r ms a (length bs)"
    and "elf_image_by P_vaddr b = Some (entry, vsegs)"
  shows "if \<forall>(a, bs) \<in> set vsegs. bank_writable r ms a (length bs)
    then \<exists>ms'. load_elf (bank_transport_dbg r) path (Some b) ms = Inr (ms', entry) \<and>
      global_view r ms' = place vsegs (global_view r ms)
    else load_elf (bank_transport_dbg r) path (Some b) ms =
      Inl (Runtime_error ''elf_loader: backdoor write incomplete (address not mapped?)'')"
proof -
  have "elf_image b = Some (entry, vsegs)" using assms(3,6) by (simp add: elf_image_def)
  from bank_dbg.load_elf_spec [OF assms(1,2) this, of path] show ?thesis by (auto split: if_splits)
qed

theorem elf64_placed_virtually_witness:
  "load_elf (bank_transport_dbg demo_router) ''fw.elf'' (Some demo_image64) demo_bank =
     Inl (Runtime_error ''elf_loader: backdoor write incomplete (address not mapped?)'') \<and>
   list_all (\<lambda>(a, bs). bank_writable demo_router demo_bank a (length bs)) (snd (the (elf_image_by P_paddr demo_image64)))"
proof -
  have w: "\<forall>(a, bs) \<in> set [(0x80000000, [0x13, 0x05, 0x10, 0x00])].
      bank_writable demo_router demo_bank a (length (bs :: u8 list))"
    "\<not> (\<forall>(a, bs) \<in> set [(0x1000, [0x13, 0x05, 0x10, 0x00])].
      bank_writable demo_router demo_bank a (length (bs :: u8 list)))"
    using demo_writable by (simp_all add: numeral_eq_Suc)
  have "length demo_image64 < 2 ^ 32" by (simp add: demo_image64_eq(4))
  from elf64_placed_virtually [OF demo_mapped this demo_image64_eq(3,2) w(1) demo_image64_eq(1), of "''fw.elf''"] w
  show ?thesis by (simp add: demo_image64_eq(2))
qed

text \<open>
  An image that does not fit the memory map is refused. If some segment of a well-formed
  image below 4 GiB does not lie in one RAM region, the loader throws the error of an incomplete
  backdoor write.
\<close>

lemma elf_load_rejects_unmapped:
  assumes "mapped r ms" and "length b < 2 ^ 32" and "elf_image b = Some (entry, segs)"
    and "(a, bs) \<in> set segs" and "\<not> bank_writable r ms a (length bs)"
  shows "load_elf (bank_transport_dbg r) path (Some b) ms =
    Inl (Runtime_error ''elf_loader: backdoor write incomplete (address not mapped?)'')"
  using bank_dbg.load_elf_spec [OF assms(1-3), of path] assms(4,5) by (auto split: if_splits)

text \<open>
  The field readers. In a file below \<open>2 ^ 63\<close> bytes, \<open>rd16\<close>, \<open>rd32\<close> and \<open>rd64\<close> at an offset
  whose field lies in the file return its little-endian value, and \<open>rd32\<close> of a field that leaves
  the file throws \<open>std::out_of_range\<close>.
\<close>

lemma elf_fields_little_endian:
  assumes "length b < 2 ^ 63"
  shows "(unat off + 2 \<le> length b \<longrightarrow> rd16 b off = Inr (le_word (take 2 (drop (unat off) b)))) \<and>
    (unat off + 8 \<le> length b \<longrightarrow> rd64 b off = Inr (le_word (take 8 (drop (unat off) b)))) \<and>
    rd32 b off = (if unat off + 4 \<le> length b then Inr (le_word (take 4 (drop (unat off) b)))
      else Inl (Out_of_range ''vector::at''))"
  using assms rd16_slice [of off b] rd64_slice [of off b] rd32_slice [of off b] rd32_past [of b off]
  by simp

text \<open>
  The check that a segment lies in the file is computed in 64 bits. A segment with offset
  \<open>2 ^ 64 - 1\<close> and size 2 passes it for every file that is not empty, and when its target is a
  writable place of a memory the copy reads outside the file's buffer.
\<close>

lemma elf_segment_check_wraps:
  assumes "b \<noteq> []" and "length b < 2 ^ 32" and "mem_writable m a 2"
  shows "load_segment memory_transport_dbg b (- 1) a 2 m = Inl Out_of_bounds"
proof -
  have "(0x100000000 :: u64) \<le> - 1" by (rule word_n1_ge)
  then have "2 ^ 32 \<le> unat (- 1 :: u64)" by (simp add: word_le_nat_alt)
  then have "drop (unat (- 1 :: u64)) b = []" using assms(2) by simp
  moreover have "min 2 (memory_size m - unat a) = 2" using assms(3) by (auto simp: mem_writable_def)
  ultimately show ?thesis
    using assms(1,3)
    by (simp add: load_segment_def dbg_write_def Let_def memory_transport_dbg_def mem_writable_def
        ptr_load_def memcpy_from_def)
qed

end
