(* ===== verification/Cpu_Models.thy ===== *)
theory Cpu_Models
  imports Systemc Elf_Loader
begin

text \<open>
  \<open>cpu_models\<close>: the CPU interface \<open>cpu_base\<close> and its wrappers. The instruction-set simulators they
  wrap are third-party code, so they are parameters: \<open>iss_ops\<close> collects the operations of the
  Bremen ISS that \<open>riscv_vp_wrapper.cpp\<close> calls, and the interrupt socket of the other core is a
  transport. The CPU of the PLIC's unit test, a \<open>cpu_base\<close> with one level, is in the repository
  and is the instance of the contract \<open>level_irq\<close>.
\<close>

section \<open>The CPU of the PLIC's unit test\<close>

record mock_cpu =
  mock_meip :: bool

definition mock_set_irq :: "nat \<Rightarrow> bool \<Rightarrow> mock_cpu \<Rightarrow> mock_cpu" where
  "mock_set_irq cause level c = (if cause = 11 then c\<lparr>mock_meip := level\<rparr> else c)"

definition mock_pending :: "mock_cpu \<Rightarrow> nat \<Rightarrow> bool" where
  "mock_pending c cause = (cause = 11 \<and> mock_meip c)"

interpretation mock: level_irq mock_set_irq mock_pending "{11}"
  by unfold_locales (simp add: mock_set_irq_def mock_pending_def)

section \<open>The Bremen ISS wrapper\<close>

definition kInitialSp :: u32 where "kInitialSp = 0x80010000"

text \<open>The operations of \<open>rv32::ISS\<close> the wrapper calls.\<close>

record 'iss iss_ops =
  trigger_software_interrupt :: "bool \<Rightarrow> 'iss \<Rightarrow> 'iss"
  trigger_timer_interrupt :: "bool \<Rightarrow> 'iss \<Rightarrow> 'iss"
  trigger_external_interrupt :: "'iss \<Rightarrow> 'iss"
  clear_external_interrupt :: "'iss \<Rightarrow> 'iss"
  iss_init :: "u32 \<Rightarrow> u32 \<Rightarrow> 'iss \<Rightarrow> 'iss"
  iss_set_pc :: "u32 \<Rightarrow> 'iss \<Rightarrow> 'iss"
  iss_pc :: "'iss \<Rightarrow> u32"
  total_num_instr :: "'iss \<Rightarrow> u64"

record 'iss riscv_vp_cpu =
  vp_iss :: 'iss
  elf_path :: string
  entry_pc :: u64

definition vp_new :: "'iss \<Rightarrow> 'iss riscv_vp_cpu" where
  "vp_new iss = \<lparr>vp_iss = iss, elf_path = [], entry_pc = 0\<rparr>"

text \<open>The quantum the wrapper leaves: its default when nobody set one of at least 10 ns.\<close>

definition quantum_init :: "sc_time \<Rightarrow> sc_time" where
  "quantum_init gq = (if gq < 10000 then 1000000 else gq)"

definition vp_set_irq :: "'iss iss_ops \<Rightarrow> nat \<Rightarrow> bool \<Rightarrow> 'iss riscv_vp_cpu \<Rightarrow> 'iss riscv_vp_cpu" where
  "vp_set_irq ops cause level c =
     (if cause = 3 then c\<lparr>vp_iss := trigger_software_interrupt ops level (vp_iss c)\<rparr>
      else if cause = 7 then c\<lparr>vp_iss := trigger_timer_interrupt ops level (vp_iss c)\<rparr>
      else if cause = 11
      then if level then c\<lparr>vp_iss := trigger_external_interrupt ops (vp_iss c)\<rparr>
           else c\<lparr>vp_iss := clear_external_interrupt ops (vp_iss c)\<rparr>
      else c)"

definition vp_load_elf :: "string \<Rightarrow> 'iss riscv_vp_cpu \<Rightarrow> 'iss riscv_vp_cpu" where
  "vp_load_elf path c = c\<lparr>elf_path := path\<rparr>"

text \<open>\<open>files\<close> is the file system, \<open>dbg\<close> the debug transport of the bound bus.\<close>

definition vp_start_of_simulation ::
  "'iss iss_ops \<Rightarrow> (string \<Rightarrow> u8 list option) \<Rightarrow> 's debug_transport \<Rightarrow> 'iss riscv_vp_cpu \<Rightarrow> 's \<Rightarrow>
     ('iss riscv_vp_cpu \<times> 's) res" where
  "vp_start_of_simulation ops files dbg c s =
     (if elf_path c = [] then Inr (c, s)
      else bindR (load_elf dbg (elf_path c) (files (elf_path c)) s) (\<lambda>(s', entry).
           Inr (c\<lparr>entry_pc := entry, vp_iss := iss_init ops (ucast entry) kInitialSp (vp_iss c)\<rparr>, s')))"

definition vp_reset_cpu :: "'iss iss_ops \<Rightarrow> 'iss riscv_vp_cpu \<Rightarrow> 'iss riscv_vp_cpu" where
  "vp_reset_cpu ops c = c\<lparr>vp_iss := iss_set_pc ops (ucast (entry_pc c)) (vp_iss c)\<rparr>"

definition vp_get_pc :: "'iss iss_ops \<Rightarrow> 'iss riscv_vp_cpu \<Rightarrow> u64" where
  "vp_get_pc ops c = ucast (iss_pc ops (vp_iss c))"

definition vp_get_instret :: "'iss iss_ops \<Rightarrow> 'iss riscv_vp_cpu \<Rightarrow> u64" where
  "vp_get_instret ops c = total_num_instr ops (vp_iss c)"

text \<open>
  What the wrapper relies on, by the interrupt policy of the repository: the machine interrupt
  pending bits 3, 7 and 11 are set and cleared by these calls, each leaving the others alone.
\<close>

definition iss_levels :: "'iss iss_ops \<Rightarrow> ('iss \<Rightarrow> nat \<Rightarrow> bool) \<Rightarrow> bool" where
  "iss_levels ops mip \<longleftrightarrow>
     (\<forall>i l c. c \<in> {3, 7, 11} \<longrightarrow>
        mip (trigger_software_interrupt ops l i) c = (if c = 3 then l else mip i c) \<and>
        mip (trigger_timer_interrupt ops l i) c = (if c = 7 then l else mip i c) \<and>
        mip (trigger_external_interrupt ops i) c = (if c = 11 then True else mip i c) \<and>
        mip (clear_external_interrupt ops i) c = (if c = 11 then False else mip i c))"

text \<open>What it relies on of the program counter.\<close>

definition iss_pc_law :: "'iss iss_ops \<Rightarrow> bool" where
  "iss_pc_law ops \<longleftrightarrow> (\<forall>i pc sp. iss_pc ops (iss_init ops pc sp i) = pc \<and> iss_pc ops (iss_set_pc ops pc i) = pc)"

section \<open>The RISC-V-TLM wrapper\<close>

text \<open>The core is its interrupt socket \<open>irq_bt\<close>; a cause travels in the payload's data.\<close>

definition tlm_raise_irq :: "'c transport \<Rightarrow> u32 \<Rightarrow> 'c \<Rightarrow> 'c res" where
  "tlm_raise_irq irq_bt cause c =
     bindR (irq_bt c (fill TLM_IGNORE_COMMAND 0 (Some (le_bytes 4 cause)) 4) 0) (\<lambda>(c', p, d). Inr c')"

definition tlm_set_irq :: "'c transport \<Rightarrow> nat \<Rightarrow> bool \<Rightarrow> 'c \<Rightarrow> 'c res" where
  "tlm_set_irq irq_bt cause level c = (if level then tlm_raise_irq irq_bt (of_nat cause) c else Inr c)"

fun tlm_replay :: "'c transport \<Rightarrow> irq_log \<Rightarrow> 'c \<Rightarrow> 'c res" where
  "tlm_replay irq_bt [] c = Inr c"
| "tlm_replay irq_bt ((cause, level) # calls) c =
     bindR (tlm_set_irq irq_bt cause level c) (tlm_replay irq_bt calls)"

text \<open>A core that keeps the causes it was sent, for the statement of what is sent.\<close>

definition cause_sink :: "u32 list transport" where
  "cause_sink cs p d = bindR (ptr_load p 4) (\<lambda>bs. Inr (cs @ [le_word bs], p\<lparr>response_status := TLM_OK_RESPONSE\<rparr>, d))"

text \<open>
  The members that start the core. The core is owned through the pointer \<open>core_\<close>, which two of them
  test; the operations of its register bank and of the singleton that counts the retired
  instructions are parameters, and \<open>cfg\<close>, which no member reads, is left out.
\<close>

record 'c bank_ops =
  setPC :: "u32 \<Rightarrow> 'c \<Rightarrow> 'c"
  getPC :: "'c \<Rightarrow> u32"

record 'c riscv_tlm_cpu =
  tlm_core :: "'c option"
  tlm_elf_path :: string
  tlm_entry_pc :: u64

definition tlm_new :: "'c \<Rightarrow> 'c riscv_tlm_cpu" where
  "tlm_new core = \<lparr>tlm_core = Some core, tlm_elf_path = [], tlm_entry_pc = 0\<rparr>"

definition tlm_load_elf :: "string \<Rightarrow> 'c riscv_tlm_cpu \<Rightarrow> 'c riscv_tlm_cpu" where
  "tlm_load_elf path c = c\<lparr>tlm_elf_path := path\<rparr>"

definition tlm_start_of_simulation ::
  "'c bank_ops \<Rightarrow> (string \<Rightarrow> u8 list option) \<Rightarrow> 's debug_transport \<Rightarrow> 'c riscv_tlm_cpu \<Rightarrow> 's \<Rightarrow>
     ('c riscv_tlm_cpu \<times> 's) res" where
  "tlm_start_of_simulation ops files dbg c s =
     (if tlm_elf_path c = [] then Inr (c, s)
      else case tlm_core c of
        None \<Rightarrow> Inl Null_deref
      | Some core \<Rightarrow>
          bindR (load_elf dbg (tlm_elf_path c) (files (tlm_elf_path c)) s) (\<lambda>(s', entry).
          Inr (c\<lparr>tlm_entry_pc := entry, tlm_core := Some (setPC ops (ucast entry) core)\<rparr>, s')))"

definition tlm_reset_cpu :: "'c bank_ops \<Rightarrow> 'c riscv_tlm_cpu \<Rightarrow> 'c riscv_tlm_cpu" where
  "tlm_reset_cpu ops c =
     (case tlm_core c of None \<Rightarrow> c | Some core \<Rightarrow> c\<lparr>tlm_core := Some (setPC ops (ucast (tlm_entry_pc c)) core)\<rparr>)"

definition tlm_get_pc :: "'c bank_ops \<Rightarrow> 'c riscv_tlm_cpu \<Rightarrow> u64" where
  "tlm_get_pc ops c = (case tlm_core c of None \<Rightarrow> 0 | Some core \<Rightarrow> ucast (getPC ops core))"

definition bank_pc_law :: "'c bank_ops \<Rightarrow> bool" where
  "bank_pc_law ops \<longleftrightarrow> (\<forall>c pc. getPC ops (setPC ops pc c) = pc)"

text \<open>A core that is its program counter.\<close>

definition pc_bank :: "u32 bank_ops" where
  "pc_bank = \<lparr>setPC = (\<lambda>pc _. pc), getPC = id\<rparr>"

lemma pc_bank_law: "bank_pc_law pc_bank"
  by (simp add: bank_pc_law_def pc_bank_def)

text \<open>
  What the interface \<open>cpu_base\<close> leaves to see of a core after the start: a fault, or the memory with
  the program counter at the start and after a reset.
\<close>

definition started :: "('c \<Rightarrow> u64) \<Rightarrow> ('c \<Rightarrow> 'c) \<Rightarrow> ('c \<times> 's) res \<Rightarrow> (u64 \<times> u64 \<times> 's) res" where
  "started pc reset r = bindR r (\<lambda>(c, s). Inr (pc c, pc (reset c), s))"

section \<open>Lemmas\<close>

text \<open>An ISS with the documented interrupt behaviour makes the wrapper a level-sensitive CPU.\<close>

lemma vp_level_irq:
  assumes "iss_levels ops mip"
  shows "level_irq (vp_set_irq ops) (\<lambda>c. mip (vp_iss c)) {3, 7, 11}"
  using assms by unfold_locales (auto simp: iss_levels_def vp_set_irq_def)

lemma vp_replay_pending:
  assumes "iss_levels ops mip" "c \<in> {3, 7, 11}" "\<not> mip (vp_iss cpu) c"
  shows "mip (vp_iss (replay (vp_set_irq ops) calls cpu)) c = irq_level calls c"
  using level_irq.replay_pending [OF vp_level_irq [OF assms(1)] assms(2)] assms(3) by simp

text \<open>An ISS that is just its pending bits and program counter.\<close>

definition bit_iss :: "((nat \<Rightarrow> bool) \<times> u32) iss_ops" where
  "bit_iss = \<lparr>trigger_software_interrupt = (\<lambda>l i. ((fst i)(3 := l), snd i)),
     trigger_timer_interrupt = (\<lambda>l i. ((fst i)(7 := l), snd i)),
     trigger_external_interrupt = (\<lambda>i. ((fst i)(11 := True), snd i)),
     clear_external_interrupt = (\<lambda>i. ((fst i)(11 := False), snd i)),
     iss_init = (\<lambda>pc sp i. (fst i, pc)), iss_set_pc = (\<lambda>pc i. (fst i, pc)), iss_pc = snd,
     total_num_instr = (\<lambda>i. 0)\<rparr>"

lemma bit_iss_laws: "iss_levels bit_iss fst" "iss_pc_law bit_iss"
  by (simp_all add: iss_levels_def iss_pc_law_def bit_iss_def)

text \<open>
  The RISC-V-TLM wrapper injects edges: the core is sent one transaction for each assertion, with
  its cause, in order; releasing a line sends nothing.
\<close>

lemma tlm_replay_sink: "tlm_replay cause_sink calls cs =
    Inr (cs @ map (\<lambda>c. of_nat (fst c)) (filter snd calls))"
  by (induction calls arbitrary: cs)
    (auto simp: tlm_set_irq_def tlm_raise_irq_def cause_sink_def ptr_load_def)

section \<open>Properties\<close>

text \<open>
  Starting the simulation with an image loads it and points the core at it. With an ISS
  whose program counter is set by \<open>init\<close>, \<open>load_elf\<close> followed by \<open>start_of_simulation\<close> on memories
  behind the router places the segments of the image and leaves the program counter, there and
  after every later \<open>reset_cpu\<close>, at its entry point, cut to 32 bits.
\<close>

lemma vp_start_loads_firmware:
  assumes "iss_pc_law ops" and "path \<noteq> []" and "files path = Some b" and "length b < 2 ^ 32"
    and "mapped r ms" and "elf_image b = Some (entry, segs)"
    and "\<forall>(a, bs) \<in> set segs. bank_writable r ms a (length bs)"
  shows "\<exists>c' ms'. vp_start_of_simulation ops files (bank_transport_dbg r) (vp_load_elf path c) ms = Inr (c', ms') \<and>
    global_view r ms' = place segs (global_view r ms) \<and>
    vp_get_pc ops c' = take_bit 32 entry \<and> vp_get_pc ops (vp_reset_cpu ops c') = take_bit 32 entry"
proof -
  obtain ms' where "load_elf (bank_transport_dbg r) path (Some b) ms = Inr (ms', entry)"
    "global_view r ms' = place segs (global_view r ms)"
    using bank_dbg.load_elf_spec [OF assms(5,4,6), of path] assms(7) by auto
  moreover have "ucast (ucast entry :: u32) = take_bit 32 entry"
    by (rule bit_word_eqI) (auto simp: bit_simps)
  ultimately show ?thesis
    using assms(1-3)
    by (simp add: vp_start_of_simulation_def vp_load_elf_def vp_get_pc_def vp_reset_cpu_def iss_pc_law_def)
qed

text \<open>
  C27: the two CPU backends start alike. Given the same image on the same bus, with cores whose
  program counter is what was last set, \<open>load_elf\<close> followed by \<open>start_of_simulation\<close> of the two
  wrappers cannot be told apart through \<open>cpu_base\<close>: the same fault, or the same memory and the same
  program counter, after the start and after a reset.
\<close>

theorem backends_start_alike:
  assumes "iss_pc_law vops" and "bank_pc_law tops" and "path \<noteq> []"
  shows "started (vp_get_pc vops) (vp_reset_cpu vops)
      (vp_start_of_simulation vops files dbg (vp_load_elf path (vp_new iss)) s) =
    started (tlm_get_pc tops) (tlm_reset_cpu tops)
      (tlm_start_of_simulation tops files dbg (tlm_load_elf path (tlm_new core)) s)"
  using assms
  by (cases "load_elf dbg path (files path) s")
    (auto simp: started_def vp_start_of_simulation_def vp_load_elf_def vp_new_def vp_get_pc_def vp_reset_cpu_def
      tlm_start_of_simulation_def tlm_load_elf_def tlm_new_def tlm_get_pc_def tlm_reset_cpu_def
      iss_pc_law_def bank_pc_law_def)

theorem backends_start_alike_witness:
  "started (tlm_get_pc pc_bank) (tlm_reset_cpu pc_bank)
     (tlm_start_of_simulation pc_bank (\<lambda>_. Some demo_image) (bank_transport_dbg demo_router)
       (tlm_load_elf ''fw.elf'' (tlm_new 0)) demo_bank) =
   started (vp_get_pc bit_iss) (vp_reset_cpu bit_iss)
     (vp_start_of_simulation bit_iss (\<lambda>_. Some demo_image) (bank_transport_dbg demo_router)
       (vp_load_elf ''fw.elf'' (vp_new (\<lambda>_. False, 0))) demo_bank)"
  by (rule backends_start_alike [OF bit_iss_laws(2) pc_bank_law, symmetric]) simp

end
