(* ===== verification/Cpu_Base.thy ===== *)
theory Cpu_Base
  imports Cpu_Models
begin

text \<open>
  \<open>cpu_models/include/cdc/cpu/cpu_base.h\<close>: the interface through which a platform uses a CPU, as the
  record of its virtual functions, with the defaults of the class and the overrides of the two
  wrappers, and the small objects the Bremen wrapper hands to its ISS. The locale \<open>cpu_backend\<close> is
  what a platform relies on; both wrappers are interpretations, for any simulator they wrap.
\<close>

section \<open>The interface\<close>

text \<open>The initiator sockets a wrapper can return.\<close>

datatype cpu_bus = Core_instr_bus | Mem_intf_data_bus | Mem_if_isock

text \<open>
  The constructor takes the global quantum and may change it. \<open>start_of_simulation\<close> is the kernel's
  callback; the debug transport is that of the bus the data socket is bound to.
\<close>

record ('c, 's) cpu_base =
  cb_construct :: "sc_time \<Rightarrow> sc_time \<times> 'c"
  cb_instr_bus :: cpu_bus
  cb_data_bus :: cpu_bus
  cb_has_unified_bus :: bool
  cb_raise_irq :: "u32 \<Rightarrow> 'c \<Rightarrow> 'c res"
  cb_set_irq :: "nat \<Rightarrow> bool \<Rightarrow> 'c \<Rightarrow> 'c res"
  cb_load_elf :: "string \<Rightarrow> 'c \<Rightarrow> 'c"
  cb_start_of_simulation :: "(string \<Rightarrow> u8 list option) \<Rightarrow> 's debug_transport \<Rightarrow> 'c \<Rightarrow> 's \<Rightarrow> ('c \<times> 's) res"
  cb_reset_cpu :: "'c \<Rightarrow> 'c"
  cb_get_pc :: "'c \<Rightarrow> u64"
  cb_backend_name :: string
  cb_get_instret :: "'c \<Rightarrow> u64"

text \<open>What a wrapper inherits when it does not override.\<close>

definition cpu_base_has_unified_bus :: bool where
  "cpu_base_has_unified_bus = False"

definition cpu_base_raise_irq :: "u32 \<Rightarrow> 'c \<Rightarrow> 'c res" where
  "cpu_base_raise_irq cause c = Inr c"

section \<open>The wrappers behind it\<close>

text \<open>The bus lock and the CLINT the Bremen wrapper gives its ISS.\<close>

record trivial_bus_lock =
  locked :: bool

definition bus_lock_new :: trivial_bus_lock where "bus_lock_new = \<lparr>locked = False\<rparr>"

definition bus_lock_lock :: "nat \<Rightarrow> trivial_bus_lock \<Rightarrow> trivial_bus_lock" where
  "bus_lock_lock hart l = l\<lparr>locked := True\<rparr>"

definition bus_lock_unlock :: "nat \<Rightarrow> trivial_bus_lock \<Rightarrow> trivial_bus_lock" where
  "bus_lock_unlock hart l = l\<lparr>locked := False\<rparr>"

definition bus_lock_is_locked :: "trivial_bus_lock \<Rightarrow> bool" where
  "bus_lock_is_locked l = locked l"

definition stub_clint_update_and_get_mtime :: "sc_time \<Rightarrow> u64" where
  "stub_clint_update_and_get_mtime now = now"

text \<open>The constructor of the Bremen wrapper: the quantum first, then the ISS.\<close>

definition vp_construct :: "'iss \<Rightarrow> sc_time \<Rightarrow> sc_time \<times> 'iss riscv_vp_cpu" where
  "vp_construct iss gq = (quantum_init gq, vp_new iss)"

definition vp_instr_bus :: cpu_bus where [simp]: "vp_instr_bus = Mem_if_isock"

definition vp_data_bus :: cpu_bus where [simp]: "vp_data_bus = Mem_if_isock"

definition vp_has_unified_bus :: bool where [simp]: "vp_has_unified_bus = True"

definition vp_backend_name :: string where "vp_backend_name = ''riscv_vp (Bremen rv32)''"

definition vp_backend :: "'iss iss_ops \<Rightarrow> 'iss \<Rightarrow> ('iss riscv_vp_cpu, 's) cpu_base" where
  "vp_backend ops iss = \<lparr>cb_construct = vp_construct iss, cb_instr_bus = vp_instr_bus, cb_data_bus = vp_data_bus,
     cb_has_unified_bus = vp_has_unified_bus, cb_raise_irq = cpu_base_raise_irq,
     cb_set_irq = (\<lambda>cause level c. Inr (vp_set_irq ops cause level c)), cb_load_elf = vp_load_elf,
     cb_start_of_simulation = vp_start_of_simulation ops, cb_reset_cpu = vp_reset_cpu ops,
     cb_get_pc = vp_get_pc ops, cb_backend_name = vp_backend_name, cb_get_instret = vp_get_instret ops\<rparr>"

text \<open>The interrupt calls of the other wrapper go to the core it owns.\<close>

definition tlm_on_core :: "('c \<Rightarrow> 'c res) \<Rightarrow> 'c riscv_tlm_cpu \<Rightarrow> 'c riscv_tlm_cpu res" where
  "tlm_on_core f c = (case tlm_core c of None \<Rightarrow> Inl Null_deref
     | Some core \<Rightarrow> bindR (f core) (\<lambda>core'. Inr (c\<lparr>tlm_core := Some core'\<rparr>)))"

definition tlm_instr_bus :: cpu_bus where [simp]: "tlm_instr_bus = Core_instr_bus"

definition tlm_data_bus :: cpu_bus where [simp]: "tlm_data_bus = Mem_intf_data_bus"

definition tlm_backend_name :: string where "tlm_backend_name = ''riscv_tlm (mariusmm RV32IMAC)''"

definition tlm_backend :: "'c bank_ops \<Rightarrow> 'c transport \<Rightarrow> ('c riscv_tlm_cpu \<Rightarrow> u64) \<Rightarrow> 'c \<Rightarrow>
    ('c riscv_tlm_cpu, 's) cpu_base" where
  "tlm_backend bank irq_bt getInstructions core = \<lparr>cb_construct = (\<lambda>gq. (gq, tlm_new core)),
     cb_instr_bus = tlm_instr_bus, cb_data_bus = tlm_data_bus,
     cb_has_unified_bus = cpu_base_has_unified_bus,
     cb_raise_irq = (\<lambda>cause. tlm_on_core (tlm_raise_irq irq_bt cause)),
     cb_set_irq = (\<lambda>cause level. tlm_on_core (tlm_set_irq irq_bt cause level)), cb_load_elf = tlm_load_elf,
     cb_start_of_simulation = tlm_start_of_simulation bank, cb_reset_cpu = tlm_reset_cpu bank,
     cb_get_pc = tlm_get_pc bank, cb_backend_name = tlm_backend_name, cb_get_instret = getInstructions\<rparr>"

section \<open>The contract\<close>

text \<open>
  \<open>live\<close> says that the CPU owns a core, \<open>boot\<close> what the start does to it with the entry point of the
  image. The sockets are one exactly when the CPU says so; without an image the start does
  nothing, with one it is the loader's work on the bus and then \<open>boot\<close>.
\<close>

locale cpu_backend =
  fixes B :: "('c, 's) cpu_base"
    and live :: "'c \<Rightarrow> bool"
    and boot :: "u64 \<Rightarrow> 'c \<Rightarrow> 'c"
  assumes unified: "cb_has_unified_bus B \<longleftrightarrow> cb_instr_bus B = cb_data_bus B"
    and construct_live: "live (snd (cb_construct B gq))"
    and construct_idle: "cb_start_of_simulation B files dbg (snd (cb_construct B gq)) s = Inr (snd (cb_construct B gq), s)"
    and load_live: "live c \<Longrightarrow> live (cb_load_elf B path c)"
    and boot_live: "live c \<Longrightarrow> live (boot entry c)"
    and start_loads: "live c \<Longrightarrow> path \<noteq> [] \<Longrightarrow> cb_start_of_simulation B files dbg (cb_load_elf B path c) s =
      bindR (load_elf dbg path (files path) s) (\<lambda>(s', entry). Inr (boot entry (cb_load_elf B path c), s'))"
begin

text \<open>A live CPU stays live, and only the loader can fail.\<close>

lemma start_live:
  assumes "live c" and "path \<noteq> []" and "cb_start_of_simulation B files dbg (cb_load_elf B path c) s = Inr (c', s')"
  shows "live c'"
  using assms(3) by (auto simp: start_loads [OF assms(1,2)] bindR_eq_Inr boot_live load_live assms(1))

lemma start_fault:
  assumes "live c" and "path \<noteq> []"
  shows "cb_start_of_simulation B files dbg (cb_load_elf B path c) s = Inl e \<longleftrightarrow> load_elf dbg path (files path) s = Inl e"
  by (auto simp: start_loads [OF assms] bindR_eq_Inl split: prod.splits)

end

definition vp_boot :: "'iss iss_ops \<Rightarrow> u64 \<Rightarrow> 'iss riscv_vp_cpu \<Rightarrow> 'iss riscv_vp_cpu" where
  "vp_boot ops entry c = c\<lparr>entry_pc := entry, vp_iss := iss_init ops (ucast entry) kInitialSp (vp_iss c)\<rparr>"

definition tlm_boot :: "'c bank_ops \<Rightarrow> u64 \<Rightarrow> 'c riscv_tlm_cpu \<Rightarrow> 'c riscv_tlm_cpu" where
  "tlm_boot bank entry c = c\<lparr>tlm_entry_pc := entry, tlm_core := map_option (setPC bank (ucast entry)) (tlm_core c)\<rparr>"

interpretation vp_cpu: cpu_backend "vp_backend ops iss" "\<lambda>_. True" "vp_boot ops" for ops iss
  by unfold_locales
    (simp_all add: vp_backend_def vp_construct_def vp_new_def vp_start_of_simulation_def vp_load_elf_def vp_boot_def)

interpretation tlm_cpu: cpu_backend "tlm_backend bank irq_bt getInstructions core" "\<lambda>c. tlm_core c \<noteq> None" "tlm_boot bank"
  for bank irq_bt getInstructions core
  by unfold_locales
    (auto simp: tlm_backend_def cpu_base_has_unified_bus_def tlm_new_def tlm_start_of_simulation_def
      tlm_load_elf_def tlm_boot_def bindR_def split: sum.splits)

section \<open>Lemmas\<close>

text \<open>Where the core stands after the start and after a reset.\<close>

lemma ucast_32: "ucast (ucast (entry :: u64) :: u32) = take_bit 32 entry"
  by (rule bit_word_eqI) (auto simp: bit_simps)

lemma boot_pc:
  "iss_pc_law ops \<Longrightarrow> vp_get_pc ops (vp_boot ops entry c) = take_bit 32 entry"
  "iss_pc_law ops \<Longrightarrow> vp_get_pc ops (vp_reset_cpu ops (vp_boot ops entry c)) = take_bit 32 entry"
  "bank_pc_law bank \<Longrightarrow> tlm_core t \<noteq> None \<Longrightarrow> tlm_get_pc bank (tlm_boot bank entry t) = take_bit 32 entry"
  by (auto simp: vp_get_pc_def vp_boot_def vp_reset_cpu_def iss_pc_law_def tlm_get_pc_def tlm_boot_def bank_pc_law_def
      ucast_32)

text \<open>The bus lock: only its last operation counts, for whichever hart.\<close>

lemma bus_lock:
  "bus_lock_is_locked (bus_lock_lock h l)" "\<not> bus_lock_is_locked (bus_lock_unlock h l)"
  "\<not> bus_lock_is_locked bus_lock_new"
  by (simp_all add: bus_lock_is_locked_def bus_lock_lock_def bus_lock_unlock_def bus_lock_new_def)

text \<open>The quantum the Bremen wrapper leaves is one its ISS accepts, and one of at least 10 ns is kept.\<close>

lemma vp_construct_quantum: "10000 \<le> fst (vp_construct iss gq)" "10000 \<le> gq \<Longrightarrow> fst (vp_construct iss gq) = gq"
  by (auto simp: vp_construct_def quantum_init_def)

end
