(* ===== verification/Platforms.thy ===== *)
theory Platforms
  imports Memory_Map Clint_Tlm Plic_Tlm Cpu_Base
begin

text \<open>
  \<open>platforms\<close>: the address maps the four platforms build with \<open>bus_router\<close>, the bus of
  \<open>riscv_custom_soc\<close> with its RAM, CLINT and PLIC behind the router, and the interrupt path from
  the two controllers to the core. The UART and the I2C controller come from git submodules and
  are parameters, any targets that keep the TLM contract.
\<close>

section \<open>Address maps\<close>

text \<open>The \<open>add_target\<close> calls of the constructors, in order.\<close>

definition mini_tlm_map :: "(u64 \<times> u64) list" where
  "mini_tlm_map = [(0x10000000, 0x1000), (0x10001000, 0x1000), (0x80000000, 0x1000)]"

definition mini_soc_map :: "(u64 \<times> u64) list" where
  "mini_soc_map = [(0x10000000, 0x1000), (0x10010000, 0x1000), (0x80000000, 0x10000)]"

definition riscv_cpu_eval_map :: "(u64 \<times> u64) list" where
  "riscv_cpu_eval_map = [(0x80000000, 0x10000), (0x10000000, 0x1000), (0x10010000, 0x1000)]"

definition riscv_custom_soc_map :: "(u64 \<times> u64) list" where
  "riscv_custom_soc_map = [(0x80000000, 0x10000), (0x10000000, 0x1000), (0x02000000, 0x10000),
     (0x0C000000, 0x400000), (0x10010000, 0x1000)]"

text \<open>The router of a platform: as many sockets as regions; two ports unless the CPU has one bus.\<close>

definition platform_bus :: "(u64 \<times> u64) list \<Rightarrow> bool \<Rightarrow> (bus_router \<times> nat list) res" where
  "platform_bus m unified = add_targets (bus_router_new (length m) (if unified then 1 else 2)) m"

text \<open>The binding of the CPU's sockets to the upstream ports.\<close>

definition bind_cpu :: "bus_router \<Rightarrow> bool \<Rightarrow> cpu_socket list res" where
  "bind_cpu r unified =
     (if unified then bindR (cpu_port r 0) (\<lambda>p. Inr [p])
      else bindR (cpu_port r 0) (\<lambda>i. bindR (cpu_port r 1) (\<lambda>d. Inr [i, d])))"

definition map_ranges :: "(u64 \<times> u64) list \<Rightarrow> address_range list" where
  "map_ranges m = map (\<lambda>(b, sz). \<lparr>range_base = b, range_size = sz\<rparr>) m"

section \<open>The bus of the custom SoC\<close>

record ('u, 'i) custom_soc =
  soc_ram :: memory
  soc_uart :: 'u
  soc_clint :: clint
  soc_plic :: plic
  soc_i2c :: 'i

definition custom_soc_new :: "'u \<Rightarrow> 'i \<Rightarrow> ('u, 'i) custom_soc" where
  "custom_soc_new u i = \<lparr>soc_ram = memory_new 0x10000 False 10000, soc_uart = u, soc_clint = clint_new,
     soc_plic = plic_new 1, soc_i2c = i\<rparr>"

definition custom_soc_targets ::
  "sc_time \<Rightarrow> 'u transport \<Rightarrow> 'i transport \<Rightarrow> ('u, 'i) custom_soc transport list" where
  "custom_soc_targets now uart_bt i2c_bt =
     [on_part soc_ram (\<lambda>m s. s\<lparr>soc_ram := m\<rparr>) memory_b_transport,
      on_part soc_uart (\<lambda>u s. s\<lparr>soc_uart := u\<rparr>) uart_bt,
      on_part soc_clint (\<lambda>c s. s\<lparr>soc_clint := c\<rparr>) (clint_b_transport now),
      on_part soc_plic (\<lambda>c s. s\<lparr>soc_plic := c\<rparr>) plic_b_transport,
      on_part soc_i2c (\<lambda>i s. s\<lparr>soc_i2c := i\<rparr>) i2c_bt]"

definition custom_soc_router :: bus_router where
  "custom_soc_router = (bus_router_new 5 2)\<lparr>ranges := map_ranges riscv_custom_soc_map\<rparr>"

definition custom_soc_b_transport ::
  "sc_time \<Rightarrow> 'u transport \<Rightarrow> 'i transport \<Rightarrow> ('u, 'i) custom_soc transport" where
  "custom_soc_b_transport now uart_bt i2c_bt =
     router_b_transport custom_soc_router (custom_soc_targets now uart_bt i2c_bt)"

definition custom_soc_invar :: "('u \<Rightarrow> bool) \<Rightarrow> ('i \<Rightarrow> bool) \<Rightarrow> ('u, 'i) custom_soc \<Rightarrow> bool" where
  "custom_soc_invar uart_invar i2c_invar s \<longleftrightarrow>
     plic_wf (soc_plic s) \<and> uart_invar (soc_uart s) \<and> i2c_invar (soc_i2c s)"

definition custom_soc_oks :: "(payload \<Rightarrow> bool) \<Rightarrow> (payload \<Rightarrow> bool) \<Rightarrow> (payload \<Rightarrow> bool) list" where
  "custom_soc_oks uart_ok i2c_ok = [wf_payload, uart_ok, clint_ok, wf_payload, i2c_ok]"

section \<open>Lemmas\<close>

text \<open>Regions that pairwise lie apart, in either order.\<close>

definition apart :: "u64 \<times> u64 \<Rightarrow> u64 \<times> u64 \<Rightarrow> bool" where
  "apart x y \<longleftrightarrow> unat (fst x) + unat (snd x) \<le> unat (fst y) \<or> unat (fst y) + unat (snd y) \<le> unat (fst x)"

lemma disjoint_map_ranges:
  assumes "sorted_wrt apart m"
  shows "disjoint_map (map_ranges m)"
  unfolding disjoint_map_def
proof (intro allI impI)
  fix i j assume ij: "i < length (map_ranges m)" "j < length (map_ranges m)" "i \<noteq> j"
  then have "i < length m" "j < length m" by (simp_all add: map_ranges_def)
  moreover from this ij(3) assms have "apart (m ! i) (m ! j) \<or> apart (m ! j) (m ! i)"
    by (metis nat_neq_iff sorted_wrt_nth_less)
  ultimately show "range_addrs (map_ranges m ! i) \<inter> range_addrs (map_ranges m ! j) = {}"
    by (auto simp: map_ranges_def range_addrs_def case_prod_beta apart_def)
qed

lemma maps_apart:
  "sorted_wrt apart mini_tlm_map" "sorted_wrt apart mini_soc_map"
  "sorted_wrt apart riscv_cpu_eval_map" "sorted_wrt apart riscv_custom_soc_map"
  by (simp_all add: mini_tlm_map_def mini_soc_map_def riscv_cpu_eval_map_def riscv_custom_soc_map_def
      apart_def)

lemma platform_bus_eq: "platform_bus m unified =
    Inr ((bus_router_new (length m) (if unified then 1 else 2))\<lparr>ranges := map_ranges m\<rparr>, [0..<length m])"
  using add_targets_from [of "bus_router_new (length m) (if unified then 1 else 2)" m]
  by (simp add: platform_bus_def map_ranges_def bus_router_new_def)

text \<open>Every target of the SoC keeps the contract on the whole state.\<close>

lemma custom_soc_routed:
  assumes "tlm_target uart_bt uart_invar uart_ok" and "tlm_target i2c_bt i2c_invar i2c_ok"
  shows "routed_targets custom_soc_router (custom_soc_targets now uart_bt i2c_bt)
    (custom_soc_invar uart_invar i2c_invar) (custom_soc_oks uart_ok i2c_ok)"
    (is "routed_targets _ _ ?inv _")
proof (rule routed_targets.intro)
  show "length (ranges custom_soc_router) \<le> length (custom_soc_targets now uart_bt i2c_bt)"
    by (simp add: custom_soc_router_def map_ranges_def riscv_custom_soc_map_def custom_soc_targets_def)
next
  fix k assume "k < length (ranges custom_soc_router)"
  then have "k = 0 \<or> k = 1 \<or> k = 2 \<or> k = 3 \<or> k = 4"
    by (auto simp: custom_soc_router_def map_ranges_def riscv_custom_soc_map_def)
  moreover have "tlm_target (on_part soc_ram (\<lambda>m s. s\<lparr>soc_ram := m\<rparr>) memory_b_transport) ?inv wf_payload"
    by (rule on_part_target [OF mem.tlm_target_axioms]) (simp_all add: custom_soc_invar_def)
  moreover have "tlm_target (on_part soc_uart (\<lambda>u s. s\<lparr>soc_uart := u\<rparr>) uart_bt) ?inv uart_ok"
    by (rule on_part_target [OF assms(1)]) (simp_all add: custom_soc_invar_def)
  moreover have "tlm_target (on_part soc_clint (\<lambda>c s. s\<lparr>soc_clint := c\<rparr>) (clint_b_transport now)) ?inv clint_ok"
    by (rule on_part_target [OF clint.tlm_target_axioms]) (simp_all add: custom_soc_invar_def)
  moreover have "tlm_target (on_part soc_plic (\<lambda>c s. s\<lparr>soc_plic := c\<rparr>) plic_b_transport) ?inv wf_payload"
    by (rule on_part_target [OF plic.tlm_target_axioms]) (simp_all add: custom_soc_invar_def)
  moreover have "tlm_target (on_part soc_i2c (\<lambda>i s. s\<lparr>soc_i2c := i\<rparr>) i2c_bt) ?inv i2c_ok"
    by (rule on_part_target [OF assms(2)]) (simp_all add: custom_soc_invar_def)
  ultimately show "tlm_target (custom_soc_targets now uart_bt i2c_bt ! k) ?inv
      (custom_soc_oks uart_ok i2c_ok ! k)"
    by (auto simp: custom_soc_targets_def custom_soc_oks_def)
qed

section \<open>The interrupt path\<close>

text \<open>The controllers call the CPU only with the causes they own.\<close>

lemma irq_level_filter: "irq_level calls c = irq_level (filter (\<lambda>x. fst x = c) calls) c"
  by (simp add: irq_level_def rev_filter)

lemma irq_level_shuffle:
  assumes "calls \<in> shuffles xs ys" and "\<forall>y \<in> set ys. fst y \<noteq> c"
  shows "irq_level calls c = irq_level xs c"
proof -
  have "filter (\<lambda>x. fst x = c) ys = []" using assms(2) by (simp add: filter_empty_conv)
  moreover have "filter (\<lambda>x. fst x = c) calls \<in> shuffles (filter (\<lambda>x. fst x = c) xs) (filter (\<lambda>x. fst x = c) ys)"
    using assms(1) filter_shuffles [of "\<lambda>x. fst x = c" xs ys] by blast
  ultimately have "filter (\<lambda>x. fst x = c) calls = filter (\<lambda>x. fst x = c) xs" by simp
  then show ?thesis using irq_level_filter by metis
qed

definition clint_calls_ok :: "clint \<Rightarrow> bool" where
  "clint_calls_ok c \<longleftrightarrow> (\<forall>x \<in> set (clint_cpu c). fst x \<in> {3, 7}) \<and>
     irq_level (clint_cpu c) 3 = (msip c \<noteq> 0)"

lemma clint_access_calls:
  assumes "clint_b_transport now c p d = Inr (c', p', d')" and "clint_calls_ok c"
  shows "clint_calls_ok c'"
  using assms
  by (auto simp: clint_b_transport_def Let_def bindR_eq_Inr clint_set_irq_def clint_calls_ok_def
      kCauseSoftware_def split: if_splits)

lemma timer_proc_calls: "clint_calls_ok c \<Longrightarrow> clint_calls_ok (timer_proc now c)"
  by (auto simp: timer_proc_def reschedule_def Let_def clint_set_irq_def clint_calls_ok_def kCauseTimer_def)

lemma clint_reachable_calls: "clint_reachable s \<Longrightarrow> clint_calls_ok (sim_clint s)"
proof (induction rule: clint_reachable.induct)
  case start
  show ?case by (simp add: clint_sim_init_def clint_new_def clint_calls_ok_def)
next
  case (step s t)
  from step.hyps(2) step.IH show ?case
    by (cases rule: clint_step.cases) (auto intro: clint_access_calls timer_proc_calls)
qed

definition plic_calls_ok :: "plic \<Rightarrow> bool" where
  "plic_calls_ok c \<longleftrightarrow> (\<forall>x \<in> set (plic_cpu c). fst x = 11)"

lemma update_meip_calls: "update_meip c = Inr c' \<Longrightarrow> plic_calls_ok c \<Longrightarrow> plic_calls_ok c'"
  by (auto simp: update_meip_def bindR_eq_Inr plic_set_irq_def plic_calls_ok_def kCauseExternal_def)

lemma plic_calls_upd [simp]:
  "plic_calls_ok (c\<lparr>priority := x\<rparr>) = plic_calls_ok c" "plic_calls_ok (c\<lparr>claimed := y\<rparr>) = plic_calls_ok c"
  "plic_calls_ok (c\<lparr>enable := z\<rparr>) = plic_calls_ok c" "plic_calls_ok (c\<lparr>threshold := z\<rparr>) = plic_calls_ok c"
  "plic_calls_ok (c\<lparr>irq_in := l\<rparr>) = plic_calls_ok c"
  by (simp_all add: plic_calls_ok_def)

lemma do_claim_calls: "do_claim c = Inr (c', v) \<Longrightarrow> plic_calls_ok c \<Longrightarrow> plic_calls_ok c'"
  by (auto simp: do_claim_def bindR_eq_Inr split: if_splits dest: update_meip_calls)

lemma plic_access_calls:
  "plic_access addr is_read v c = Inr (Some (c', v')) \<Longrightarrow> plic_calls_ok c \<Longrightarrow> plic_calls_ok c'"
  by (auto simp: plic_access_def Let_def bindR_eq_Inr split: if_splits
      dest: update_meip_calls do_claim_calls)

lemma plic_transport_calls:
  "plic_b_transport c p d = Inr (c', p', d') \<Longrightarrow> plic_calls_ok c \<Longrightarrow> plic_calls_ok c'"
  by (auto simp: plic_b_transport_def Let_def bindR_eq_Inr split: if_splits option.splits
      intro: plic_access_calls)

lemma plic_reachable_calls: "plic_reachable n s \<Longrightarrow> plic_calls_ok (sim_plic s)"
proof (induction rule: plic_reachable.induct)
  case start
  show ?case by (simp add: plic_new_def plic_calls_ok_def)
next
  case (step s t)
  from step.hyps(2) step.IH show ?case
    by (cases rule: plic_step.cases)
      (auto simp: on_sources_def intro: plic_transport_calls update_meip_calls)
qed

text \<open>What is right about the wiring of a platform's router.\<close>

definition platform_wired :: "bool \<Rightarrow> (u64 \<times> u64) list \<Rightarrow> bool" where
  "platform_wired unified m \<longleftrightarrow> (case platform_bus m unified of Inl e \<Rightarrow> False
     | Inr (r, socks) \<Rightarrow> socks = [0..<length m] \<and> ranges r = map_ranges m \<and> disjoint_map (ranges r) \<and>
         list_all ends_in_space (ranges r) \<and>
         bind_cpu r unified = Inr (if unified then [Target_socket] else [Target_socket, Extra_port 0]))"

section \<open>Properties\<close>

text \<open>
  The address maps. With one or two CPU buses, the constructors of the four platforms map all
  their targets without running out of sockets, each to a socket of its own, in the order of the
  calls; the regions are pairwise disjoint and end in the address space, so every address has at
  most one target; and the CPU's buses find an upstream port each.
\<close>

lemma platform_maps_wired:
  "list_all (platform_wired unified)
     [mini_tlm_map, mini_soc_map, riscv_cpu_eval_map, riscv_custom_soc_map]"
proof -
  have "platform_wired unified m" if "sorted_wrt apart m" "list_all ends_in_space (map_ranges m)" for m
    using disjoint_map_ranges [OF that(1)] that(2)
    by (simp add: platform_wired_def platform_bus_eq bind_cpu_def cpu_port_def bus_router_new_def)
  from this [OF maps_apart(1)] this [OF maps_apart(2)] this [OF maps_apart(3)] this [OF maps_apart(4)]
  show ?thesis
    by (simp add: map_ranges_def ends_in_space_def mini_tlm_map_def mini_soc_map_def
        riscv_cpu_eval_map_def riscv_custom_soc_map_def)
qed

text \<open>
  C29: no traffic breaks the custom SoC. For any UART and I2C controller that keep the TLM
  contract, every sequence of transactions on the SoC's bus, each acceptable to the target its
  address selects, is answered to its end, with a response set for each, and the SoC stays
  well-formed.
\<close>

theorem custom_soc_traffic_returns:
  assumes "tlm_target uart_bt uart_invar uart_ok" and "tlm_target i2c_bt i2c_invar i2c_ok"
    and "custom_soc_invar uart_invar i2c_invar s"
    and "\<forall>p \<in> set ps. router_ok custom_soc_router (custom_soc_oks uart_ok i2c_ok) p"
  shows "\<exists>s' rs. run_transport (custom_soc_b_transport now uart_bt i2c_bt) ps s = Inr (s', rs) \<and>
    custom_soc_invar uart_invar i2c_invar s' \<and> length rs = length ps \<and>
    TLM_INCOMPLETE_RESPONSE \<notin> set rs"
proof -
  have "tlm_target (custom_soc_b_transport now uart_bt i2c_bt) (custom_soc_invar uart_invar i2c_invar)
      (router_ok custom_soc_router (custom_soc_oks uart_ok i2c_ok))"
    unfolding custom_soc_b_transport_def
    by (rule tlm_targetI) (rule routed_targets.router_good_outcome [OF custom_soc_routed [OF assms(1,2)]])
  from tlm_target.run_transport_returns [OF this assms(3,4)] show ?thesis .
qed

theorem custom_soc_traffic_returns_witness:
  "\<exists>s' rs. run_transport (custom_soc_b_transport 0 memory_b_transport memory_b_transport)
     [fill TLM_WRITE_COMMAND 0x10000000 (Some [72]) 1, fill TLM_READ_COMMAND 0x0C200004 (Some [0, 0, 0, 0]) 4]
     (custom_soc_new (memory_new 4096 False 0) (memory_new 4096 False 0)) = Inr (s', rs) \<and> length rs = 2"
proof -
  let ?ps = "[fill TLM_WRITE_COMMAND 0x10000000 (Some [72]) 1,
    fill TLM_READ_COMMAND 0x0C200004 (Some [0, 0, 0, 0]) 4]"
  have "custom_soc_invar (\<lambda>_. True) (\<lambda>_. True) (custom_soc_new (memory_new 4096 False 0) (memory_new 4096 False 0))"
    using plic_new_wf [of 1] by (simp add: custom_soc_invar_def custom_soc_new_def)
  moreover have "\<forall>p \<in> set ?ps. router_ok custom_soc_router (custom_soc_oks wf_payload wf_payload) p"
    by (simp add: router_ok_def Let_def decode_def custom_soc_router_def map_ranges_def
        riscv_custom_soc_map_def contains_def custom_soc_oks_def wf_payload_def)
  ultimately show ?thesis
    using custom_soc_traffic_returns [OF mem.tlm_target_axioms mem.tlm_target_axioms, of _ ?ps 0] by fastforce
qed

text \<open>
  C3: the interrupts reach the core. Take the wrapper around an ISS whose pending bits behave as
  documented, a CLINT and a PLIC with at most 31 sources in any reachable states, settled, and
  any interleaving of the calls the two made on the CPU. Then the core's software bit is the
  CLINT's \<open>msip\<close>, its timer bit is set iff the compare value is not zero and has been reached,
  and its external bit iff some source is a candidate of the PLIC.
\<close>

theorem interrupts_reach_core:
  assumes "iss_levels ops mip" and "\<forall>c. \<not> mip (vp_iss cpu) c"
    and "clint_reachable cs" and "clint_settled cs"
    and "plic_reachable n ps" and "unat n \<le> 31" and "\<not> lines_changed ps"
    and "calls \<in> shuffles (clint_cpu (sim_clint cs)) (plic_cpu (sim_plic ps))"
  defines "core \<equiv> mip (vp_iss (replay (vp_set_irq ops) calls cpu))"
  shows "(core 3 \<longleftrightarrow> msip (sim_clint cs) \<noteq> 0) \<and>
    (core 7 \<longleftrightarrow> mtimecmp (sim_clint cs) \<noteq> 0 \<and> now_mtime (sim_now cs) \<ge> mtimecmp (sim_clint cs)) \<and>
    (core 11 \<longleftrightarrow> any_candidate (sim_plic ps))"
proof -
  have core: "core c = irq_level calls c" if "c \<in> {3, 7, 11}" for c
    using vp_replay_pending [OF assms(1) that] assms(2) by (simp add: core_def)
  have cl: "\<forall>x \<in> set (clint_cpu (sim_clint cs)). fst x \<in> {3, 7}"
    "irq_level (clint_cpu (sim_clint cs)) 3 = (msip (sim_clint cs) \<noteq> 0)"
    using clint_reachable_calls [OF assms(3)] by (simp_all add: clint_calls_ok_def)
  have pl: "\<forall>x \<in> set (plic_cpu (sim_plic ps)). fst x = 11"
    using plic_reachable_calls [OF assms(5)] by (simp add: plic_calls_ok_def)
  have "irq_level calls c = irq_level (clint_cpu (sim_clint cs)) c" if "c \<in> {3, 7}" for c
    using assms(8) by (rule irq_level_shuffle) (use pl that in auto)
  moreover have "irq_level calls 11 = irq_level (plic_cpu (sim_plic ps)) 11"
    using assms(8) shuffles_commutes by (intro irq_level_shuffle) (use cl in auto)
  moreover have "mtip (sim_clint cs) = irq_level (clint_cpu (sim_clint cs)) 7"
    "meip (sim_plic ps) = irq_level (plic_cpu (sim_plic ps)) 11"
    by (simp_all add: mtip_def meip_def kCauseTimer_def kCauseExternal_def)
  moreover have "meip (sim_plic ps) = any_candidate (sim_plic ps)"
    using plic_reachable_invar [OF assms(5,6)] assms(7) by (simp add: coherent_def)
  ultimately show ?thesis
    using core cl(2) clint_invar_settled [OF clint_reachable_invar [OF assms(3)] assms(4)] by simp
qed

theorem interrupts_reach_core_witness:
  "fst (vp_iss (replay (vp_set_irq bit_iss) (clint_cpu (timer_proc 100000000
     (timer_proc 0 (clint_new\<lparr>mtimecmp := 100, cmp_event := Some Delta\<rparr>)))) (vp_new (\<lambda>_. False, 0)))) 7"
proof -
  let ?c = "timer_proc 100000000 (timer_proc 0 (clint_new\<lparr>mtimecmp := 100, cmp_event := Some Delta\<rparr>))"
  let ?s = "\<lparr>sim_now = 100000000, sim_clint = ?c\<rparr>"
  have st: "clint_settled ?s"
    by (simp add: clint_settled_def timer_proc_eq now_mtime_def kScaler_def)
  have "clint_cpu ?c \<in> shuffles (clint_cpu (sim_clint ?s))
      (plic_cpu (sim_plic \<lparr>sim_plic = plic_new 1, lines_changed = False\<rparr>))"
    by (simp add: plic_new_def)
  from interrupts_reach_core [OF bit_iss_laws(1) _ clint_fired_reachable st plic_reachable.start _ _ this,
      of "vp_new (\<lambda>_. False, 0)"]
  show ?thesis by (simp add: vp_new_def timer_proc_eq now_mtime_def kScaler_def)
qed

end
