(* ===== verification/Cpu_Stubs.thy ===== *)
theory Cpu_Stubs
  imports Platforms
begin

text \<open>
  The two small platforms whose CPU is a program in C++: \<open>platforms/mini_tlm\<close> and
  \<open>platforms/mini_soc\<close>. Both put a UART, a device that interrupts (a timer or the I2C controller)
  and a RAM behind the router and run \<open>cpu_stub::run\<close>. The UART and the devices are git submodules
  and so parameters; the theorems say what they rely on.
\<close>

section \<open>The platforms\<close>

record ('u, 'd) mini =
  mini_uart :: 'u
  mini_dev :: 'd
  mini_ram :: memory

definition mini_targets :: "'u transport \<Rightarrow> 'd transport \<Rightarrow> ('u, 'd) mini transport list" where
  "mini_targets uart_bt dev_bt =
     [on_part mini_uart (\<lambda>u s. s\<lparr>mini_uart := u\<rparr>) uart_bt,
      on_part mini_dev (\<lambda>d s. s\<lparr>mini_dev := d\<rparr>) dev_bt,
      on_part mini_ram (\<lambda>m s. s\<lparr>mini_ram := m\<rparr>) memory_b_transport]"

definition mini_router :: "(u64 \<times> u64) list \<Rightarrow> bus_router" where
  "mini_router m = (bus_router_new 3 1)\<lparr>ranges := map_ranges m\<rparr>"

definition mini_tlm_b_transport :: "'u transport \<Rightarrow> 'd transport \<Rightarrow> ('u, 'd) mini transport" where
  "mini_tlm_b_transport uart_bt timer_bt =
     router_b_transport (mini_router mini_tlm_map) (mini_targets uart_bt timer_bt)"

definition mini_soc_b_transport :: "'u transport \<Rightarrow> 'd transport \<Rightarrow> ('u, 'd) mini transport" where
  "mini_soc_b_transport uart_bt i2c_bt =
     router_b_transport (mini_router mini_soc_map) (mini_targets uart_bt i2c_bt)"

definition mini_tlm_new :: "'u \<Rightarrow> 'd \<Rightarrow> ('u, 'd) mini" where
  "mini_tlm_new u d = \<lparr>mini_uart = u, mini_dev = d, mini_ram = memory_new 0x1000 False 10000\<rparr>"

definition mini_soc_new :: "'u \<Rightarrow> 'd \<Rightarrow> ('u, 'd) mini" where
  "mini_soc_new u d = \<lparr>mini_uart = u, mini_dev = d, mini_ram = memory_new 0x10000 False 10000\<rparr>"

section \<open>The programs\<close>

definition kUartBase :: u64 where "kUartBase = 0x10000000"
definition kTimerBase :: u64 where "kTimerBase = 0x10001000"
definition ki2cBase :: u64 where "ki2cBase = 0x10010000"
definition kRamBase :: u64 where "kRamBase = 0x80000000"
definition kPattern :: u32 where "kPattern = 0xCAFEBABE"

text \<open>A string literal without its terminating zero, and the bytes sent for it.\<close>

definition line :: "string \<Rightarrow> string" where
  "line str = str @ [CHR 0x0A]"

definition ascii :: "string \<Rightarrow> u8 list" where
  "ascii str = map of_char str"

fun write_uart :: "'s transport \<Rightarrow> u64 \<Rightarrow> string \<Rightarrow> 's \<Rightarrow> 's res" where
  "write_uart bt base [] s = Inr s"
| "write_uart bt base (c # str) s = bindR (write8 bt base (of_char c) s) (write_uart bt base str)"

definition ram_check :: "'s transport \<Rightarrow> 's \<Rightarrow> 's res" where
  "ram_check bt s =
     bindR (write32 bt kRamBase kPattern s) (\<lambda>s.
     bindR (read32 bt kRamBase s) (\<lambda>(s, v).
     if v \<noteq> kPattern then Inl (Runtime_error ''RAM read-back mismatch'') else Inr s))"

text \<open>\<open>run\<close> up to its \<open>wait\<close> for the interrupt, and after it.\<close>

definition mini_tlm_run1 :: "'s transport \<Rightarrow> 's \<Rightarrow> 's res" where
  "mini_tlm_run1 bt s =
     bindR (write_uart bt kUartBase (line ''Hello from mini VP'') s) (\<lambda>s.
     bindR (ram_check bt s) (write32 bt kTimerBase 1))"

definition mini_tlm_run2 :: "'s transport \<Rightarrow> 's \<Rightarrow> 's res" where
  "mini_tlm_run2 bt s = write_uart bt kUartBase (line ''Timer IRQ fired at 10ms'') s"

text \<open>The stub of \<open>mini_soc\<close> has bus accesses of its own.\<close>

definition soc_write8 :: "'s transport \<Rightarrow> u64 \<Rightarrow> u8 \<Rightarrow> 's \<Rightarrow> 's res" where
  "soc_write8 bt addr v s =
     bindR (bt s (fill TLM_WRITE_COMMAND addr (Some [v]) 1) 0) (\<lambda>(s, trans, delay).
     if is_response_error trans then Inl (Runtime_error ''UART write failed'') else Inr s)"

definition soc_write32 :: "'s transport \<Rightarrow> u64 \<Rightarrow> u32 \<Rightarrow> 's \<Rightarrow> 's res" where
  "soc_write32 bt addr v s =
     bindR (bt s (fill TLM_WRITE_COMMAND addr (Some (le_bytes 4 v)) 4) 0) (\<lambda>(s, trans, delay).
     if is_response_error trans then Inl (Runtime_error ''word write failed'') else Inr s)"

definition soc_read32 :: "'s transport \<Rightarrow> u64 \<Rightarrow> 's \<Rightarrow> ('s \<times> u32) res" where
  "soc_read32 bt addr s =
     bindR (bt s (fill TLM_READ_COMMAND addr (Some [0, 0, 0, 0]) 4) 0) (\<lambda>(s, trans, delay).
     if is_response_error trans then Inl (Runtime_error ''word read failed'')
     else bindR (ptr_load trans 4) (\<lambda>bytes. Inr (s, le_word bytes)))"

fun soc_write_uart :: "'s transport \<Rightarrow> string \<Rightarrow> 's \<Rightarrow> 's res" where
  "soc_write_uart bt [] s = Inr s"
| "soc_write_uart bt (ch # cursor) s = bindR (soc_write8 bt kUartBase (of_char ch) s) (soc_write_uart bt cursor)"

definition mini_soc_run1 :: "'s transport \<Rightarrow> 's \<Rightarrow> 's res" where
  "mini_soc_run1 bt s =
     bindR (soc_write_uart bt (line ''Hello from mini SoC '') s) (\<lambda>s.
     bindR (soc_write32 bt kRamBase kPattern s) (\<lambda>s.
     bindR (soc_read32 bt kRamBase s) (\<lambda>(s, v).
     if v \<noteq> kPattern then Inl (Runtime_error ''RAM read-back mismatch'')
     else bindR (soc_write32 bt (ki2cBase + 0x4C) 1 s) (\<lambda>s.
          bindR (soc_write32 bt (ki2cBase + 0x00) 1 s) (soc_write32 bt (ki2cBase + 0x04) 1)))))"

definition mini_soc_run2 :: "'s transport \<Rightarrow> 's \<Rightarrow> 's res" where
  "mini_soc_run2 bt s = soc_write_uart bt (line ''I2C IRQ fired'') s"

text \<open>
  What the programs rely on of the UART: a byte written to its first register is accepted and
  sent.
\<close>

definition uart_sends :: "'u transport \<Rightarrow> ('u \<Rightarrow> u8 list) \<Rightarrow> bool" where
  "uart_sends bt out \<longleftrightarrow> (\<forall>u b. \<exists>u'. write8 bt 0 b u = Inr u' \<and> out u' = out u @ [b])"

section \<open>Lemmas\<close>

lemma ascii_append: "ascii (xs @ ys) = ascii xs @ ascii ys"
  by (simp add: ascii_def)

text \<open>The two stubs access the bus alike.\<close>

lemma soc_accesses_alike [simp]: "soc_write8 = write8" "soc_write32 = write32" "soc_read32 = read32"
  by (simp_all add: fun_eq_iff soc_write8_def write8_def soc_write32_def write32_def soc_read32_def read32_def)

lemma soc_write_uart_alike [simp]: "soc_write_uart bt str s = write_uart bt kUartBase str s"
  by (induction str arbitrary: s) (simp_all add: bindR_def split: sum.split)

lemma mini_soc_run1_eq:
  "mini_soc_run1 bt s =
     bindR (write_uart bt kUartBase (line ''Hello from mini SoC '') s) (\<lambda>s.
     bindR (ram_check bt s) (\<lambda>s.
     bindR (write32 bt (ki2cBase + 0x4C) 1 s) (\<lambda>s.
     bindR (write32 bt (ki2cBase + 0x00) 1 s) (write32 bt (ki2cBase + 0x04) 1))))"
  by (auto simp: mini_soc_run1_def ram_check_def bindR_def split: sum.splits)

text \<open>The accesses of a stub through the router are accesses of the target, at the local address.\<close>

lemma routed_accesses:
  assumes "decode r a = int k" and "k < length targets"
  shows "write8 (router_b_transport r targets) a v s = write8 (targets ! k) (a - range_base (ranges r ! k)) v s"
    and "write32 (router_b_transport r targets) a w s = write32 (targets ! k) (a - range_base (ranges r ! k)) w s"
    and "read32 (router_b_transport r targets) a s = read32 (targets ! k) (a - range_base (ranges r ! k)) s"
  using assms
  by (auto simp: write8_def write32_def read32_def router_transport_hit fill_address is_response_error_def ptr_load_def
      bindR_def split: sum.splits prod.splits)

lemma part_accesses:
  "write8 (on_part get put bt) a v s = bindR (write8 bt a v (get s)) (\<lambda>t. Inr (put t s))"
  "write32 (on_part get put bt) a w s = bindR (write32 bt a w (get s)) (\<lambda>t. Inr (put t s))"
  "read32 (on_part get put bt) a s = bindR (read32 bt a (get s)) (\<lambda>(t, x). Inr (put t s, x))"
  by (auto simp: write8_def write32_def read32_def on_part_def is_response_error_def ptr_load_def
      bindR_def split: sum.splits prod.splits)

text \<open>Words in a RAM.\<close>

lemma memory_word:
  fixes v :: u32
  assumes "unat a + 4 \<le> memory_size m" and "\<not> mem_read_only m"
  defines "m' \<equiv> m\<lparr>mem_data := take (unat a) (mem_data m) @ le_bytes 4 v @ drop (unat a + 4) (mem_data m)\<rparr>"
  shows "write32 memory_b_transport a v m = Inr m'" and "read32 memory_b_transport a m' = Inr (m', v)"
proof -
  show "write32 memory_b_transport a v m = Inr m'"
    using assms by (simp add: write32_def memory_b_transport_def Let_def ptr_load_def memcpy_to_def
        memory_size_def is_response_error_def)
  have "memory_size m' = memory_size m" using assms(1) by (simp add: m'_def memory_size_def)
  moreover have "memcpy_from (mem_data m') (unat a) 4 = Inr (le_bytes 4 v)"
    using assms(1) by (simp add: m'_def memcpy_from_def memory_size_def)
  ultimately show "read32 memory_b_transport a m' = Inr (m', v)"
    using assms(1) by (simp add: read32_def memory_b_transport_def Let_def ptr_load_def ptr_store_def
        is_response_error_def)
qed

lemma write_uart_sends:
  assumes "uart_sends bt out"
  shows "\<exists>u'. write_uart bt 0 str u = Inr u' \<and> out u' = out u @ ascii str"
proof (induction str arbitrary: u)
  case Nil
  show ?case by (simp add: ascii_def)
next
  case (Cons c str)
  obtain u1 where "write8 bt 0 (of_char c) u = Inr u1" "out u1 = out u @ [of_char c]"
    using assms by (auto simp: uart_sends_def)
  with Cons.IH [of u1] show ?case by (auto simp: ascii_def)
qed

text \<open>The accesses of the two programs, on the parts of the platform.\<close>

lemma mini_decode:
  "decode (mini_router mini_tlm_map) kUartBase = 0" "decode (mini_router mini_tlm_map) kTimerBase = 1"
  "decode (mini_router mini_tlm_map) kRamBase = 2"
  "decode (mini_router mini_soc_map) kUartBase = 0" "decode (mini_router mini_soc_map) kRamBase = 2"
  "a < 0x1000 \<Longrightarrow> decode (mini_router mini_soc_map) (ki2cBase + a) = 1"
proof -
  show "decode (mini_router mini_soc_map) (ki2cBase + a) = 1" if "a < 0x1000"
  proof -
    have "unat a < 0x1000" using that by (simp add: word_less_nat_alt)
    then show ?thesis
      by (simp add: decode_def mini_router_def map_ranges_def mini_soc_map_def contains_iff range_addrs_def
          ends_in_space_def ki2cBase_def unat_add_u64)
  qed
qed (simp_all add: decode_def mini_router_def map_ranges_def mini_tlm_map_def mini_soc_map_def contains_def
    kUartBase_def kTimerBase_def kRamBase_def)

lemma mini_bases [simp]:
  "range_base (ranges (mini_router mini_tlm_map) ! 0) = kUartBase"
  "range_base (ranges (mini_router mini_tlm_map) ! Suc 0) = kTimerBase"
  "range_base (ranges (mini_router mini_tlm_map) ! 2) = kRamBase"
  "range_base (ranges (mini_router mini_soc_map) ! 0) = kUartBase"
  "range_base (ranges (mini_router mini_soc_map) ! Suc 0) = ki2cBase"
  "range_base (ranges (mini_router mini_soc_map) ! 2) = kRamBase"
  by (simp_all add: mini_router_def map_ranges_def mini_tlm_map_def mini_soc_map_def kUartBase_def
      kTimerBase_def ki2cBase_def kRamBase_def)

lemma mini_tlm_accesses:
  "write8 (mini_tlm_b_transport u d) kUartBase v s = bindR (write8 u 0 v (mini_uart s)) (\<lambda>t. Inr (s\<lparr>mini_uart := t\<rparr>))"
  "write32 (mini_tlm_b_transport u d) kTimerBase w s = bindR (write32 d 0 w (mini_dev s)) (\<lambda>t. Inr (s\<lparr>mini_dev := t\<rparr>))"
  "write32 (mini_tlm_b_transport u d) kRamBase w s =
     bindR (write32 memory_b_transport 0 w (mini_ram s)) (\<lambda>t. Inr (s\<lparr>mini_ram := t\<rparr>))"
  "read32 (mini_tlm_b_transport u d) kRamBase s =
     bindR (read32 memory_b_transport 0 (mini_ram s)) (\<lambda>(t, x). Inr (s\<lparr>mini_ram := t\<rparr>, x))"
  by (simp_all add: mini_tlm_b_transport_def mini_targets_def part_accesses
      routed_accesses [where k = 0] routed_accesses [where k = 1] routed_accesses [where k = 2] mini_decode)

lemma mini_soc_accesses:
  "write8 (mini_soc_b_transport u d) kUartBase v s = bindR (write8 u 0 v (mini_uart s)) (\<lambda>t. Inr (s\<lparr>mini_uart := t\<rparr>))"
  "a < 0x1000 \<Longrightarrow> write32 (mini_soc_b_transport u d) (ki2cBase + a) w s =
     bindR (write32 d a w (mini_dev s)) (\<lambda>t. Inr (s\<lparr>mini_dev := t\<rparr>))"
  "write32 (mini_soc_b_transport u d) kRamBase w s =
     bindR (write32 memory_b_transport 0 w (mini_ram s)) (\<lambda>t. Inr (s\<lparr>mini_ram := t\<rparr>))"
  "read32 (mini_soc_b_transport u d) kRamBase s =
     bindR (read32 memory_b_transport 0 (mini_ram s)) (\<lambda>(t, x). Inr (s\<lparr>mini_ram := t\<rparr>, x))"
  by (simp_all add: mini_soc_b_transport_def mini_targets_def part_accesses
      routed_accesses [where k = 0] routed_accesses [where k = 1] routed_accesses [where k = 2] mini_decode)

lemma write_uart_part:
  assumes "\<And>v s. write8 bt base v s = bindR (write8 u 0 v (get s)) (\<lambda>t. Inr (put t s))"
    and "\<And>t s. get (put t s) = t" and "\<And>t t' s. put t' (put t s) = put t' s" and "\<And>s. put (get s) s = s"
  shows "write_uart bt base str s = bindR (write_uart u 0 str (get s)) (\<lambda>t. Inr (put t s))"
proof (induction str arbitrary: s)
  case Nil
  show ?case by (simp add: assms)
next
  case (Cons c str)
  then show ?case by (cases "write8 u 0 (of_char c) (get s)") (simp_all add: assms)
qed

text \<open>The RAM after the check: the pattern in its first word.\<close>

definition patterned :: "memory \<Rightarrow> memory" where
  "patterned m = m\<lparr>mem_data := le_bytes 4 kPattern @ drop 4 (mem_data m)\<rparr>"

lemma ram_check_passes:
  assumes "\<And>w s. write32 bt kRamBase w s =
      bindR (write32 memory_b_transport 0 w (mini_ram s)) (\<lambda>t. Inr (s\<lparr>mini_ram := t\<rparr>))"
    and "\<And>s. read32 bt kRamBase s =
      bindR (read32 memory_b_transport 0 (mini_ram s)) (\<lambda>(t, x). Inr (s\<lparr>mini_ram := t\<rparr>, x))"
    and "4 \<le> memory_size (mini_ram s)" and "\<not> mem_read_only (mini_ram s)"
  shows "ram_check bt s = Inr (s\<lparr>mini_ram := patterned (mini_ram s)\<rparr>)"
  using memory_word [of 0 "mini_ram s" kPattern] assms by (simp add: ram_check_def patterned_def)

section \<open>Properties\<close>

text \<open>
  The program of \<open>mini_tlm\<close>. On a UART that sends what it is given and a timer that accepts its
  start, \<open>run\<close> reaches its \<open>wait\<close> without an exception: the greeting has been sent, the RAM holds
  the pattern in its first word and is otherwise unchanged, the timer has been started. Whenever
  the interrupt wakes it, it sends its last line.
\<close>

lemma mini_tlm_runs:
  assumes "uart_sends uart_bt out" and "write32 timer_bt 0 1 (mini_dev s) = Inr dev'"
    and "memory_size (mini_ram s) = 0x1000" and "\<not> mem_read_only (mini_ram s)"
  shows "(\<exists>u'. mini_tlm_run1 (mini_tlm_b_transport uart_bt timer_bt) s =
      Inr (s\<lparr>mini_uart := u', mini_ram := patterned (mini_ram s), mini_dev := dev'\<rparr>) \<and>
      out u' = out (mini_uart s) @ ascii (line ''Hello from mini VP'')) \<and>
    (\<exists>u'. mini_tlm_run2 (mini_tlm_b_transport uart_bt timer_bt) t = Inr (t\<lparr>mini_uart := u'\<rparr>) \<and>
      out u' = out (mini_uart t) @ ascii (line ''Timer IRQ fired at 10ms''))"
proof -
  let ?bt = "mini_tlm_b_transport uart_bt timer_bt"
  have uart: "write_uart ?bt kUartBase str s = bindR (write_uart uart_bt 0 str (mini_uart s)) (\<lambda>t. Inr (s\<lparr>mini_uart := t\<rparr>))"
    for str s by (rule write_uart_part) (simp_all add: mini_tlm_accesses)
  have ram: "ram_check ?bt s' = Inr (s'\<lparr>mini_ram := patterned (mini_ram s')\<rparr>)" if "mini_ram s' = mini_ram s" for s'
    using assms(3,4) that by (intro ram_check_passes) (simp_all add: mini_tlm_accesses)
  show ?thesis
    using write_uart_sends [OF assms(1), of "line ''Hello from mini VP''" "mini_uart s"]
      write_uart_sends [OF assms(1), of "line ''Timer IRQ fired at 10ms''" "mini_uart t"] assms(2)
    by (auto simp: mini_tlm_run1_def mini_tlm_run2_def uart ram mini_tlm_accesses)
qed

text \<open>A UART that is the list of the bytes it has sent, and a device that accepts every word.\<close>

definition uart_sink :: "u8 list transport" where
  "uart_sink u p d = bindR (ptr_load p 1) (\<lambda>bs. Inr (u @ bs, p\<lparr>response_status := TLM_OK_RESPONSE\<rparr>, d))"

lemma uart_sink_sends: "uart_sends uart_sink id"
  by (simp add: uart_sends_def write8_def uart_sink_def ptr_load_def is_response_error_def)

definition word_sink :: "u32 list transport" where
  "word_sink ws p d = bindR (ptr_load p 4) (\<lambda>bs. Inr (ws @ [le_word bs], p\<lparr>response_status := TLM_OK_RESPONSE\<rparr>, d))"

lemma word_sink_write: "write32 word_sink a w ws = Inr (ws @ [w])"
  by (simp add: write32_def word_sink_def ptr_load_def is_response_error_def)

text \<open>
  The program of \<open>mini_soc\<close>. The same with the I2C controller: the program enables its interrupt
  and the block and starts a transfer, in this order, provided the controller accepts the three
  writes.
\<close>

lemma mini_soc_runs:
  assumes "uart_sends uart_bt out" and "write32 i2c_bt 0x4C 1 (mini_dev s) = Inr d1"
    and "write32 i2c_bt 0x00 1 d1 = Inr d2" and "write32 i2c_bt 0x04 1 d2 = Inr d3"
    and "memory_size (mini_ram s) = 0x10000" and "\<not> mem_read_only (mini_ram s)"
  shows "(\<exists>u'. mini_soc_run1 (mini_soc_b_transport uart_bt i2c_bt) s =
      Inr (s\<lparr>mini_uart := u', mini_ram := patterned (mini_ram s), mini_dev := d3\<rparr>) \<and>
      out u' = out (mini_uart s) @ ascii (line ''Hello from mini SoC '')) \<and>
    (\<exists>u'. mini_soc_run2 (mini_soc_b_transport uart_bt i2c_bt) t = Inr (t\<lparr>mini_uart := u'\<rparr>) \<and>
      out u' = out (mini_uart t) @ ascii (line ''I2C IRQ fired''))"
proof -
  let ?bt = "mini_soc_b_transport uart_bt i2c_bt"
  have uart: "write_uart ?bt kUartBase str s = bindR (write_uart uart_bt 0 str (mini_uart s)) (\<lambda>t. Inr (s\<lparr>mini_uart := t\<rparr>))"
    for str s by (rule write_uart_part) (simp_all add: mini_soc_accesses)
  have ram: "ram_check ?bt s' = Inr (s'\<lparr>mini_ram := patterned (mini_ram s')\<rparr>)" if "mini_ram s' = mini_ram s" for s'
    using assms(5,6) that by (intro ram_check_passes) (simp_all add: mini_soc_accesses)
  note i2c = mini_soc_accesses(2) [of "0x4C", simplified] mini_soc_accesses(2) [of 0, simplified]
    mini_soc_accesses(2) [of 4, simplified]
  show ?thesis
    using write_uart_sends [OF assms(1), of "line ''Hello from mini SoC ''" "mini_uart s"]
      write_uart_sends [OF assms(1), of "line ''I2C IRQ fired''" "mini_uart t"] assms(2-4)
    by (auto simp: mini_soc_run1_eq mini_soc_run2_def uart ram i2c)
qed

end
