(* ===== verification/Firmware.thy ===== *)
theory Firmware
  imports Cpu_Stubs
begin

text \<open>
  \<open>fw/soc_irq_riscv\<close>: the firmware that takes a timer interrupt from the CLINT and an external
  interrupt from the I2C controller through the PLIC, running on the bus of \<open>riscv_custom_soc\<close>.
  A volatile access is one transaction of its width on the data bus, the transaction of the CPU
  stubs; a bus error ends the run. The hart is its control and status registers, with the meaning
  the RISC-V privileged specification gives them; its interrupt inputs are the levels the two
  controllers drive.
\<close>

section \<open>Registers and state\<close>

definition UART_TX :: u64 where "UART_TX = 0x10000000"
definition CLINT_MTIMECMP_LO :: u64 where "CLINT_MTIMECMP_LO = 0x02004000"
definition CLINT_MTIMECMP_HI :: u64 where "CLINT_MTIMECMP_HI = 0x02004004"
definition CLINT_MTIME_LO :: u64 where "CLINT_MTIME_LO = 0x0200BFF8"
definition CLINT_MTIME_HI :: u64 where "CLINT_MTIME_HI = 0x0200BFFC"
definition PLIC_PRIORITY1 :: u64 where "PLIC_PRIORITY1 = 0x0C000004"
definition PLIC_ENABLE :: u64 where "PLIC_ENABLE = 0x0C002000"
definition PLIC_THRESHOLD :: u64 where "PLIC_THRESHOLD = 0x0C200000"
definition PLIC_CLAIM :: u64 where "PLIC_CLAIM = 0x0C200004"
definition I2C_IER :: u64 where "I2C_IER = 0x10010000"
definition I2C_ICTLR :: u64 where "I2C_ICTLR = 0x10010004"
definition I2C_IIER :: u64 where "I2C_IIER = 0x1001004C"
definition I2C_IICR :: u64 where "I2C_IICR = 0x10010050"

definition MIE_MTIE :: u32 where "MIE_MTIE = push_bit 7 1"
definition MIE_MEIE :: u32 where "MIE_MEIE = push_bit 11 1"
definition MSTATUS_MIE :: u32 where "MSTATUS_MIE = push_bit 3 1"

text \<open>
  Where the program is: before or in the initialisation, in the loop that waits for both flags,
  or parked; and outside the handler, or in it with the claimed id, before or after the service
  of the source. \<open>fw_lines\<close> says that \<open>on_sources\<close> is due because a line has changed.
\<close>

datatype main_point = Booting | Waiting | Parked
datatype trap_point = No_trap | Claimed u32 | Serviced u32

record ('u, 'i) soc_fw =
  fw_soc :: "('u, 'i) custom_soc"
  fw_now :: sc_time
  fw_lines :: bool
  csr_mie :: u32
  csr_mstatus :: u32
  csr_mtvec :: bool
  timer_done :: int
  ext_done :: int
  fw_main :: main_point
  fw_trap :: trap_point

definition fw_boot :: "'u \<Rightarrow> 'i \<Rightarrow> ('u, 'i) soc_fw" where
  "fw_boot u i = \<lparr>fw_soc = custom_soc_new u i, fw_now = 0, fw_lines = False, csr_mie = 0,
     csr_mstatus = 0, csr_mtvec = False, timer_done = 0, ext_done = 0, fw_main = Booting, fw_trap = No_trap\<rparr>"

text \<open>The hart's access to the bus, at the current time.\<close>

definition on_bus :: "'u transport \<Rightarrow> 'i transport \<Rightarrow>
    (('u, 'i) custom_soc transport \<Rightarrow> ('u, 'i) custom_soc \<Rightarrow> ('u, 'i) custom_soc res) \<Rightarrow>
    ('u, 'i) soc_fw \<Rightarrow> ('u, 'i) soc_fw res" where
  "on_bus U I acc s = bindR (acc (custom_soc_b_transport (fw_now s) U I) (fw_soc s)) (\<lambda>t. Inr (s\<lparr>fw_soc := t\<rparr>))"

definition fw_store :: "'u transport \<Rightarrow> 'i transport \<Rightarrow> u64 \<Rightarrow> u32 \<Rightarrow> ('u, 'i) soc_fw \<Rightarrow> ('u, 'i) soc_fw res" where
  "fw_store U I a v = on_bus U I (\<lambda>bt. write32 bt a v)"

definition fw_load :: "'u transport \<Rightarrow> 'i transport \<Rightarrow> u64 \<Rightarrow> ('u, 'i) soc_fw \<Rightarrow> (('u, 'i) soc_fw \<times> u32) res" where
  "fw_load U I a s = bindR (read32 (custom_soc_b_transport (fw_now s) U I) a (fw_soc s)) (\<lambda>(t, v).
     Inr (s\<lparr>fw_soc := t\<rparr>, v))"

section \<open>The program\<close>

definition uart_puts :: "'u transport \<Rightarrow> 'i transport \<Rightarrow> string \<Rightarrow> ('u, 'i) soc_fw \<Rightarrow> ('u, 'i) soc_fw res" where
  "uart_puts U I str = on_bus U I (\<lambda>bt. write_uart bt UART_TX str)"

text \<open>
  The handler: its branch for the timer, and that for the external interrupt in three parts,
  between which the rest of the system may move.
\<close>

definition trap_timer :: "'u transport \<Rightarrow> 'i transport \<Rightarrow> ('u, 'i) soc_fw \<Rightarrow> ('u, 'i) soc_fw res" where
  "trap_timer U I s =
     bindR (uart_puts U I (line ''TIMER'') s) (\<lambda>s.
     Inr (s\<lparr>timer_done := 1, csr_mie := csr_mie s AND NOT MIE_MTIE\<rparr>))"

definition trap_claim :: "'u transport \<Rightarrow> 'i transport \<Rightarrow> ('u, 'i) soc_fw \<Rightarrow> (('u, 'i) soc_fw \<times> u32) res" where
  "trap_claim U I s = fw_load U I PLIC_CLAIM s"

definition trap_service :: "'u transport \<Rightarrow> 'i transport \<Rightarrow> u32 \<Rightarrow> ('u, 'i) soc_fw \<Rightarrow> ('u, 'i) soc_fw res" where
  "trap_service U I cid s =
     (if cid = 1
      then bindR (fw_store U I I2C_IICR 1 s) (\<lambda>s.
           bindR (uart_puts U I (line ''EXT IRQ'') s) (\<lambda>s. Inr (s\<lparr>ext_done := 1\<rparr>)))
      else Inr s)"

definition trap_complete :: "'u transport \<Rightarrow> 'i transport \<Rightarrow> u32 \<Rightarrow> ('u, 'i) soc_fw \<Rightarrow> ('u, 'i) soc_fw res" where
  "trap_complete U I cid s = fw_store U I PLIC_CLAIM cid s"

definition trap_handler :: "'u transport \<Rightarrow> 'i transport \<Rightarrow> u32 \<Rightarrow> ('u, 'i) soc_fw \<Rightarrow> ('u, 'i) soc_fw res" where
  "trap_handler U I mcause s =
     (let code = mcause AND 0x7FFFFFFF in
      if code = 7 then trap_timer U I s
      else if code = 11
      then bindR (trap_claim U I s) (\<lambda>(s, cid). bindR (trap_service U I cid s) (trap_complete U I cid))
      else Inr s)"

text \<open>\<open>main\<close> up to the loop, and after it.\<close>

definition fw_plic_init :: "'u transport \<Rightarrow> 'i transport \<Rightarrow> ('u, 'i) soc_fw \<Rightarrow> ('u, 'i) soc_fw res" where
  "fw_plic_init U I s =
     bindR (fw_store U I PLIC_PRIORITY1 1 s) (\<lambda>s.
     bindR (fw_store U I PLIC_ENABLE (push_bit 1 1) s) (fw_store U I PLIC_THRESHOLD 0))"

definition fw_arm_timer :: "'u transport \<Rightarrow> 'i transport \<Rightarrow> ('u, 'i) soc_fw \<Rightarrow> ('u, 'i) soc_fw res" where
  "fw_arm_timer U I s =
     bindR (fw_load U I CLINT_MTIME_HI s) (\<lambda>(s, hi).
     bindR (fw_load U I CLINT_MTIME_LO s) (\<lambda>(s, lo).
     bindR (fw_store U I CLINT_MTIMECMP_HI hi s) (fw_store U I CLINT_MTIMECMP_LO (lo + 100))))"

definition fw_start_i2c :: "'u transport \<Rightarrow> 'i transport \<Rightarrow> ('u, 'i) soc_fw \<Rightarrow> ('u, 'i) soc_fw res" where
  "fw_start_i2c U I s =
     bindR (fw_store U I I2C_IIER 1 s) (\<lambda>s.
     bindR (fw_store U I I2C_IER 1 s) (fw_store U I I2C_ICTLR 1))"

definition fw_main_init :: "'u transport \<Rightarrow> 'i transport \<Rightarrow> ('u, 'i) soc_fw \<Rightarrow> ('u, 'i) soc_fw res" where
  "fw_main_init U I s =
     bindR (uart_puts U I (line ''Hello from custom SoC'') s) (\<lambda>s.
     bindR (fw_plic_init U I (s\<lparr>csr_mtvec := True\<rparr>)) (\<lambda>s.
     let s = s\<lparr>csr_mie := csr_mie s OR (MIE_MTIE OR MIE_MEIE)\<rparr>;
         s = s\<lparr>csr_mstatus := csr_mstatus s OR MSTATUS_MIE\<rparr> in
     bindR (fw_arm_timer U I s) (fw_start_i2c U I)))"

definition fw_main_end :: "'u transport \<Rightarrow> 'i transport \<Rightarrow> ('u, 'i) soc_fw \<Rightarrow> ('u, 'i) soc_fw res" where
  "fw_main_end U I s = uart_puts U I (line ''done'') s"

section \<open>The system\<close>

text \<open>
  The interrupt the hart takes next, in the order of the privileged specification: external,
  software, timer.
\<close>

definition hart_irq :: "('u, 'i) soc_fw \<Rightarrow> u32 option" where
  "hart_irq s =
     (let c = soc_clint (fw_soc s) in
      if \<not> bit (csr_mstatus s) 3 \<or> \<not> csr_mtvec s \<or> fw_trap s \<noteq> No_trap then None
      else if bit (csr_mie s) 11 \<and> meip (soc_plic (fw_soc s)) then Some 11
      else if bit (csr_mie s) 3 \<and> irq_level (clint_cpu c) kCauseSoftware then Some 3
      else if bit (csr_mie s) 7 \<and> mtip c then Some 7
      else None)"

definition soc_line :: "('i \<Rightarrow> bool) \<Rightarrow> ('u, 'i) soc_fw \<Rightarrow> bool list" where
  "soc_line irq s = [irq (soc_i2c (fw_soc s))]"

definition fw_plic :: "('u, 'i) soc_fw \<Rightarrow> plic" where "fw_plic s = soc_plic (fw_soc s)"
definition fw_clint :: "('u, 'i) soc_fw \<Rightarrow> clint" where "fw_clint s = soc_clint (fw_soc s)"

definition set_plic :: "plic \<Rightarrow> ('u, 'i) soc_fw \<Rightarrow> ('u, 'i) soc_fw" where
  "set_plic c s = s\<lparr>fw_soc := (fw_soc s)\<lparr>soc_plic := c\<rparr>\<rparr>"

definition set_clint :: "clint \<Rightarrow> ('u, 'i) soc_fw \<Rightarrow> ('u, 'i) soc_fw" where
  "set_clint c s = s\<lparr>fw_soc := (fw_soc s)\<lparr>soc_clint := c\<rparr>\<rparr>"

text \<open>
  The steps: of the program (\<open>main\<close>, and the handler when an interrupt is taken), of the line from
  the I2C controller to the PLIC, of the PLIC's and the CLINT's processes, and of time, which
  passes when nothing else is due. The initialisation is one step: before its last store no
  source of an interrupt is active.
\<close>

inductive fw_step :: "'u transport \<Rightarrow> 'i transport \<Rightarrow> ('i \<Rightarrow> bool) \<Rightarrow> ('u, 'i) soc_fw \<Rightarrow> ('u, 'i) soc_fw \<Rightarrow> bool"
  for U I irq where
  initialise: "fw_main s = Booting \<Longrightarrow> fw_main_init U I s = Inr t \<Longrightarrow>
    fw_step U I irq s (t\<lparr>fw_main := Waiting\<rparr>)"
| leave: "fw_main s = Waiting \<Longrightarrow> fw_trap s = No_trap \<Longrightarrow> timer_done s \<noteq> 0 \<Longrightarrow> ext_done s \<noteq> 0 \<Longrightarrow>
    fw_main_end U I s = Inr t \<Longrightarrow> fw_step U I irq s (t\<lparr>fw_main := Parked\<rparr>)"
| take_timer: "hart_irq s = Some 7 \<Longrightarrow> trap_timer U I s = Inr t \<Longrightarrow> fw_step U I irq s t"
| take_external: "hart_irq s = Some 11 \<Longrightarrow> trap_claim U I s = Inr (t, cid) \<Longrightarrow>
    fw_step U I irq s (t\<lparr>fw_trap := Claimed cid\<rparr>)"
| service: "fw_trap s = Claimed cid \<Longrightarrow> trap_service U I cid s = Inr t \<Longrightarrow>
    fw_step U I irq s (t\<lparr>fw_trap := Serviced cid\<rparr>)"
| complete: "fw_trap s = Serviced cid \<Longrightarrow> trap_complete U I cid s = Inr t \<Longrightarrow>
    fw_step U I irq s (t\<lparr>fw_trap := No_trap\<rparr>)"
| drive: "irq_in (fw_plic s) \<noteq> soc_line irq s \<Longrightarrow>
    fw_step U I irq s ((set_plic ((fw_plic s)\<lparr>irq_in := soc_line irq s\<rparr>) s)\<lparr>fw_lines := True\<rparr>)"
| react: "fw_lines s \<Longrightarrow> on_sources (fw_plic s) = Inr c \<Longrightarrow>
    fw_step U I irq s ((set_plic c s)\<lparr>fw_lines := False\<rparr>)"
| wake: "cmp_event (fw_clint s) = Some Delta \<or> cmp_event (fw_clint s) = Some (Timed (fw_now s)) \<Longrightarrow>
    fw_step U I irq s (set_clint (timer_proc (fw_now s) (fw_clint s)) s)"
| pass: "fw_now s < t \<Longrightarrow> irq_in (fw_plic s) = soc_line irq s \<Longrightarrow> \<not> fw_lines s \<Longrightarrow>
    cmp_event (fw_clint s) \<noteq> Some Delta \<Longrightarrow> (\<And>u. cmp_event (fw_clint s) = Some (Timed u) \<Longrightarrow> t \<le> u) \<Longrightarrow>
    fw_step U I irq s (s\<lparr>fw_now := t\<rparr>)"

inductive fw_reachable :: "'u transport \<Rightarrow> 'i transport \<Rightarrow> ('i \<Rightarrow> bool) \<Rightarrow> 'u \<Rightarrow> 'i \<Rightarrow> ('u, 'i) soc_fw \<Rightarrow> bool"
  for U I irq u i where
  boot: "fw_reachable U I irq u i (fw_boot u i)"
| step: "fw_reachable U I irq u i s \<Longrightarrow> fw_step U I irq s t \<Longrightarrow> fw_reachable U I irq u i t"

text \<open>
  What the firmware relies on of the I2C controller, by the comments of its source: enabled and
  started it raises its line, and a word written to \<open>IICR\<close> lowers it.
\<close>

definition i2c_interrupts :: "'i transport \<Rightarrow> ('i \<Rightarrow> bool) \<Rightarrow> bool" where
  "i2c_interrupts I irq \<longleftrightarrow>
     (\<forall>i. \<exists>i1 i2 i3. write32 I 0x4C 1 i = Inr i1 \<and> write32 I 0x00 1 i1 = Inr i2 \<and>
        write32 I 0x04 1 i2 = Inr i3 \<and> irq i3) \<and>
     (\<forall>i. \<exists>i'. write32 I 0x50 1 i = Inr i' \<and> \<not> irq i')"

section \<open>Accesses\<close>

lemmas soc_addresses = UART_TX_def CLINT_MTIMECMP_LO_def CLINT_MTIMECMP_HI_def CLINT_MTIME_LO_def
  CLINT_MTIME_HI_def PLIC_PRIORITY1_def PLIC_ENABLE_def PLIC_THRESHOLD_def PLIC_CLAIM_def I2C_IER_def
  I2C_ICTLR_def I2C_IIER_def I2C_IICR_def

lemma soc_decode:
  "decode custom_soc_router UART_TX = 1"
  "decode custom_soc_router CLINT_MTIMECMP_LO = 2" "decode custom_soc_router CLINT_MTIMECMP_HI = 2"
  "decode custom_soc_router CLINT_MTIME_LO = 2" "decode custom_soc_router CLINT_MTIME_HI = 2"
  "decode custom_soc_router PLIC_PRIORITY1 = 3" "decode custom_soc_router PLIC_ENABLE = 3"
  "decode custom_soc_router PLIC_THRESHOLD = 3" "decode custom_soc_router PLIC_CLAIM = 3"
  "decode custom_soc_router I2C_IER = 4" "decode custom_soc_router I2C_ICTLR = 4"
  "decode custom_soc_router I2C_IIER = 4" "decode custom_soc_router I2C_IICR = 4"
  by (simp_all add: decode_def custom_soc_router_def map_ranges_def riscv_custom_soc_map_def contains_def
      soc_addresses)

lemma soc_bases:
  "range_base (ranges custom_soc_router ! Suc 0) = 0x10000000"
  "range_base (ranges custom_soc_router ! 2) = 0x02000000"
  "range_base (ranges custom_soc_router ! 3) = 0x0C000000"
  "range_base (ranges custom_soc_router ! 4) = 0x10010000"
  by (simp_all add: custom_soc_router_def map_ranges_def riscv_custom_soc_map_def)

lemma soc_accesses:
  "write8 (custom_soc_b_transport now U I) UART_TX v s =
     bindR (write8 U 0 v (soc_uart s)) (\<lambda>t. Inr (s\<lparr>soc_uart := t\<rparr>))"
  "read32 (custom_soc_b_transport now U I) CLINT_MTIME_HI s =
     bindR (read32 (clint_b_transport now) 0xBFFC (soc_clint s)) (\<lambda>(t, x). Inr (s\<lparr>soc_clint := t\<rparr>, x))"
  "read32 (custom_soc_b_transport now U I) CLINT_MTIME_LO s =
     bindR (read32 (clint_b_transport now) 0xBFF8 (soc_clint s)) (\<lambda>(t, x). Inr (s\<lparr>soc_clint := t\<rparr>, x))"
  "write32 (custom_soc_b_transport now U I) CLINT_MTIMECMP_HI w s =
     bindR (write32 (clint_b_transport now) 0x4004 w (soc_clint s)) (\<lambda>t. Inr (s\<lparr>soc_clint := t\<rparr>))"
  "write32 (custom_soc_b_transport now U I) CLINT_MTIMECMP_LO w s =
     bindR (write32 (clint_b_transport now) 0x4000 w (soc_clint s)) (\<lambda>t. Inr (s\<lparr>soc_clint := t\<rparr>))"
  "write32 (custom_soc_b_transport now U I) PLIC_PRIORITY1 w s =
     bindR (write32 plic_b_transport 4 w (soc_plic s)) (\<lambda>t. Inr (s\<lparr>soc_plic := t\<rparr>))"
  "write32 (custom_soc_b_transport now U I) PLIC_ENABLE w s =
     bindR (write32 plic_b_transport kEnable w (soc_plic s)) (\<lambda>t. Inr (s\<lparr>soc_plic := t\<rparr>))"
  "write32 (custom_soc_b_transport now U I) PLIC_THRESHOLD w s =
     bindR (write32 plic_b_transport kThreshold w (soc_plic s)) (\<lambda>t. Inr (s\<lparr>soc_plic := t\<rparr>))"
  "write32 (custom_soc_b_transport now U I) PLIC_CLAIM w s =
     bindR (write32 plic_b_transport kClaim w (soc_plic s)) (\<lambda>t. Inr (s\<lparr>soc_plic := t\<rparr>))"
  "read32 (custom_soc_b_transport now U I) PLIC_CLAIM s =
     bindR (read32 plic_b_transport kClaim (soc_plic s)) (\<lambda>(t, x). Inr (s\<lparr>soc_plic := t\<rparr>, x))"
  "write32 (custom_soc_b_transport now U I) I2C_IER w s =
     bindR (write32 I 0x00 w (soc_i2c s)) (\<lambda>t. Inr (s\<lparr>soc_i2c := t\<rparr>))"
  "write32 (custom_soc_b_transport now U I) I2C_ICTLR w s =
     bindR (write32 I 0x04 w (soc_i2c s)) (\<lambda>t. Inr (s\<lparr>soc_i2c := t\<rparr>))"
  "write32 (custom_soc_b_transport now U I) I2C_IIER w s =
     bindR (write32 I 0x4C w (soc_i2c s)) (\<lambda>t. Inr (s\<lparr>soc_i2c := t\<rparr>))"
  "write32 (custom_soc_b_transport now U I) I2C_IICR w s =
     bindR (write32 I 0x50 w (soc_i2c s)) (\<lambda>t. Inr (s\<lparr>soc_i2c := t\<rparr>))"
  by (simp_all add: custom_soc_b_transport_def soc_decode part_accesses custom_soc_targets_def
      routed_accesses [where k = 1] routed_accesses [where k = 2] routed_accesses [where k = 3]
      routed_accesses [where k = 4] soc_bases)
    (simp_all add: soc_addresses reg_defs)

section \<open>The PLIC with its one source\<close>

definition plic_one :: "plic \<Rightarrow> bool \<Rightarrow> bool \<Rightarrow> bool" where
  "plic_one c cl l \<longleftrightarrow> num_sources c = 1 \<and> priority c = [0, 1] \<and> enable c = 2 \<and> threshold c = 0 \<and>
     claimed c = [False, cl] \<and> irq_in c = [l]"

definition plic_fresh :: "plic \<Rightarrow> bool" where
  "plic_fresh c \<longleftrightarrow> num_sources c = 1 \<and> priority c = [0, 0] \<and> enable c = 0 \<and> threshold c = 0 \<and>
     claimed c = [False, False] \<and> length (irq_in c) = 1"

lemma plic_one_wf: "plic_one c cl l \<Longrightarrow> plic_wf c"
  by (simp add: plic_one_def plic_wf_def)

lemma plic_fresh_wf: "plic_fresh c \<Longrightarrow> plic_wf c"
  by (simp add: plic_fresh_def plic_wf_def)

lemma plic_one_set_irq [simp]: "plic_one (plic_set_irq k x c) cl l = plic_one c cl l"
  by (simp add: plic_one_def)

lemma plic_one_candidate:
  assumes "plic_one c cl l"
  shows "any_candidate c \<longleftrightarrow> l \<and> \<not> cl"
  using assms by (auto simp: plic_one_def any_candidate_def source_ids_def candidate_def bit_Suc)

lemma plic_one_update:
  "plic_one c cl l \<Longrightarrow> update_meip c = Inr (plic_set_irq kCauseExternal (l \<and> \<not> cl) c)"
  by (simp add: update_meip_eq [OF plic_one_wf] plic_one_candidate)

lemma plic_one_claim:
  assumes "plic_one c cl l"
  obtains c' where "read32 plic_b_transport kClaim c = Inr (c', if l \<and> \<not> cl then 1 else 0)"
    and "plic_one c' (cl \<or> l) l" and "coherent c'"
proof (rule plic_claim_read [OF plic_one_wf [OF assms]])
  fix best c'
  assume r: "read32 plic_b_transport kClaim c = Inr (plic_set_irq kCauseExternal (any_candidate c') c', best)"
    and c': "c' = (if best = 0 then c else c\<lparr>claimed := (claimed c)[unat best := True]\<rparr>)"
    and b: "if any_candidate c then served c (unat best) else best = 0"
  have "best = (if l \<and> \<not> cl then 1 else 0)"
    using b served_bounds [of c "unat best"] assms
    by (auto simp: plic_one_candidate plic_one_def word_unat_eq_iff split: if_splits)
  moreover from this c' assms have "plic_one c' (cl \<or> l) l" by (auto simp: plic_one_def)
  ultimately show thesis
    using r by (intro that [of "plic_set_irq kCauseExternal (any_candidate c') c'"]) simp_all
qed

lemma plic_one_complete:
  assumes "plic_one c cl l"
  obtains c' where "write32 plic_b_transport kClaim v c = Inr c'"
    and "plic_one c' (cl \<and> v \<noteq> 1) l" and "coherent c'"
proof -
  let ?c = "if v = 1 then c\<lparr>claimed := (claimed c)[Suc 0 := False]\<rparr> else c"
  have one: "plic_one ?c (cl \<and> v \<noteq> 1) l" using assms by (simp add: plic_one_def)
  have "write32 plic_b_transport kClaim v c = Inr (plic_set_irq kCauseExternal (any_candidate ?c) ?c)"
    using assms update_meip_eq [OF plic_one_wf [OF one]]
    by (intro plic_write32 [where v' = v], cases "v = 1")
      (auto simp: plic_access_registers [OF plic_one_wf [OF assms]] plic_one_def)
  then show ?thesis
    using one by (intro that [of "plic_set_irq kCauseExternal (any_candidate ?c) ?c"]) simp_all
qed

lemma plic_init_writes:
  assumes "plic_fresh c"
  obtains c1 c2 c3 where "write32 plic_b_transport 4 1 c = Inr c1" and "write32 plic_b_transport kEnable 2 c1 = Inr c2"
    and "write32 plic_b_transport kThreshold 0 c2 = Inr c3" and "plic_one c3 False (irq_in c ! 0)" and "coherent c3"
proof -
  let ?u = "\<lambda>c. plic_set_irq kCauseExternal (any_candidate c) c"
  define c1 where "c1 = ?u (c\<lparr>priority := [0, 1]\<rparr>)"
  define c2 where "c2 = ?u (c1\<lparr>enable := 2\<rparr>)"
  define c3 where "c3 = ?u (c2\<lparr>threshold := 0\<rparr>)"
  have wf: "plic_wf c" "plic_wf (c\<lparr>priority := [0, 1]\<rparr>)" "plic_wf c1" "plic_wf (c1\<lparr>enable := 2\<rparr>)" "plic_wf c2"
    "plic_wf (c2\<lparr>threshold := 0\<rparr>)"
    using assms by (simp_all add: c1_def c2_def plic_fresh_def plic_wf_def)
  have "write32 plic_b_transport 4 1 c = Inr c1"
    using plic_priority_access(2) [OF wf(1), of 1 1] assms update_meip_eq [OF wf(2)]
    by (intro plic_write32 [where v' = 1]) (simp add: plic_fresh_def c1_def)
  moreover have "write32 plic_b_transport kEnable 2 c1 = Inr c2"
    using update_meip_eq [OF wf(4)]
    by (intro plic_write32 [where v' = 2]) (simp add: plic_access_registers [OF wf(3)] c2_def)
  moreover have "write32 plic_b_transport kThreshold 0 c2 = Inr c3"
    using update_meip_eq [OF wf(6)]
    by (intro plic_write32 [where v' = 0]) (simp add: plic_access_registers [OF wf(5)] c3_def)
  moreover have "plic_one c3 False (irq_in c ! 0)"
    using assms by (cases "irq_in c") (auto simp: c1_def c2_def c3_def plic_fresh_def plic_one_def)
  ultimately show ?thesis using that by (simp add: c3_def)
qed

end
