(* ===== verification/Cpu_Eval.thy ===== *)
theory Cpu_Eval
  imports Firmware
begin

text \<open>
  \<open>platforms/riscv_cpu_eval\<close>: RAM, UART and a timer behind the router, with a bridge that turns
  the rising edge of the timer's signal into a call on the CPU; and the two programs written for
  it, \<open>fw/hello_baremetal_riscv\<close> and \<open>fw/timer_irq_riscv\<close>. The UART and \<open>timer_tlm\<close> are not among
  the sources and are parameters.
\<close>

section \<open>The platform\<close>

record ('u, 't) cpu_eval =
  ev_ram :: memory
  ev_uart :: 'u
  ev_timer :: 't

definition cpu_eval_new :: "'u \<Rightarrow> 't \<Rightarrow> ('u, 't) cpu_eval" where
  "cpu_eval_new u t = \<lparr>ev_ram = memory_new 0x10000 False 10000, ev_uart = u, ev_timer = t\<rparr>"

definition cpu_eval_targets :: "'u transport \<Rightarrow> 't transport \<Rightarrow> ('u, 't) cpu_eval transport list" where
  "cpu_eval_targets uart_bt timer_bt =
     [on_part ev_ram (\<lambda>m s. s\<lparr>ev_ram := m\<rparr>) memory_b_transport,
      on_part ev_uart (\<lambda>u s. s\<lparr>ev_uart := u\<rparr>) uart_bt,
      on_part ev_timer (\<lambda>t s. s\<lparr>ev_timer := t\<rparr>) timer_bt]"

definition cpu_eval_router :: "bool \<Rightarrow> bus_router" where
  "cpu_eval_router unified =
     (bus_router_new 3 (if unified then 1 else 2))\<lparr>ranges := map_ranges riscv_cpu_eval_map\<rparr>"

definition cpu_eval_b_transport :: "bool \<Rightarrow> 'u transport \<Rightarrow> 't transport \<Rightarrow> ('u, 't) cpu_eval transport" where
  "cpu_eval_b_transport unified uart_bt timer_bt =
     router_b_transport (cpu_eval_router unified) (cpu_eval_targets uart_bt timer_bt)"

text \<open>
  The bridge. \<open>on_timer_irq\<close> calls \<open>raise_irq\<close> of the CPU, which the RISC-V-TLM wrapper overrides
  and the Bremen wrapper inherits from \<open>cpu_base\<close>. It runs at the rising edges of the signal,
  whose values are the list.
\<close>

definition kCauseMachineTimer :: u32 where "kCauseMachineTimer = 7"

definition on_timer_irq :: "(u32 \<Rightarrow> 'c \<Rightarrow> 'c res) \<Rightarrow> 'c \<Rightarrow> 'c res" where
  "on_timer_irq raise_irq c = raise_irq kCauseMachineTimer c"

fun timer_irq_signal :: "(u32 \<Rightarrow> 'c \<Rightarrow> 'c res) \<Rightarrow> bool \<Rightarrow> bool list \<Rightarrow> 'c \<Rightarrow> 'c res" where
  "timer_irq_signal raise_irq old [] c = Inr c"
| "timer_irq_signal raise_irq old (new # levels) c =
     bindR (if new \<and> \<not> old then on_timer_irq raise_irq c else Inr c) (timer_irq_signal raise_irq new levels)"

section \<open>The programs\<close>

definition hello_main :: "'s transport \<Rightarrow> 's \<Rightarrow> ('s \<times> int) res" where
  "hello_main bt s = bindR (write_uart bt UART_TX (line ''Hello from RISC-V'') s) (\<lambda>s. Inr (s, 0))"

definition TIMER_CTRL :: u64 where "TIMER_CTRL = 0x10010000"

record 's timer_fw =
  tf_bus :: 's
  tf_mie :: u32
  tf_mstatus :: u32
  tf_mtvec :: bool
  fired :: int

definition tf_puts :: "'s transport \<Rightarrow> string \<Rightarrow> 's timer_fw \<Rightarrow> 's timer_fw res" where
  "tf_puts bt str s = bindR (write_uart bt UART_TX str (tf_bus s)) (\<lambda>b. Inr (s\<lparr>tf_bus := b\<rparr>))"

definition tf_trap_handler :: "'s transport \<Rightarrow> 's timer_fw \<Rightarrow> 's timer_fw res" where
  "tf_trap_handler bt s = bindR (tf_puts bt (line ''TIMER IRQ'') s) (\<lambda>s. Inr (s\<lparr>fired := 1\<rparr>))"

definition tf_main_init :: "'s transport \<Rightarrow> 's timer_fw \<Rightarrow> 's timer_fw res" where
  "tf_main_init bt s =
     bindR (tf_puts bt (line ''Hello from RISC-V'') s) (\<lambda>s.
     let s = s\<lparr>tf_mtvec := True\<rparr>;
         s = s\<lparr>tf_mie := tf_mie s OR MIE_MTIE\<rparr>;
         s = s\<lparr>tf_mstatus := tf_mstatus s OR MSTATUS_MIE\<rparr> in
     bindR (write32 bt TIMER_CTRL 1 (tf_bus s)) (\<lambda>b. Inr (s\<lparr>tf_bus := b\<rparr>)))"

text \<open>One round of the waiting loop: the program leaves it when the flag is set.\<close>

definition tf_main_end :: "'s transport \<Rightarrow> 's timer_fw \<Rightarrow> 's timer_fw res" where
  "tf_main_end bt s = (if fired s = 0 then Inl Would_wait else tf_puts bt (line ''done'') s)"

text \<open>
  \<open>fw/bench_riscv\<close>: a greeting, then an endless loop, of which this is one round. The variables are
  \<open>unsigned long\<close>, 32 bits on the core.
\<close>

definition bench_start :: "'s transport \<Rightarrow> 's \<Rightarrow> 's res" where
  "bench_start bt s = write_uart bt UART_TX (line ''BENCH START'') s"

fun bench_round :: "u32 \<times> u32 \<Rightarrow> u32 \<times> u32" where
  "bench_round (acc, i) = (acc + (i * i + 7), i + 1)"

section \<open>Lemmas\<close>

text \<open>What the benchmark has computed after \<open>n\<close> rounds, modulo \<open>2 ^ 32\<close>.\<close>

lemma bench_rounds: "(bench_round ^^ n) (0, 0) = (of_nat (\<Sum>k<n. k * k + 7), of_nat n)"
  by (induction n) (simp_all add: algebra_simps)

lemma cpu_eval_accesses:
  "write8 (cpu_eval_b_transport unified U T) UART_TX v s =
     bindR (write8 U 0 v (ev_uart s)) (\<lambda>t. Inr (s\<lparr>ev_uart := t\<rparr>))"
  "write32 (cpu_eval_b_transport unified U T) TIMER_CTRL w s =
     bindR (write32 T 0 w (ev_timer s)) (\<lambda>t. Inr (s\<lparr>ev_timer := t\<rparr>))"
proof -
  have dec: "decode (cpu_eval_router unified) UART_TX = 1" "decode (cpu_eval_router unified) TIMER_CTRL = 2"
    and base: "range_base (ranges (cpu_eval_router unified) ! Suc 0) = UART_TX"
      "range_base (ranges (cpu_eval_router unified) ! 2) = TIMER_CTRL"
    by (simp_all add: decode_def cpu_eval_router_def map_ranges_def riscv_cpu_eval_map_def contains_def UART_TX_def
        TIMER_CTRL_def)
  show "write8 (cpu_eval_b_transport unified U T) UART_TX v s =
      bindR (write8 U 0 v (ev_uart s)) (\<lambda>t. Inr (s\<lparr>ev_uart := t\<rparr>))"
    "write32 (cpu_eval_b_transport unified U T) TIMER_CTRL w s =
      bindR (write32 T 0 w (ev_timer s)) (\<lambda>t. Inr (s\<lparr>ev_timer := t\<rparr>))"
    by (simp_all add: cpu_eval_b_transport_def cpu_eval_targets_def part_accesses dec base
        routed_accesses [where k = 1] routed_accesses [where k = 2])
qed

lemma eval_uart_sends:
  assumes "uart_sends U out"
  obtains u where "write_uart (cpu_eval_b_transport unified U T) UART_TX str s = Inr (s\<lparr>ev_uart := u\<rparr>)"
    and "out u = out (ev_uart s) @ ascii str"
proof -
  have "write_uart (cpu_eval_b_transport unified U T) UART_TX str s =
      bindR (write_uart U 0 str (ev_uart s)) (\<lambda>u. Inr (s\<lparr>ev_uart := u\<rparr>))"
    by (rule write_uart_part) (simp_all add: cpu_eval_accesses)
  with write_uart_sends [OF assms, of str "ev_uart s"] that show thesis by auto
qed

text \<open>
  The programs of the evaluation platform, with one or two CPU buses, on a UART that sends
  what it is given and a timer that accepts its start. The first program prints its greeting and
  returns 0. The second reaches its loop with the greeting printed, the vector set, the timer
  interrupt and interrupts enabled and the timer started; it does not leave the loop before the
  handler has run; the handler, entered once, prints its line, and the program ends with the last.
\<close>

lemma eval_programs_run:
  fixes unified :: bool
  assumes "uart_sends U out" and "write32 T 0 1 (ev_timer b) = Inr t'"
    and "s = \<lparr>tf_bus = b, tf_mie = 0, tf_mstatus = 0, tf_mtvec = False, fired = 0\<rparr>"
  defines "bt \<equiv> cpu_eval_b_transport unified U T"
  shows "(\<exists>u. hello_main bt b = Inr (b\<lparr>ev_uart := u\<rparr>, 0) \<and>
      out u = out (ev_uart b) @ ascii (line ''Hello from RISC-V'')) \<and>
    (\<exists>s1 s2 s3. tf_main_init bt s = Inr s1 \<and> tf_mtvec s1 \<and> bit (tf_mie s1) 7 \<and> bit (tf_mstatus s1) 3 \<and>
      ev_timer (tf_bus s1) = t' \<and> tf_main_end bt s1 = Inl Would_wait \<and>
      tf_trap_handler bt s1 = Inr s2 \<and> tf_main_end bt s2 = Inr s3 \<and>
      out (ev_uart (tf_bus s3)) = out (ev_uart b) @
        ascii (line ''Hello from RISC-V'' @ line ''TIMER IRQ'' @ line ''done''))"
proof -
  note sends = eval_uart_sends [OF assms(1), where T = T and unified = unified, folded bt_def]
  obtain u1 where u1: "write_uart bt UART_TX (line ''Hello from RISC-V'') b = Inr (b\<lparr>ev_uart := u1\<rparr>)"
    "out u1 = out (ev_uart b) @ ascii (line ''Hello from RISC-V'')" by (rule sends)
  let ?b2 = "b\<lparr>ev_uart := u1, ev_timer := t'\<rparr>"
  obtain u2 where u2: "write_uart bt UART_TX (line ''TIMER IRQ'') ?b2 = Inr (?b2\<lparr>ev_uart := u2\<rparr>)"
    "out u2 = out (ev_uart ?b2) @ ascii (line ''TIMER IRQ'')" by (rule sends)
  obtain u3 where u3: "write_uart bt UART_TX (line ''done'') (?b2\<lparr>ev_uart := u2\<rparr>) = Inr (?b2\<lparr>ev_uart := u2, ev_uart := u3\<rparr>)"
    "out u3 = out (ev_uart (?b2\<lparr>ev_uart := u2\<rparr>)) @ ascii (line ''done'')" by (rule sends)
  have "write32 bt TIMER_CTRL 1 (b\<lparr>ev_uart := u1\<rparr>) = Inr ?b2"
    using assms(2) by (simp add: bt_def cpu_eval_accesses)
  with u1 u2 u3 show ?thesis
    by (auto simp: assms(3) hello_main_def tf_main_init_def tf_main_end_def tf_trap_handler_def tf_puts_def Let_def
        MIE_MTIE_def MSTATUS_MIE_def bit_simps ascii_def)
qed

end
