(* ===== verification/Platform_Mains.thy ===== *)
theory Platform_Mains
  imports Options Cpu_Eval
begin

text \<open>
  The programs \<open>platforms/riscv_custom_soc/src/main.cpp\<close> and \<open>platforms/riscv_cpu_eval/src/main.cpp\<close> with
  the constructors of their tops: command line, global quantum, CPU, bus and firmware up to the
  start of the simulation, and its end. The CPU is any \<open>cpu_base\<close>. What the simulation does after
  the start is the instruction-set simulator's and the kernel's part, the parameter \<open>sim\<close>, which
  gets the router, the quantum and the time to simulate. The backdoor of the UART, the I2C
  controller and \<open>timer_tlm\<close>, which are not among the sources, is a parameter too.
\<close>

section \<open>The backdoor of the buses\<close>

text \<open>A target that registers no debug callback: its socket answers zero bytes.\<close>

definition no_transport_dbg :: "'s debug_transport" where
  "no_transport_dbg s p = Inr (s, p, 0)"

definition custom_soc_dbg_targets ::
  "'u debug_transport \<Rightarrow> 'i debug_transport \<Rightarrow> ('u, 'i) custom_soc debug_transport list" where
  "custom_soc_dbg_targets uart_dbg i2c_dbg =
     [on_part_dbg soc_ram (\<lambda>m s. s\<lparr>soc_ram := m\<rparr>) memory_transport_dbg,
      on_part_dbg soc_uart (\<lambda>u s. s\<lparr>soc_uart := u\<rparr>) uart_dbg, no_transport_dbg, no_transport_dbg,
      on_part_dbg soc_i2c (\<lambda>i s. s\<lparr>soc_i2c := i\<rparr>) i2c_dbg]"

definition cpu_eval_dbg_targets ::
  "'u debug_transport \<Rightarrow> 't debug_transport \<Rightarrow> ('u, 't) cpu_eval debug_transport list" where
  "cpu_eval_dbg_targets uart_dbg timer_dbg =
     [on_part_dbg ev_ram (\<lambda>m s. s\<lparr>ev_ram := m\<rparr>) memory_transport_dbg,
      on_part_dbg ev_uart (\<lambda>u s. s\<lparr>ev_uart := u\<rparr>) uart_dbg,
      on_part_dbg ev_timer (\<lambda>t s. s\<lparr>ev_timer := t\<rparr>) timer_dbg]"

section \<open>The tops\<close>

text \<open>The binding of the CPU's sockets to the ports of the bus.\<close>

definition bind_cpu_buses :: "('c, 's) cpu_base \<Rightarrow> bus_router \<Rightarrow> (cpu_bus \<times> cpu_socket) list res" where
  "bind_cpu_buses B r =
     (if cb_has_unified_bus B then bindR (cpu_port r 0) (\<lambda>p. Inr [(cb_data_bus B, p)])
      else bindR (cpu_port r 0) (\<lambda>i. bindR (cpu_port r 1) (\<lambda>d. Inr [(cb_instr_bus B, i), (cb_data_bus B, d)])))"

text \<open>
  The constructor of a top, given the platform's name and address map: the CPU, the bus with a
  socket per region, the bindings, the regions, and two lines of output.
\<close>

definition top_banner :: "string \<Rightarrow> string \<Rightarrow> string \<Rightarrow> string list" where
  "top_banner platform config backend =
     (if config = [] then [] else [platform @ '' config: '' @ config, ''cpu backend: '' @ backend])"

definition riscv_top_new :: "('c, 's) cpu_base \<Rightarrow> string \<Rightarrow> (u64 \<times> u64) list \<Rightarrow> string \<Rightarrow> sc_time \<Rightarrow>
    (sc_time \<times> 'c \<times> bus_router \<times> (cpu_bus \<times> cpu_socket) list \<times> string list) res" where
  "riscv_top_new B platform m config gq =
     (let (gq, cpu) = cb_construct B gq;
          bus = bus_router_new (length m) (if cb_has_unified_bus B then 1 else 2)
      in bindR (bind_cpu_buses B bus) (\<lambda>binds.
         bindR (add_targets bus m) (\<lambda>(bus, socks).
         Inr (gq, cpu, bus, binds, top_banner platform config (cb_backend_name B)))))"

definition riscv_custom_soc_top_new where
  "riscv_custom_soc_top_new B config gq = riscv_top_new B ''riscv_custom_soc'' riscv_custom_soc_map config gq"

definition riscv_cpu_eval_top_new where
  "riscv_cpu_eval_top_new B config gq = riscv_top_new B ''riscv_cpu_eval'' riscv_cpu_eval_map config gq"

definition top_load_firmware :: "('c, 's) cpu_base \<Rightarrow> string \<Rightarrow> 'c \<Rightarrow> 'c" where
  "top_load_firmware B path cpu = cb_load_elf B path cpu"

definition top_backend_name :: "('c, 's) cpu_base \<Rightarrow> string" where
  "top_backend_name B = cb_backend_name B"

definition top_get_instret :: "('c, 's) cpu_base \<Rightarrow> 'c \<Rightarrow> u64" where
  "top_get_instret B cpu = cb_get_instret B cpu"

section \<open>The programs\<close>

text \<open>\<open>sc_start\<close>: the callbacks of the start, then the simulation for the given time.\<close>

type_synonym ('c, 's) kernel = "bus_router \<Rightarrow> sc_time \<Rightarrow> sc_time \<Rightarrow> 'c \<times> 's \<Rightarrow> ('c \<times> 's) res"

definition sc_start :: "('c, 's) cpu_base \<Rightarrow> (string \<Rightarrow> u8 list option) \<Rightarrow> (bus_router \<Rightarrow> 's debug_transport) \<Rightarrow>
    ('c, 's) kernel \<Rightarrow> bus_router \<Rightarrow> sc_time \<Rightarrow> sc_time \<Rightarrow> 'c \<Rightarrow> 's \<Rightarrow> ('c \<times> 's) res" where
  "sc_start B files dbg sim r gq t cpu s =
     bindR (cb_start_of_simulation B files (dbg r) cpu s) (sim r gq t)"

text \<open>The result: the lines printed, the exit code, and the CPU and the parts behind the bus.\<close>

definition custom_soc_sc_main :: "('c, 's) cpu_base \<Rightarrow> (string \<Rightarrow> u8 list option) \<Rightarrow>
    (bus_router \<Rightarrow> 's debug_transport) \<Rightarrow> ('c, 's) kernel \<Rightarrow> 's \<Rightarrow> string list \<Rightarrow>
    (string list \<times> int \<times> 'c \<times> 's) res" where
  "custom_soc_sc_main B files dbg sim s argv =
     (let config = get_opt argv ''-c'' ''platforms/riscv_custom_soc/configs/default.yaml'';
          fw = get_opt argv ''--fw'' []
      in bindR (stoull (get_opt argv ''--quantum'' ''1000'')) (\<lambda>quantum_ns.
         bindR (sc_time_of SC_NS quantum_ns) (\<lambda>gq.
         bindR (riscv_custom_soc_top_new B config gq) (\<lambda>(gq, cpu, r, binds, out).
         let cpu = (if fw \<noteq> [] then top_load_firmware B fw cpu else cpu)
         in bindR (sc_time_of SC_MS 5) (\<lambda>t.
            bindR (sc_start B files dbg sim r gq t cpu s) (\<lambda>(cpu, s). Inr (out, 0, cpu, s)))))))"

text \<open>The report of a benchmark; \<open>host\<close> is the text with the host's time and the rate computed from it.\<close>

definition bench_report :: "string \<Rightarrow> u64 \<Rightarrow> u64 \<Rightarrow> u64 \<Rightarrow> string \<Rightarrow> string" where
  "bench_report backend quantum_ns sim_ms instret host =
     ''BENCH backend='' @ [CHR 0x22] @ backend @ [CHR 0x22] @ '' quantum_ns='' @ decimal (unat quantum_ns) @
     '' sim_ms='' @ decimal (unat sim_ms) @ '' instret='' @ decimal (unat instret) @ host"

definition cpu_eval_sc_main :: "('c, 's) cpu_base \<Rightarrow> (string \<Rightarrow> u8 list option) \<Rightarrow>
    (bus_router \<Rightarrow> 's debug_transport) \<Rightarrow> ('c, 's) kernel \<Rightarrow> (u64 \<Rightarrow> string) \<Rightarrow> 's \<Rightarrow> string list \<Rightarrow>
    (string list \<times> int \<times> 'c \<times> 's) res" where
  "cpu_eval_sc_main B files dbg sim host s argv =
     (let config = get_opt argv ''-c'' ''platforms/riscv_cpu_eval/configs/default.yaml'';
          fw = get_opt argv ''--fw'' [];
          bench = has_flag argv ''--bench''
      in bindR (stoull (get_opt argv ''--quantum'' ''1000'')) (\<lambda>quantum_ns.
         bindR (sc_time_of SC_NS quantum_ns) (\<lambda>gq.
         bindR (riscv_cpu_eval_top_new B config gq) (\<lambda>(gq, cpu, r, binds, out).
         let cpu = (if fw \<noteq> [] then top_load_firmware B fw cpu else cpu)
         in if bench
            then bindR (stoull (get_opt argv ''--sim-ms'' ''20'')) (\<lambda>sim_ms.
                 bindR (sc_time_of SC_MS sim_ms) (\<lambda>t.
                 bindR (sc_start B files dbg sim r gq t cpu s) (\<lambda>(cpu, s).
                 let instret = top_get_instret B cpu
                 in Inr (out @ [bench_report (top_backend_name B) quantum_ns sim_ms instret (host instret)], 0, cpu, s))))
            else bindR (sc_time_of SC_MS 1) (\<lambda>t.
                 bindR (sc_start B files dbg sim r gq t cpu s) (\<lambda>(cpu, s). Inr (out, 0, cpu, s)))))))"

text \<open>
  The two small platforms: the constructor's line of output, then \<open>sc_start()\<close>, which runs the stub to
  its \<open>wait\<close>, and to its end when the interrupt of the device rises. Whether and in which state it
  does is the device's part, the parameter \<open>rises\<close>.
\<close>

definition config_banner :: "string \<Rightarrow> string \<Rightarrow> string list" where
  "config_banner platform config = (if config = [] then [] else [platform @ '' config: '' @ config])"

definition mini_tlm_sc_main :: "'u transport \<Rightarrow> 'd transport \<Rightarrow> ('d \<Rightarrow> 'd option) \<Rightarrow> 'u \<Rightarrow> 'd \<Rightarrow> string list \<Rightarrow>
    (string list \<times> int \<times> ('u, 'd) mini) res" where
  "mini_tlm_sc_main uart_bt timer_bt rises u d argv =
     (let out = config_banner ''mini_tlm'' (mini_tlm_parse_config_path argv);
          bt = mini_tlm_b_transport uart_bt timer_bt
      in bindR (mini_tlm_run1 bt (mini_tlm_new u d)) (\<lambda>s.
         case rises (mini_dev s) of None \<Rightarrow> Inr (out, 0, s)
         | Some d' \<Rightarrow> bindR (mini_tlm_run2 bt (s\<lparr>mini_dev := d'\<rparr>)) (\<lambda>s. Inr (out, 0, s))))"

definition mini_soc_sc_main :: "'u transport \<Rightarrow> 'd transport \<Rightarrow> ('d \<Rightarrow> 'd option) \<Rightarrow> 'u \<Rightarrow> 'd \<Rightarrow> string list \<Rightarrow>
    (string list \<times> int \<times> ('u, 'd) mini) res" where
  "mini_soc_sc_main uart_bt i2c_bt rises u d argv =
     (let out = config_banner ''mini_soc'' (mini_soc_parse_config_path argv);
          bt = mini_soc_b_transport uart_bt i2c_bt
      in bindR (mini_soc_run1 bt (mini_soc_new u d)) (\<lambda>s.
         case rises (mini_dev s) of None \<Rightarrow> Inr (out, 0, s)
         | Some d' \<Rightarrow> bindR (mini_soc_run2 bt (s\<lparr>mini_dev := d'\<rparr>)) (\<lambda>s. Inr (out, 0, s))))"

section \<open>Lemmas\<close>

text \<open>The RAM behind the first socket as a store over global addresses, and where it can be written.\<close>

definition ram_view :: "bus_router \<Rightarrow> memory \<Rightarrow> u64 \<Rightarrow> u8 option" where
  "ram_view r m a = (if decode r a = 0 then byte_view m (a - range_base (ranges r ! 0)) else None)"

definition ram_writable :: "bus_router \<Rightarrow> memory \<Rightarrow> u64 \<Rightarrow> nat \<Rightarrow> bool" where
  "ram_writable r m a n \<longleftrightarrow> decode r a = 0 \<and> mem_writable m (a - range_base (ranges r ! 0)) n"

text \<open>A target whose backdoor never transfers a byte.\<close>

definition silent_dbg :: "'s debug_transport \<Rightarrow> bool" where
  "silent_dbg dbg \<longleftrightarrow> (\<forall>s p. \<exists>s' p'. dbg s p = Inr (s', p', 0))"

lemma no_transport_dbg_silent: "silent_dbg no_transport_dbg"
  by (simp add: silent_dbg_def no_transport_dbg_def)

lemma on_part_silent:
  assumes "silent_dbg dbg"
  shows "silent_dbg (on_part_dbg get put dbg)"
  unfolding silent_dbg_def
proof (intro allI)
  fix s p
  obtain t p' where "dbg (get s) p = Inr (t, p', 0)" using assms unfolding silent_dbg_def by blast
  then show "\<exists>s' p'. on_part_dbg get put dbg s p = Inr (s', p', 0)" by (simp add: on_part_dbg_def)
qed

lemma decode_first: "decode r a = 0 \<longleftrightarrow> ranges r \<noteq> [] \<and> contains (ranges r ! 0) a"
  using decode_eq [of r a 0] by auto

lemma ram_view_write:
  assumes "ends_in_space (ranges r ! 0)" and "memory_size m = unat (range_size (ranges r ! 0))"
    and "ram_writable r m a (length bs)" and "memcpy_to (mem_data m) (unat (a - range_base (ranges r ! 0))) bs = Inr st"
  shows "ram_view r (m\<lparr>mem_data := st\<rparr>) = view_write (ram_view r m) a bs"
proof
  fix x
  have ne: "ranges r \<noteq> []" and a: "contains (ranges r ! 0) a" and w: "mem_writable m (a - range_base (ranges r ! 0)) (length bs)"
    using assms(3) by (auto simp: ram_writable_def decode_first)
  note la = contains_local [OF a]
  show "ram_view r (m\<lparr>mem_data := st\<rparr>) x = view_write (ram_view r m) a bs x"
  proof (cases "contains (ranges r ! 0) x")
    case True
    with la contains_local [OF True] byte_view_write [OF assms(4)] ne show ?thesis
      using a True by (auto simp: ram_view_def decode_first view_write_def contains_iff range_addrs_def)
  next
    case False
    have "\<not> (unat a \<le> unat x \<and> unat x < unat a + length bs)"
    proof
      assume "unat a \<le> unat x \<and> unat x < unat a + length bs"
      then have "contains (ranges r ! 0) x"
        using w la a assms(1,2) by (auto simp: contains_iff range_addrs_def mem_writable_def)
      with False show False ..
    qed
    with False show ?thesis by (simp add: ram_view_def decode_first view_write_def)
  qed
qed

text \<open>
  A RAM behind the first socket and silent targets behind the others: a backdoor write goes to the
  RAM or transfers nothing.
\<close>

lemma ram_dbg_at:
  assumes "decode r a = 0"
  shows "router_transport_dbg r (on_part_dbg get put memory_transport_dbg # rest) s (fill c a x n) =
    bindR (memory_transport_dbg (get s) (fill c (a - range_base (ranges r ! 0)) x n))
      (\<lambda>(m', p', k). Inr (put m' s, p'\<lparr>address := a\<rparr>, k))"
  using assms by (auto simp: router_transport_dbg_def call_socket_def on_part_dbg_def bindR_def split: sum.splits)

lemma ram_dbg_inside:
  assumes r: "ends_in_space (ranges r ! 0)" "memory_size (get s) = unat (range_size (ranges r ! 0))"
    and w: "ram_writable r (get s) a (length bs)" and len: "length bs < 2 ^ 32" and get_put: "\<And>m s. get (put m s) = m"
  shows "\<exists>m p'. router_transport_dbg r (on_part_dbg get put memory_transport_dbg # rest) s
      (fill TLM_WRITE_COMMAND a (Some bs) (of_nat (length bs))) = Inr (put m s, p', of_nat (length bs)) \<and>
    memory_size m = memory_size (get s) \<and> ram_view r m = view_write (ram_view r (get s)) a bs \<and>
    ram_writable r m = ram_writable r (get s)"
proof -
  let ?a = "a - range_base (ranges r ! 0)"
  have d: "decode r a = 0" and mw: "mem_writable (get s) ?a (length bs)" using w by (simp_all add: ram_writable_def)
  obtain st where st: "memcpy_to (mem_data (get s)) (unat ?a) bs = Inr st"
    "memory_transport_dbg (get s) (fill TLM_WRITE_COMMAND ?a (Some bs) (of_nat (length bs))) =
      Inr ((get s)\<lparr>mem_data := st\<rparr>, (fill TLM_WRITE_COMMAND ?a (Some bs) (of_nat (length bs)))
        \<lparr>response_status := TLM_OK_RESPONSE\<rparr>, of_nat (length bs))"
    by (rule memory_dbg_write_inside [OF mw len])
  have "memory_size ((get s)\<lparr>mem_data := st\<rparr>) = memory_size (get s)"
    using length_memcpy_to [OF st(1)] by (simp add: memory_size_def)
  moreover from this have "ram_writable r ((get s)\<lparr>mem_data := st\<rparr>) = ram_writable r (get s)"
    by (simp add: ram_writable_def mem_writable_def fun_eq_iff)
  ultimately show ?thesis
    using st(2) ram_view_write [OF r w st(1)] by (auto simp: ram_dbg_at [OF d])
qed

lemma ram_dbg_outside:
  assumes len: "length (ranges r) = Suc (length rest)" "length bs < 2 ^ 32" and silent: "\<forall>t \<in> set rest. silent_dbg t"
    and w: "\<not> ram_writable r (get s) a (length bs)" "bs \<noteq> []"
  shows "\<exists>s' p' n. router_transport_dbg r (on_part_dbg get put memory_transport_dbg # rest) s
      (fill TLM_WRITE_COMMAND a (Some bs) (of_nat (length bs))) = Inr (s', p', n) \<and> n \<noteq> of_nat (length bs)"
proof -
  have z: "(0 :: u32) \<noteq> of_nat (length bs)"
    using w(2) unat_of_length [OF len(2)] by (metis length_0_conv unsigned_0)
  consider "decode r a = 0" | j where "decode r a = int (Suc j)" "j < length rest" | "decode r a < 0"
    using decode_cases [of r a] len(1) by (metis Suc_less_eq gr0_conv_Suc int_ops(1) not_gr_zero zero_less_one neg_less_0_iff_less)
  then show ?thesis
  proof cases
    case 1
    with w(1) have "\<not> mem_writable (get s) (a - range_base (ranges r ! 0)) (length bs)" by (simp add: ram_writable_def)
    from memory_dbg_write_outside [OF this w(2) len(2)] show ?thesis by (auto simp: ram_dbg_at [OF 1])
  next
    case (2 j)
    then have "silent_dbg (rest ! j)" using silent by simp
    then obtain s' p' where "(rest ! j) s (fill TLM_WRITE_COMMAND (a - range_base (ranges r ! Suc j)) (Some bs)
        (of_nat (length bs))) = Inr (s', p', 0)"
      unfolding silent_dbg_def by blast
    with 2 z show ?thesis by (simp add: router_transport_dbg_def call_socket_def Let_def del: of_nat_Suc)
  next
    case 3
    with z show ?thesis by (simp add: router_transport_dbg_def Let_def)
  qed
qed

text \<open>So the bus is a debug target whose store is the RAM, and the other parts are left as they are.\<close>

lemma ram_debug_target:
  assumes r: "ranges r \<noteq> []" "ends_in_space (ranges r ! 0)" "length (ranges r) = Suc (length rest)"
    and silent: "\<forall>t \<in> set rest. silent_dbg t"
    and lens: "\<And>m s. get (put m s) = m" "\<And>m m' s. put m (put m' s) = put m s"
  shows "debug_target (router_transport_dbg r (on_part_dbg get put memory_transport_dbg # rest))
    (\<lambda>s. memory_size (get s) = unat (range_size (ranges r ! 0)) \<and> (\<exists>m. s = put m s0))
    (\<lambda>s. ram_view r (get s)) (\<lambda>s. ram_writable r (get s))"
    (is "debug_target ?dbg ?inv _ _")
proof (rule debug_target.intro)
  fix s and a :: u64 and bs :: "u8 list"
  assume inv: "?inv s" and w: "ram_writable r (get s) a (length bs)" and len: "length bs < 2 ^ 32"
  obtain m p' where "?dbg s (fill TLM_WRITE_COMMAND a (Some bs) (of_nat (length bs))) = Inr (put m s, p', of_nat (length bs))"
    "memory_size m = memory_size (get s)" "ram_view r m = view_write (ram_view r (get s)) a bs"
    "ram_writable r m = ram_writable r (get s)"
    using ram_dbg_inside [where get = get and put = put and r = r and s = s, OF r(2) _ w len lens(1)] inv by blast
  moreover have "\<exists>m'. put m s = put m' s0" using inv lens(2) by auto
  ultimately show "\<exists>s' p'. ?dbg s (fill TLM_WRITE_COMMAND a (Some bs) (of_nat (length bs))) =
      Inr (s', p', of_nat (length bs)) \<and> ?inv s' \<and> ram_view r (get s') = view_write (ram_view r (get s)) a bs \<and>
      ram_writable r (get s') = ram_writable r (get s)"
    using inv by (intro exI [of _ "put m s"] exI [of _ p']) (simp add: lens(1))
qed (rule ram_dbg_outside [OF r(3) _ silent])

text \<open>The constructor of a top succeeds, and binds each socket of the CPU to a port of its own.\<close>

definition riscv_router :: "(u64 \<times> u64) list \<Rightarrow> bool \<Rightarrow> bus_router" where
  "riscv_router m unified = (bus_router_new (length m) (if unified then 1 else 2))\<lparr>ranges := map_ranges m\<rparr>"

lemma riscv_router_ranges [simp]: "ranges (riscv_router m unified) = map_ranges m"
  by (simp add: riscv_router_def)

definition cpu_bindings :: "('c, 's) cpu_base \<Rightarrow> (cpu_bus \<times> cpu_socket) list" where
  "cpu_bindings B = (if cb_has_unified_bus B then [(cb_data_bus B, Target_socket)]
     else [(cb_instr_bus B, Target_socket), (cb_data_bus B, Extra_port 0)])"

lemma riscv_top_new_eq:
  "riscv_top_new B platform m config gq =
     Inr (fst (cb_construct B gq), snd (cb_construct B gq), riscv_router m (cb_has_unified_bus B), cpu_bindings B,
       top_banner platform config (cb_backend_name B))"
proof -
  have "add_targets (bus_router_new (length m) (if cb_has_unified_bus B then 1 else 2)) m =
      Inr (riscv_router m (cb_has_unified_bus B), [0..<length m])"
    using platform_bus_eq [of m "cb_has_unified_bus B"] by (simp add: platform_bus_def riscv_router_def)
  then show ?thesis
    by (simp add: riscv_top_new_def case_prod_beta bind_cpu_buses_def cpu_port_def bus_router_new_def cpu_bindings_def)
qed

lemma sc_times [simp]: "sc_time_of SC_MS 5 = Inr 5000000000" "sc_time_of SC_MS 1 = Inr 1000000000"
  by (simp_all add: sc_time_of_exact SC_MS_def)

context cpu_backend
begin

lemma bindings_distinct: "distinct (map fst (cpu_bindings B)) \<and> distinct (map snd (cpu_bindings B))"
  using unified by (simp add: cpu_bindings_def)

text \<open>
  The programs with an image on the command line: the loader's work on the fresh platform, the
  start of the core, and the simulation for the platform's time.
\<close>

lemma start_fresh:
  assumes "fw \<noteq> []"
  shows "sc_start B files dbg sim r gq' t (top_load_firmware B fw (snd (cb_construct B gq))) s =
    bindR (load_elf (dbg r) fw (files fw) s)
      (\<lambda>(s', entry). sim r gq' t (boot entry (cb_load_elf B fw (snd (cb_construct B gq))), s'))"
  using start_loads [OF construct_live assms]
  by (cases "load_elf (dbg r) fw (files fw) s") (auto simp: sc_start_def top_load_firmware_def)

lemma custom_soc_main:
  assumes "get_opt argv ''--fw'' [] = fw" and "fw \<noteq> []"
    and "stoull (get_opt argv ''--quantum'' ''1000'') = Inr q" and "sc_time_of SC_NS q = Inr gq"
  shows "custom_soc_sc_main B files dbg sim s argv =
    (let r = riscv_router riscv_custom_soc_map (cb_has_unified_bus B); c = cb_construct B gq;
         config = get_opt argv ''-c'' ''platforms/riscv_custom_soc/configs/default.yaml''
     in bindR (load_elf (dbg r) fw (files fw) s) (\<lambda>(s', entry).
        bindR (sim r (fst c) 5000000000 (boot entry (cb_load_elf B fw (snd c)), s'))
          (\<lambda>(cpu, s). Inr (top_banner ''riscv_custom_soc'' config (cb_backend_name B), 0, cpu, s))))"
  using assms(2)
  by (cases "load_elf (dbg (riscv_router riscv_custom_soc_map (cb_has_unified_bus B))) fw (files fw) s")
    (auto simp: custom_soc_sc_main_def Let_def assms(1,3,4) riscv_custom_soc_top_new_def riscv_top_new_eq start_fresh)

end

text \<open>The platform's backdoor on a fresh SoC, whose RAM is the 64 KiB at \<open>0x80000000\<close>.\<close>

definition in_ram :: "u64 \<Rightarrow> nat \<Rightarrow> bool" where
  "in_ram a n \<longleftrightarrow> 0x80000000 \<le> unat a \<and> unat a < 0x80010000 \<and> unat a + n \<le> 0x80010000"

lemma ram_writable_in_ram:
  assumes "map_ranges m = \<lparr>range_base = 0x80000000, range_size = 0x10000\<rparr> # rs"
  shows "ram_writable (riscv_router m unified) (memory_new 0x10000 False lat) a n \<longleftrightarrow> in_ram a n"
proof -
  have "contains \<lparr>range_base = 0x80000000, range_size = 0x10000\<rparr> a \<longleftrightarrow> 0x80000000 \<le> unat a \<and> unat a < 0x80010000"
    by (simp add: contains_iff range_addrs_def ends_in_space_def)
  moreover have "unat (a - 0x80000000) = unat a - 0x80000000" if "0x80000000 \<le> unat a"
    using that by (simp add: unat_sub word_le_nat_alt)
  ultimately show ?thesis
    using assms by (auto simp: ram_writable_def decode_first mem_writable_def memory_new_def memory_size_def in_ram_def)
qed

lemma custom_soc_load:
  fixes u :: 'u and i :: 'i and unified :: bool
  defines "r \<equiv> riscv_router riscv_custom_soc_map unified" and "s \<equiv> custom_soc_new u i"
  assumes "silent_dbg U" and "silent_dbg I" and "length b < 2 ^ 32" and "elf_image b = Some (entry, segs)"
  shows "if \<forall>(a, bs) \<in> set segs. in_ram a (length bs)
    then \<exists>m. load_elf (router_transport_dbg r (custom_soc_dbg_targets U I)) path (Some b) s = Inr (s\<lparr>soc_ram := m\<rparr>, entry) \<and>
      ram_view r m = place segs (ram_view r (soc_ram s))
    else load_elf (router_transport_dbg r (custom_soc_dbg_targets U I)) path (Some b) s =
      Inl (Runtime_error ''elf_loader: backdoor write incomplete (address not mapped?)'')"
proof -
  let ?put = "\<lambda>m (s :: ('u, 'i) custom_soc). s\<lparr>soc_ram := m\<rparr>"
  let ?rest = "tl (custom_soc_dbg_targets U I)"
  have dt: "debug_target (router_transport_dbg r (on_part_dbg soc_ram ?put memory_transport_dbg # ?rest))
      (\<lambda>s'. memory_size (soc_ram s') = unat (range_size (ranges r ! 0)) \<and> (\<exists>m. s' = ?put m s))
      (\<lambda>s. ram_view r (soc_ram s)) (\<lambda>s. ram_writable r (soc_ram s))"
    using assms(3,4)
    by (intro ram_debug_target) (auto simp: r_def map_ranges_def riscv_custom_soc_map_def ends_in_space_def
        custom_soc_dbg_targets_def no_transport_dbg_silent intro: on_part_silent)
  have inv: "memory_size (soc_ram s) = unat (range_size (ranges r ! 0)) \<and> (\<exists>m. s = ?put m s)"
    by (auto simp: s_def r_def custom_soc_new_def memory_new_def memory_size_def map_ranges_def riscv_custom_soc_map_def
        intro: exI [of _ "soc_ram s"])
  have w: "ram_writable r (soc_ram s) a n \<longleftrightarrow> in_ram a n" for a n
    unfolding r_def s_def custom_soc_new_def
    by (simp add: ram_writable_in_ram [where rs = "map_ranges (tl riscv_custom_soc_map)"] map_ranges_def riscv_custom_soc_map_def)
  have "on_part_dbg soc_ram ?put memory_transport_dbg # ?rest = custom_soc_dbg_targets U I"
    by (simp add: custom_soc_dbg_targets_def)
  with debug_target.load_elf_spec [OF dt inv assms(5,6), of path] w show ?thesis
    by (auto split: if_splits)
qed

text \<open>Numbers on the command line, the default of the quantum and none.\<close>

lemma stoull_examples: "stoull ''1000'' = Inr 1000" "stoull ''fast'' = Inl (Invalid_argument ''stoull'')"
  by (simp_all add: stoull_def Let_def is_space_def is_digit_def digits_value_def)

text \<open>A number that cannot be read, or a quantum beyond the range of the time, ends the programs at once.\<close>

lemma mains_bad_quantum:
  assumes "bindR (stoull (get_opt argv ''--quantum'' ''1000'')) (sc_time_of SC_NS) = Inl e"
  shows "custom_soc_sc_main B files dbg sim s argv = Inl e" and "cpu_eval_sc_main B files dbg sim host s argv = Inl e"
  using assms by (auto simp: custom_soc_sc_main_def cpu_eval_sc_main_def Let_def bindR_eq_Inl)

text \<open>
  The benchmark reports the quantum of the command line, not the one in force: below 10 ns the
  Bremen wrapper has replaced it by 1 us.
\<close>

lemma bench_reports_request:
  assumes "has_flag argv ''--bench''" and "stoull (get_opt argv ''--quantum'' ''1000'') = Inr q"
    and "sc_time_of SC_NS q = Inr gq" and "gq < 10000" and "stoull (get_opt argv ''--sim-ms'' ''20'') = Inr n"
    and "sc_time_of SC_MS n = Inr t" and "get_opt argv ''--fw'' [] = []"
    and "sim (riscv_router riscv_cpu_eval_map True) 1000000 t (vp_new iss, s) = Inr (cpu, s')"
  shows "\<exists>out. cpu_eval_sc_main (vp_backend ops iss) files dbg sim host s argv =
    Inr (out @ [bench_report vp_backend_name q n (vp_get_instret ops cpu) (host (vp_get_instret ops cpu))], 0, cpu, s')"
  using assms
  by (simp add: cpu_eval_sc_main_def Let_def riscv_cpu_eval_top_new_def riscv_top_new_eq sc_start_def vp_backend_def
      vp_construct_def quantum_init_def vp_start_of_simulation_def vp_new_def top_get_instret_def top_backend_name_def)

text \<open>The time the Bremen core reads is in picoseconds, the \<open>mtime\<close> of the CLINT in microseconds.\<close>

lemma stub_clint_scale: "now_mtime now = stub_clint_update_and_get_mtime now div 1000000"
  by (simp add: now_mtime_def stub_clint_update_and_get_mtime_def kScaler_def)

text \<open>A stub from its start to its end, when its device interrupts, or to its \<open>wait\<close>.\<close>

lemma stub_main:
  assumes "r1 = Inr s1"
    and "\<And>t. \<exists>u'. run2 t = Inr (t\<lparr>mini_uart := u'\<rparr>) \<and> out u' = out (mini_uart t) @ last_line"
  shows "\<exists>s. bindR r1 (\<lambda>s. case rises (mini_dev s) of None \<Rightarrow> Inr (b, 0, s)
        | Some d' \<Rightarrow> bindR (run2 (s\<lparr>mini_dev := d'\<rparr>)) (\<lambda>s. Inr (b, 0, s))) = Inr (b, 0, s) \<and>
      mini_ram s = mini_ram s1 \<and>
      out (mini_uart s) = out (mini_uart s1) @ (if rises (mini_dev s1) = None then [] else last_line)"
proof (cases "rises (mini_dev s1)")
  case None
  with assms(1) show ?thesis by simp
next
  case (Some d')
  from assms(2) [of "s1\<lparr>mini_dev := d'\<rparr>"] show ?thesis using assms(1) Some by auto
qed

section \<open>Properties\<close>

text \<open>
  C14: the program \<open>riscv_custom_soc\<close> with a firmware on its command line. With the Bremen backend
  over any ISS whose program counter is set by \<open>init\<close>, a file below 4 GiB that is a well-formed image
  for the RAM, and a number of nanoseconds for the quantum, \<open>sc_main\<close> simulates for exactly 5 ms, and
  then exits with 0, the platform whose RAM holds the segments of the image and whose other parts
  are fresh, with the core at the entry point and a quantum its ISS accepts.
\<close>

theorem custom_soc_main_boots:
  fixes u :: 'u and i :: 'i and iss :: 'iss
  assumes "silent_dbg U" and "silent_dbg I" and "iss_pc_law ops"
    and "get_opt argv ''--fw'' [] = fw" and "fw \<noteq> []" and "files fw = Some b" and "length b < 2 ^ 32"
    and "elf_image b = Some (entry, segs)" and "\<forall>(a, bs) \<in> set segs. in_ram a (length bs)"
    and "stoull (get_opt argv ''--quantum'' ''1000'') = Inr q" and "unat q * SC_NS < 2 ^ 53"
  defines "s \<equiv> custom_soc_new u i" and "r \<equiv> riscv_router riscv_custom_soc_map True"
  shows "\<exists>m cpu gq out. custom_soc_sc_main (vp_backend ops iss) files
        (\<lambda>r. router_transport_dbg r (custom_soc_dbg_targets U I)) sim s argv =
      bindR (sim r gq 5000000000 (cpu, s\<lparr>soc_ram := m\<rparr>)) (\<lambda>(cpu', s'). Inr (out, 0, cpu', s')) \<and>
    ram_view r m = place segs (ram_view r (soc_ram s)) \<and> vp_get_pc ops cpu = take_bit 32 entry \<and>
    gq = (if q < 10 then 1000000 else q * 1000) \<and> 10000 \<le> gq"
proof -
  let ?B = "vp_backend ops iss :: ('iss riscv_vp_cpu, ('u, 'i) custom_soc) cpu_base"
  have q: "sc_time_of SC_NS q = Inr (q * 1000)"
    using assms(11) by (simp add: sc_time_of_exact SC_NS_def word_unat_eq_iff unat_word_ariths)
  have "unat (q * 1000) = unat q * 1000" using assms(11) by (simp add: SC_NS_def unat_word_ariths)
  then have gq: "fst (cb_construct ?B (q * 1000)) = (if q < 10 then 1000000 else q * 1000)"
    by (simp add: vp_backend_def vp_construct_def quantum_init_def word_less_nat_alt)
  obtain m where m: "load_elf (router_transport_dbg r (custom_soc_dbg_targets U I)) fw (Some b) s =
      Inr (s\<lparr>soc_ram := m\<rparr>, entry)" "ram_view r m = place segs (ram_view r (soc_ram s))"
    using custom_soc_load [OF assms(1,2,7,8), where unified = True and u = u and i = i and path = fw] assms(9)
    by (auto simp: r_def s_def)
  let ?c = "cb_construct ?B (q * 1000)"
  let ?cpu = "vp_boot ops entry (cb_load_elf ?B fw (snd ?c))"
  let ?out = "top_banner ''riscv_custom_soc'' (get_opt argv ''-c'' ''platforms/riscv_custom_soc/configs/default.yaml'')
    (cb_backend_name ?B)"
  have "10000 \<le> fst ?c" using vp_construct_quantum(1) [of iss] by (simp add: vp_backend_def)
  moreover have "riscv_router riscv_custom_soc_map (cb_has_unified_bus ?B) = r" by (simp add: vp_backend_def r_def)
  then have "custom_soc_sc_main ?B files (\<lambda>r. router_transport_dbg r (custom_soc_dbg_targets U I)) sim s argv =
      bindR (sim r (fst ?c) 5000000000 (?cpu, s\<lparr>soc_ram := m\<rparr>)) (\<lambda>(cpu', s'). Inr (?out, 0, cpu', s'))"
    by (simp only: vp_cpu.custom_soc_main [OF assms(4,5,10) q] Let_def assms(6) m(1) bindR_Inr case_prod_conv)
  ultimately show ?thesis
    using m(2) boot_pc(1) [OF assms(3)] gq by (intro exI [of _ m] exI [of _ ?cpu] exI [of _ "fst ?c"] exI [of _ ?out]) simp
qed

theorem custom_soc_main_boots_witness:
  "\<exists>m cpu out. custom_soc_sc_main (vp_backend bit_iss (\<lambda>_. False, 0)) (\<lambda>_. Some demo_image)
      (\<lambda>r. router_transport_dbg r (custom_soc_dbg_targets no_transport_dbg no_transport_dbg)) (\<lambda>r gq t x. Inr x)
      (custom_soc_new () ()) [''vp'', ''--fw'', ''fw.elf''] = Inr (out, 0, cpu, (custom_soc_new () ())\<lparr>soc_ram := m\<rparr>) \<and>
    vp_get_pc bit_iss cpu = 0x80000000 \<and> ram_view (riscv_router riscv_custom_soc_map True) m 0x80000001 = Some 0x05"
proof -
  let ?argv = "[''vp'', ''--fw'', ''fw.elf'']"
  have "get_opt ?argv ''--fw'' [] = ''fw.elf''" "stoull (get_opt ?argv ''--quantum'' ''1000'') = Inr 1000"
    by (simp_all add: get_opt_def stoull_examples)
  moreover have "\<forall>(a, bs) \<in> set [(0x80000000, [0x13, 0x05, 0x10, 0x00 :: u8])]. in_ram a (length bs)"
    by (simp add: in_ram_def)
  ultimately show ?thesis
    using custom_soc_main_boots [OF no_transport_dbg_silent no_transport_dbg_silent bit_iss_laws(2), where argv = ?argv and
        fw = "''fw.elf''" and files = "\<lambda>_. Some demo_image" and b = demo_image and q = 1000 and iss = "(\<lambda>_. False, 0)" and
        u = "()" and i = "()" and sim = "\<lambda>r gq t x. Inr x", OF _ _ _ _ demo_image_eq]
    by (fastforce simp: place_def view_write_def SC_NS_def)
qed

text \<open>
  C28: what the program \<open>riscv_custom_soc\<close> refuses. An unreadable or too large number for the quantum
  ends it with the exception of \<open>stoull\<close> before the platform is built. A minus sign \<open>stoull\<close> accepts: a
  magnitude of 1 to \<open>2 ^ 64 - 2 ^ 54\<close> wraps to a number whose conversion to a time has no defined
  result. A firmware that cannot be opened, or that has a segment outside the RAM, ends it with the
  loader's error before any time is simulated.
\<close>

theorem custom_soc_main_rejects:
  fixes u :: 'u and i :: 'i and iss :: 'iss and ops :: "'iss iss_ops" and files :: "string \<Rightarrow> u8 list option"
    and U :: "'u debug_transport" and I :: "'i debug_transport"
    and sim :: "('iss riscv_vp_cpu, ('u, 'i) custom_soc) kernel"
  defines "main \<equiv> custom_soc_sc_main (vp_backend ops iss) files
    (\<lambda>r. router_transport_dbg r (custom_soc_dbg_targets U I)) sim (custom_soc_new u i)"
  shows "(stoull (get_opt argv ''--quantum'' ''1000'') = Inl e \<longrightarrow> main argv = Inl e) \<and>
    (get_opt argv ''--quantum'' ''1000'' = ''-'' @ decimal n \<and> 0 < n \<and> n \<le> 2 ^ 64 - 2 ^ 54 \<longrightarrow>
      main argv = Inl Conversion_overflow) \<and>
    (stoull (get_opt argv ''--quantum'' ''1000'') = Inr q \<and> sc_time_of SC_NS q = Inr gq \<and> get_opt argv ''--fw'' [] = fw \<and> fw \<noteq> [] \<longrightarrow>
      (files fw = None \<longrightarrow> main argv = Inl (Runtime_error (''elf_loader: cannot open '' @ fw))) \<and>
      (files fw = Some b \<and> length b < 2 ^ 32 \<and> elf_image b = Some (entry, segs) \<and> silent_dbg U \<and> silent_dbg I \<and>
          (a, bs) \<in> set segs \<and> \<not> in_ram a (length bs) \<longrightarrow>
        main argv = Inl (Runtime_error ''elf_loader: backdoor write incomplete (address not mapped?)'')))"
proof (intro conjI impI; (elim conjE)?)
  assume "stoull (get_opt argv ''--quantum'' ''1000'') = Inl e"
  then show "main argv = Inl e" unfolding main_def by (intro mains_bad_quantum) simp
next
  assume "get_opt argv ''--quantum'' ''1000'' = ''-'' @ decimal n" "0 < n" "n \<le> 2 ^ 64 - 2 ^ 54"
  then show "main argv = Inl Conversion_overflow"
    unfolding main_def using stoull_decimal [of "[]" "''-''" "[]" n] by (intro mains_bad_quantum) (simp add: sc_time_of_negative)
next
  assume h: "stoull (get_opt argv ''--quantum'' ''1000'') = Inr q" "sc_time_of SC_NS q = Inr gq"
    "get_opt argv ''--fw'' [] = fw" "fw \<noteq> []"
  note main = vp_cpu.custom_soc_main [OF h(3,4,1,2), of ops iss files "\<lambda>r. router_transport_dbg r (custom_soc_dbg_targets U I)"]
  show "main argv = Inl (Runtime_error (''elf_loader: cannot open '' @ fw))" if "files fw = None"
    unfolding main_def main using that by (simp add: Let_def load_elf_def)
  show "main argv = Inl (Runtime_error ''elf_loader: backdoor write incomplete (address not mapped?)'')"
    if "files fw = Some b" "length b < 2 ^ 32" "elf_image b = Some (entry, segs)" "silent_dbg U" "silent_dbg I"
      "(a, bs) \<in> set segs" "\<not> in_ram a (length bs)"
    using custom_soc_load [OF that(4,5,2,3), where u = u and i = i and path = fw and
        unified = "cb_has_unified_bus (vp_backend ops iss :: ('iss riscv_vp_cpu, ('u, 'i) custom_soc) cpu_base)"] that(1,6,7)
    unfolding main_def main by (auto simp: Let_def split: if_splits)
qed

theorem custom_soc_main_rejects_witness:
  "custom_soc_sc_main (vp_backend bit_iss (\<lambda>_. False, 0)) (\<lambda>_. None)
     (\<lambda>r. router_transport_dbg r (custom_soc_dbg_targets no_transport_dbg no_transport_dbg)) (\<lambda>r gq t x. Inr x)
     (custom_soc_new () ()) [''vp'', ''--fw'', ''fw.elf''] =
   Inl (Runtime_error (''elf_loader: cannot open '' @ ''fw.elf''))"
proof -
  let ?argv = "[''vp'', ''--fw'', ''fw.elf'']"
  have "get_opt ?argv ''--fw'' [] = ''fw.elf''" "stoull (get_opt ?argv ''--quantum'' ''1000'') = Inr 1000"
    "sc_time_of SC_NS 1000 = Inr 1000000"
    by (simp_all add: get_opt_def stoull_examples sc_time_of_exact SC_NS_def)
  then show ?thesis
    using custom_soc_main_rejects [where argv = ?argv and fw = "''fw.elf''" and files = "\<lambda>_. None" and q = 1000
      and gq = 1000000 and ops = bit_iss and iss = "(\<lambda>_. False, 0)" and u = "()" and i = "()" and U = no_transport_dbg and
      I = no_transport_dbg and sim = "\<lambda>r gq t x. Inr x"]
    by simp
qed

text \<open>
  C37: the programs \<open>mini_tlm\<close> and \<open>mini_soc\<close> from their command line to their end. On a UART that
  sends what it is given and a device that accepts its programming, each exits with 0 with the
  pattern in its RAM; it has sent its greeting, and its last line exactly when the device has
  interrupted; it has printed the configuration path it was given.
\<close>

theorem mini_mains_run:
  assumes "uart_sends U out"
    and "write32 T 0 1 d = Inr t" and "write32 I 0x4C 1 i = Inr i1" and "write32 I 0x00 1 i1 = Inr i2"
    and "write32 I 0x04 1 i2 = Inr i3"
  shows "(\<exists>s. mini_tlm_sc_main U T rises u d argv =
        Inr (config_banner ''mini_tlm'' (mini_tlm_parse_config_path argv), 0, s) \<and>
      mini_ram s = patterned (memory_new 0x1000 False 10000) \<and>
      out (mini_uart s) = out u @ ascii (line ''Hello from mini VP'') @
        (if rises t = None then [] else ascii (line ''Timer IRQ fired at 10ms''))) \<and>
    (\<exists>s. mini_soc_sc_main U I rises' u i argv =
        Inr (config_banner ''mini_soc'' (mini_soc_parse_config_path argv), 0, s) \<and>
      mini_ram s = patterned (memory_new 0x10000 False 10000) \<and>
      out (mini_uart s) = out u @ ascii (line ''Hello from mini SoC '') @
        (if rises' i3 = None then [] else ascii (line ''I2C IRQ fired'')))"
proof (intro conjI)
  have new: "memory_size (mini_ram (mini_tlm_new u d)) = 0x1000" "memory_size (mini_ram (mini_soc_new u i)) = 0x10000"
    "\<not> mem_read_only (mini_ram (mini_tlm_new u d))" "\<not> mem_read_only (mini_ram (mini_soc_new u i))"
    "mini_dev (mini_tlm_new u d) = d" "mini_dev (mini_soc_new u i) = i"
    by (simp_all add: mini_tlm_new_def mini_soc_new_def memory_new_def memory_size_def)
  note tlm = mini_tlm_runs [OF assms(1), of T "mini_tlm_new u d" t, unfolded new(5), OF assms(2) new(1,3)]
  obtain u1 where "mini_tlm_run1 (mini_tlm_b_transport U T) (mini_tlm_new u d) =
      Inr ((mini_tlm_new u d)\<lparr>mini_uart := u1, mini_ram := patterned (mini_ram (mini_tlm_new u d)), mini_dev := t\<rparr>)"
    "out u1 = out (mini_uart (mini_tlm_new u d)) @ ascii (line ''Hello from mini VP'')"
    using tlm by blast
  with stub_main [where ?run2.0 = "mini_tlm_run2 (mini_tlm_b_transport U T)" and out = out and rises = rises and
      b = "config_banner ''mini_tlm'' (mini_tlm_parse_config_path argv)", OF this(1) conjunct2 [OF tlm]]
  show "\<exists>s. mini_tlm_sc_main U T rises u d argv =
        Inr (config_banner ''mini_tlm'' (mini_tlm_parse_config_path argv), 0, s) \<and>
      mini_ram s = patterned (memory_new 0x1000 False 10000) \<and>
      out (mini_uart s) = out u @ ascii (line ''Hello from mini VP'') @
        (if rises t = None then [] else ascii (line ''Timer IRQ fired at 10ms''))"
    unfolding mini_tlm_sc_main_def Let_def by (simp add: mini_tlm_new_def)
  note soc = mini_soc_runs [OF assms(1), of I "mini_soc_new u i" i1 i2 i3, unfolded new(6), OF assms(3-5) new(2,4)]
  obtain u2 where "mini_soc_run1 (mini_soc_b_transport U I) (mini_soc_new u i) =
      Inr ((mini_soc_new u i)\<lparr>mini_uart := u2, mini_ram := patterned (mini_ram (mini_soc_new u i)), mini_dev := i3\<rparr>)"
    "out u2 = out (mini_uart (mini_soc_new u i)) @ ascii (line ''Hello from mini SoC '')"
    using soc by blast
  with stub_main [where ?run2.0 = "mini_soc_run2 (mini_soc_b_transport U I)" and out = out and rises = rises' and
      b = "config_banner ''mini_soc'' (mini_soc_parse_config_path argv)", OF this(1) conjunct2 [OF soc]]
  show "\<exists>s. mini_soc_sc_main U I rises' u i argv =
        Inr (config_banner ''mini_soc'' (mini_soc_parse_config_path argv), 0, s) \<and>
      mini_ram s = patterned (memory_new 0x10000 False 10000) \<and>
      out (mini_uart s) = out u @ ascii (line ''Hello from mini SoC '') @
        (if rises' i3 = None then [] else ascii (line ''I2C IRQ fired''))"
    unfolding mini_soc_sc_main_def Let_def by (simp add: mini_soc_new_def)
qed

theorem mini_mains_run_witness:
  "\<exists>s. mini_soc_sc_main uart_sink word_sink (\<lambda>ws. Some ws) [] [] [''mini_soc'', ''-c'', ''my.yaml''] =
     Inr ([''mini_soc config: my.yaml''], 0, s) \<and>
     mini_uart s = ascii (line ''Hello from mini SoC '') @ ascii (line ''I2C IRQ fired'')"
  using mini_mains_run [OF uart_sink_sends, of word_sink "[]" "[1]" word_sink "[]" "[1]" "[1, 1]" "[1, 1, 1]" "\<lambda>_. None"
      "[]" "[''mini_soc'', ''-c'', ''my.yaml'']" "\<lambda>ws. Some ws"]
  by (auto simp: word_sink_write config_banner_def mini_soc_parse_config_path_def)

end
