(* ===== verification/Firmware_Run.thy ===== *)
theory Firmware_Run
  imports Firmware
begin

text \<open>
  The interrupt demo of \<open>fw/soc_irq_riscv\<close> as a whole: an invariant of all interleavings of the
  program, the interrupt line, the two controllers and time, and what follows from it for the
  output and for progress.
\<close>

section \<open>Effects of the program\<close>

lemma uart_puts_eq: "uart_puts U I str s =
    bindR (write_uart U 0 str (soc_uart (fw_soc s))) (\<lambda>u. Inr (s\<lparr>fw_soc := (fw_soc s)\<lparr>soc_uart := u\<rparr>\<rparr>))"
proof -
  have "write_uart (custom_soc_b_transport now U I) UART_TX str t =
      bindR (write_uart U 0 str (soc_uart t)) (\<lambda>u. Inr (t\<lparr>soc_uart := u\<rparr>))" for now t
    by (rule write_uart_part) (simp_all add: soc_accesses)
  then show ?thesis
    by (cases "write_uart U 0 str (soc_uart (fw_soc s))") (simp_all add: uart_puts_def on_bus_def)
qed

lemma puts_effect:
  assumes "uart_sends U out"
  obtains u where "uart_puts U I str s = Inr (s\<lparr>fw_soc := (fw_soc s)\<lparr>soc_uart := u\<rparr>\<rparr>)"
    and "out u = out (soc_uart (fw_soc s)) @ ascii str"
  using write_uart_sends [OF assms, of str "soc_uart (fw_soc s)"] by (auto simp: uart_puts_eq)

lemmas fw_accesses = fw_store_def fw_load_def on_bus_def soc_accesses

lemma plic_init_effect:
  assumes "plic_fresh (soc_plic (fw_soc s))"
  obtains c where "fw_plic_init U I s = Inr (s\<lparr>fw_soc := (fw_soc s)\<lparr>soc_plic := c\<rparr>\<rparr>)"
    and "plic_one c False (irq_in (soc_plic (fw_soc s)) ! 0)" and "coherent c"
proof (rule plic_init_writes [OF assms])
  fix c1 c2 c3
  assume "write32 plic_b_transport 4 1 (soc_plic (fw_soc s)) = Inr c1" "write32 plic_b_transport kEnable 2 c1 = Inr c2"
    "write32 plic_b_transport kThreshold 0 c2 = Inr c3" and "plic_one c3 False (irq_in (soc_plic (fw_soc s)) ! 0)" "coherent c3"
  then show thesis
    by (intro that [of c3]) (simp_all add: fw_plic_init_def fw_accesses)
qed

text \<open>The compare value the program writes.\<close>

definition armed :: "sc_time \<Rightarrow> u64" where
  "armed now = ucast (ucast (now_mtime now) + 100 :: u32) OR push_bit 32 (ucast (ucast (drop_bit 32 (now_mtime now)) :: u32))"

lemma arm_effect: "fw_arm_timer U I s = Inr (s\<lparr>fw_soc := (fw_soc s)\<lparr>soc_clint :=
    (soc_clint (fw_soc s))\<lparr>mtimecmp := armed (fw_now s), cmp_event := Some Delta\<rparr>\<rparr>\<rparr>)"
proof (rule clint_arm)
  fix c1
  assume "write32 (clint_b_transport (fw_now s)) 0x4004 (ucast (drop_bit 32 (now_mtime (fw_now s)))) (soc_clint (fw_soc s)) = Inr c1"
    "write32 (clint_b_transport (fw_now s)) 0x4000 (ucast (now_mtime (fw_now s)) + 100) c1 = Inr ((soc_clint (fw_soc s))
      \<lparr>mtimecmp := ucast (ucast (now_mtime (fw_now s)) + 100 :: u32) OR push_bit 32 (ucast (ucast (drop_bit 32 (now_mtime (fw_now s))) :: u32)),
       cmp_event := Some Delta\<rparr>)"
  then show ?thesis by (simp add: fw_arm_timer_def fw_accesses clint_read_time armed_def)
qed

lemma i2c_start_effect:
  assumes "i2c_interrupts I irq"
  obtains i where "fw_start_i2c U I s = Inr (s\<lparr>fw_soc := (fw_soc s)\<lparr>soc_i2c := i\<rparr>\<rparr>)" and "irq i"
proof -
  obtain i1 i2 i3 where "write32 I 0x4C 1 (soc_i2c (fw_soc s)) = Inr i1" "write32 I 0x00 1 i1 = Inr i2"
    "write32 I 0x04 1 i2 = Inr i3" "irq i3"
    using assms unfolding i2c_interrupts_def by metis
  then show thesis by (intro that [of i3]) (simp_all add: fw_start_i2c_def fw_accesses)
qed

lemma init_effect:
  assumes "uart_sends U out" and "i2c_interrupts I irq" and "plic_fresh (soc_plic (fw_soc s))"
  obtains u c i where "fw_main_init U I s = Inr (s\<lparr>csr_mtvec := True, csr_mie := csr_mie s OR 0x880,
      csr_mstatus := csr_mstatus s OR 8, fw_soc := (fw_soc s)\<lparr>soc_uart := u, soc_plic := c, soc_clint :=
      (soc_clint (fw_soc s))\<lparr>mtimecmp := armed (fw_now s), cmp_event := Some Delta\<rparr>, soc_i2c := i\<rparr>\<rparr>)"
    and "out u = out (soc_uart (fw_soc s)) @ ascii (line ''Hello from custom SoC'')"
    and "plic_one c False (irq_in (soc_plic (fw_soc s)) ! 0)" and "coherent c" and "irq i"
proof -
  obtain u where u: "uart_puts U I (line ''Hello from custom SoC'') s = Inr (s\<lparr>fw_soc := (fw_soc s)\<lparr>soc_uart := u\<rparr>\<rparr>)"
    "out u = out (soc_uart (fw_soc s)) @ ascii (line ''Hello from custom SoC'')"
    by (rule puts_effect [OF assms(1)])
  let ?s1 = "s\<lparr>fw_soc := (fw_soc s)\<lparr>soc_uart := u\<rparr>, csr_mtvec := True\<rparr>"
  obtain c where c: "fw_plic_init U I ?s1 = Inr (?s1\<lparr>fw_soc := (fw_soc ?s1)\<lparr>soc_plic := c\<rparr>\<rparr>)"
    "plic_one c False (irq_in (soc_plic (fw_soc s)) ! 0)" "coherent c"
    by (rule plic_init_effect [of ?s1]) (use assms(3) in simp_all)
  let ?s2 = "s\<lparr>csr_mtvec := True, csr_mie := csr_mie s OR 0x880, csr_mstatus := csr_mstatus s OR 8,
      fw_soc := (fw_soc s)\<lparr>soc_uart := u, soc_plic := c, soc_clint :=
      (soc_clint (fw_soc s))\<lparr>mtimecmp := armed (fw_now s), cmp_event := Some Delta\<rparr>\<rparr>\<rparr>"
  obtain i where "fw_start_i2c U I ?s2 = Inr (?s2\<lparr>fw_soc := (fw_soc ?s2)\<lparr>soc_i2c := i\<rparr>\<rparr>)" "irq i"
    by (rule i2c_start_effect [OF assms(2)])
  with u c show thesis
    by (intro that [where u = u and c = c and i = i])
      (simp_all add: fw_main_init_def arm_effect MIE_MTIE_def MIE_MEIE_def MSTATUS_MIE_def Let_def)
qed

lemma timer_effect:
  assumes "uart_sends U out"
  obtains u where "trap_timer U I s = Inr (s\<lparr>fw_soc := (fw_soc s)\<lparr>soc_uart := u\<rparr>, timer_done := 1,
      csr_mie := csr_mie s AND NOT 0x80\<rparr>)" and "out u = out (soc_uart (fw_soc s)) @ ascii (line ''TIMER'')"
  by (rule puts_effect [OF assms, where str = "line ''TIMER''" and s = s and I = I])
    (simp add: trap_timer_def MIE_MTIE_def)

lemma claim_effect:
  assumes "plic_one (soc_plic (fw_soc s)) cl l"
  obtains c where "trap_claim U I s = Inr (s\<lparr>fw_soc := (fw_soc s)\<lparr>soc_plic := c\<rparr>\<rparr>, if l \<and> \<not> cl then 1 else 0)"
    and "plic_one c (cl \<or> l) l" and "coherent c"
  by (rule plic_one_claim [OF assms]) (simp add: trap_claim_def fw_accesses)

lemma service_effect:
  assumes "uart_sends U out" and "i2c_interrupts I irq"
  obtains u i where "trap_service U I 1 s = Inr (s\<lparr>fw_soc := (fw_soc s)\<lparr>soc_uart := u, soc_i2c := i\<rparr>, ext_done := 1\<rparr>)"
    and "out u = out (soc_uart (fw_soc s)) @ ascii (line ''EXT IRQ'')" and "\<not> irq i"
proof -
  obtain i where i: "write32 I 0x50 1 (soc_i2c (fw_soc s)) = Inr i" "\<not> irq i"
    using assms(2) unfolding i2c_interrupts_def by metis
  let ?s = "s\<lparr>fw_soc := (fw_soc s)\<lparr>soc_i2c := i\<rparr>\<rparr>"
  obtain u where "uart_puts U I (line ''EXT IRQ'') ?s = Inr (?s\<lparr>fw_soc := (fw_soc ?s)\<lparr>soc_uart := u\<rparr>\<rparr>)"
    "out u = out (soc_uart (fw_soc s)) @ ascii (line ''EXT IRQ'')"
    by (rule puts_effect [OF assms(1), where str = "line ''EXT IRQ''" and s = ?s and I = I]) simp
  with i show thesis by (intro that [where u = u and i = i]) (simp_all add: trap_service_def fw_accesses)
qed

lemma complete_effect:
  assumes "plic_one (soc_plic (fw_soc s)) cl l"
  obtains c where "trap_complete U I cid s = Inr (s\<lparr>fw_soc := (fw_soc s)\<lparr>soc_plic := c\<rparr>\<rparr>)"
    and "plic_one c (cl \<and> cid \<noteq> 1) l" and "coherent c"
  by (rule plic_one_complete [OF assms, of cid]) (simp add: trap_complete_def fw_accesses)

text \<open>
  The steps of the system are those of the handler: a run of \<open>trap_handler\<close> without a move of the
  environment is a sequence of steps.
\<close>

lemma on_bus_trap: "on_bus U I acc (s\<lparr>fw_trap := p\<rparr>) = bindR (on_bus U I acc s) (\<lambda>t. Inr (t\<lparr>fw_trap := p\<rparr>))"
  by (cases "acc (custom_soc_b_transport (fw_now s) U I) (fw_soc s)") (simp_all add: on_bus_def)

lemma trap_parts:
  "trap_service U I cid (s\<lparr>fw_trap := p\<rparr>) = bindR (trap_service U I cid s) (\<lambda>t. Inr (t\<lparr>fw_trap := p\<rparr>))"
  "trap_complete U I cid (s\<lparr>fw_trap := p\<rparr>) = bindR (trap_complete U I cid s) (\<lambda>t. Inr (t\<lparr>fw_trap := p\<rparr>))"
proof -
  show "trap_complete U I cid (s\<lparr>fw_trap := p\<rparr>) = bindR (trap_complete U I cid s) (\<lambda>t. Inr (t\<lparr>fw_trap := p\<rparr>))"
    by (simp add: trap_complete_def fw_store_def on_bus_trap)
  have "bindR (uart_puts U I str (t\<lparr>fw_trap := p\<rparr>)) (\<lambda>t. Inr (t\<lparr>ext_done := 1\<rparr>)) =
      bindR (bindR (uart_puts U I str t) (\<lambda>t. Inr (t\<lparr>ext_done := 1\<rparr>))) (\<lambda>t. Inr (t\<lparr>fw_trap := p\<rparr>))" for t str
    by (cases "uart_puts U I str t") (simp_all add: uart_puts_def on_bus_trap)
  then show "trap_service U I cid (s\<lparr>fw_trap := p\<rparr>) = bindR (trap_service U I cid s) (\<lambda>t. Inr (t\<lparr>fw_trap := p\<rparr>))"
    by (cases "fw_store U I I2C_IICR 1 s") (simp_all add: trap_service_def fw_store_def on_bus_trap)
qed

lemma trap_handler_steps:
  assumes "hart_irq s = Some code" and "code \<in> {7, 11}" and "trap_handler U I (0x80000000 OR code) s = Inr t"
  shows "(fw_step U I irq)\<^sup>*\<^sup>* s (t\<lparr>fw_trap := No_trap\<rparr>)"
proof (cases "code = 7")
  case True
  then have t: "trap_timer U I s = Inr t" using assms(3) by (simp add: trap_handler_def)
  have "fw_trap s = No_trap" using assms(1) by (auto simp: hart_irq_def Let_def split: if_splits)
  with t have "t\<lparr>fw_trap := No_trap\<rparr> = t"
    by (auto simp: trap_timer_def uart_puts_def on_bus_def bindR_eq_Inr)
  with fw_step.take_timer [of s U I t irq] assms(1) True t show ?thesis by auto
next
  case False
  then have c: "code = 11" using assms(2) by simp
  then obtain s1 cid s2 where h: "trap_claim U I s = Inr (s1, cid)" "trap_service U I cid s1 = Inr s2"
    "trap_complete U I cid s2 = Inr t"
    using assms(3) by (auto simp: trap_handler_def bindR_eq_Inr)
  have "fw_step U I irq s (s1\<lparr>fw_trap := Claimed cid\<rparr>)" using assms(1) c h(1) by (auto intro: fw_step.take_external)
  moreover have "fw_step U I irq (s1\<lparr>fw_trap := Claimed cid\<rparr>) (s2\<lparr>fw_trap := Serviced cid\<rparr>)"
    using fw_step.service [of "s1\<lparr>fw_trap := Claimed cid\<rparr>" cid U I "s2\<lparr>fw_trap := Claimed cid\<rparr>" irq] h(2)
    by (simp add: trap_parts)
  moreover have "fw_step U I irq (s2\<lparr>fw_trap := Serviced cid\<rparr>) (t\<lparr>fw_trap := No_trap\<rparr>)"
    using fw_step.complete [of "s2\<lparr>fw_trap := Serviced cid\<rparr>" cid U I "t\<lparr>fw_trap := Serviced cid\<rparr>" irq] h(3)
    by (simp add: trap_parts)
  ultimately show ?thesis by (meson converse_rtranclp_into_rtranclp rtranclp.rtrancl_refl)
qed

section \<open>The invariant\<close>

text \<open>
  The messages between the greeting and the end: the timer's at most once, the external
  interrupt's once its flag is set. After the end only the latter may follow.
\<close>

definition demo_body :: "bool \<Rightarrow> bool \<Rightarrow> string list \<Rightarrow> bool" where
  "demo_body td ed b \<longleftrightarrow> set b \<subseteq> {line ''TIMER'', line ''EXT IRQ''} \<and>
     count_list b (line ''TIMER'') = of_bool td \<and> (line ''EXT IRQ'' \<in> set b \<longleftrightarrow> ed)"

definition demo_log :: "('u, 'i) soc_fw \<Rightarrow> string list \<Rightarrow> bool" where
  "demo_log s ms \<longleftrightarrow> (case fw_main s of
     Booting \<Rightarrow> ms = []
   | Waiting \<Rightarrow> \<exists>b. ms = line ''Hello from custom SoC'' # b \<and> demo_body (timer_done s \<noteq> 0) (ext_done s \<noteq> 0) b
   | Parked \<Rightarrow> \<exists>b n. ms = line ''Hello from custom SoC'' # b @ line ''done'' # replicate n (line ''EXT IRQ'') \<and>
       demo_body True True b)"

text \<open>The first 71 minutes of simulated time, in which the low word of \<open>mtime\<close> does not wrap.\<close>

definition early :: "('u, 'i) soc_fw \<Rightarrow> bool" where
  "early s \<longleftrightarrow> unat (fw_now s) div 1000000 + 100 < 2 ^ 32"

definition fw_booting :: "('u, 'i) soc_fw \<Rightarrow> bool" where
  "fw_booting s \<longleftrightarrow> fw_trap s = No_trap \<and> csr_mie s = 0 \<and> csr_mstatus s = 0 \<and> timer_done s = 0 \<and>
     ext_done s = 0 \<and> plic_fresh (soc_plic (fw_soc s))"

definition fw_running :: "('i \<Rightarrow> bool) \<Rightarrow> ('u, 'i) soc_fw \<Rightarrow> bool" where
  "fw_running irq s \<longleftrightarrow> csr_mstatus s = 8 \<and> csr_mtvec s \<and> csr_mie s = (if timer_done s = 0 then 0x880 else 0x800) \<and>
     (\<exists>l. plic_one (soc_plic (fw_soc s)) (fw_trap s \<in> {Claimed 1, Serviced 1}) l) \<and>
     fw_trap s \<in> {No_trap, Claimed 0, Claimed 1, Serviced 0, Serviced 1} \<and>
     (ext_done s = 0 \<longrightarrow> irq (soc_i2c (fw_soc s)) \<and> fw_trap s \<noteq> Serviced 1) \<and>
     (fw_main s = Parked \<longrightarrow> timer_done s \<noteq> 0 \<and> ext_done s \<noteq> 0) \<and>
     (early s \<longrightarrow> mtimecmp (soc_clint (fw_soc s)) \<noteq> 0 \<and>
        unat (mtimecmp (soc_clint (fw_soc s))) \<le> unat (fw_now s) div 1000000 + 100)"

definition fw_inv :: "('u \<Rightarrow> u8 list) \<Rightarrow> ('i \<Rightarrow> bool) \<Rightarrow> 'u \<Rightarrow> ('u, 'i) soc_fw \<Rightarrow> bool" where
  "fw_inv out irq u s \<longleftrightarrow>
     clint_invar \<lparr>sim_now = fw_now s, sim_clint = soc_clint (fw_soc s)\<rparr> \<and>
     (fw_lines s \<or> coherent (soc_plic (fw_soc s))) \<and>
     (\<exists>ms. out (soc_uart (fw_soc s)) = out u @ ascii (concat ms) \<and> demo_log s ms) \<and>
     (if fw_main s = Booting then fw_booting s else fw_running irq s)"

lemma plic_new_fresh: "plic_fresh (plic_new 1)"
  by (simp add: plic_fresh_def plic_new_def) (simp add: numeral_2_eq_2)

lemma fw_inv_boot: "fw_inv out irq u (fw_boot u i)"
  by (simp add: fw_inv_def fw_boot_def custom_soc_new_def clint_invar_def clint_new_def mtip_def plic_new_coherent
      demo_log_def ascii_def fw_booting_def plic_new_fresh)

lemma armed_early:
  assumes "early s"
  shows "armed (fw_now s) \<noteq> 0 \<and> unat (armed (fw_now s)) = unat (fw_now s) div 1000000 + 100"
proof -
  let ?t = "now_mtime (fw_now s)"
  have t: "unat ?t + 100 < 2 ^ 32" using assms by (simp add: early_def unat_now_mtime)
  have "unat (drop_bit 32 ?t) = 0" using t by (simp add: drop_bit_eq_div unat_div)
  then have hi: "drop_bit 32 ?t = 0" by (simp add: unat_eq_0)
  have "unat (ucast ?t :: u32) = unat ?t" using t by (simp add: unsigned_ucast_eq take_bit_nat_eq_self)
  then have "unat (ucast ?t + 100 :: u32) = unat ?t + 100"
    using t unat_add_lem [of "ucast ?t :: u32" 100] by simp
  then have "unat (armed (fw_now s)) = unat ?t + 100" by (simp add: armed_def hi)
  then show ?thesis by (auto simp: unat_now_mtime)
qed

text \<open>Messages of the handler extend the log.\<close>

lemma demo_body_timer: "demo_body False ed b \<Longrightarrow> demo_body True ed (b @ [line ''TIMER''])"
  and demo_body_ext: "demo_body td ed b \<Longrightarrow> demo_body td True (b @ [line ''EXT IRQ''])"
  by (auto simp: demo_body_def line_def)

lemma clint_invar_delta [simp]: "clint_invar \<lparr>sim_now = now, sim_clint = c\<lparr>mtimecmp := v, cmp_event := Some Delta\<rparr>\<rparr>"
  by (simp add: clint_invar_def)

lemma hart_irq_booting: "fw_booting s \<Longrightarrow> hart_irq s = None"
  by (simp add: fw_booting_def hart_irq_def Let_def)

lemma hart_irq_taken:
  assumes "fw_inv out irq u s" and "hart_irq s = Some code"
  shows "fw_main s \<noteq> Booting \<and> fw_running irq s \<and> fw_trap s = No_trap"
  using assms hart_irq_booting [of s] by (auto simp: fw_inv_def hart_irq_def Let_def split: if_splits)

text \<open>What is seen of the log, and how the parts of the invariant depend on the state.\<close>

lemma waiting_log:
  assumes "fw_inv out irq u s" and "fw_main s = Waiting"
  obtains b where "out (soc_uart (fw_soc s)) = out u @ ascii (concat (line ''Hello from custom SoC'' # b))"
    and "demo_body (timer_done s \<noteq> 0) (ext_done s \<noteq> 0) b"
  using assms by (auto simp: fw_inv_def demo_log_def)

lemma parked_log:
  assumes "fw_inv out irq u s" and "fw_main s = Parked"
  obtains b n where "out (soc_uart (fw_soc s)) =
      out u @ ascii (concat (line ''Hello from custom SoC'' # b @ line ''done'' # replicate n (line ''EXT IRQ'')))"
    and "demo_body True True b"
  using assms by (auto simp: fw_inv_def demo_log_def)

lemma demo_log_same: "fw_main t = fw_main s \<Longrightarrow> timer_done t = timer_done s \<Longrightarrow> ext_done t = ext_done s \<Longrightarrow>
    demo_log t ms = demo_log s ms"
  by (cases "fw_main s") (simp_all add: demo_log_def)

lemma fw_invI:
  assumes "fw_inv out irq u s" and "fw_main s \<noteq> Booting" and "fw_main t \<noteq> Booting"
    and "fw_now t = fw_now s" and "soc_clint (fw_soc t) = soc_clint (fw_soc s)"
    and "fw_lines t \<or> coherent (soc_plic (fw_soc t))"
    and "out (soc_uart (fw_soc t)) = out u @ ascii (concat ms)" and "demo_log t ms" and "fw_running irq t"
  shows "fw_inv out irq u t"
  using assms by (auto simp: fw_inv_def)

lemma fw_inv_initialise:
  assumes "uart_sends U out" and "i2c_interrupts I irq" and "fw_inv out irq u s"
    and "fw_main s = Booting" and "fw_main_init U I s = Inr t"
  shows "fw_inv out irq u (t\<lparr>fw_main := Waiting\<rparr>)"
proof -
  have b: "fw_booting s" "out (soc_uart (fw_soc s)) = out u"
    using assms(3,4) by (auto simp: fw_inv_def demo_log_def ascii_def)
  then have fresh: "plic_fresh (soc_plic (fw_soc s))" by (simp add: fw_booting_def)
  obtain u' c i where "fw_main_init U I s = Inr (s\<lparr>csr_mtvec := True, csr_mie := csr_mie s OR 0x880,
      csr_mstatus := csr_mstatus s OR 8, fw_soc := (fw_soc s)\<lparr>soc_uart := u', soc_plic := c, soc_clint :=
      (soc_clint (fw_soc s))\<lparr>mtimecmp := armed (fw_now s), cmp_event := Some Delta\<rparr>, soc_i2c := i\<rparr>\<rparr>)"
    "out u' = out (soc_uart (fw_soc s)) @ ascii (line ''Hello from custom SoC'')"
    "plic_one c False (irq_in (soc_plic (fw_soc s)) ! 0)" "coherent c" "irq i"
    by (rule init_effect [OF assms(1,2) fresh])
  moreover have "demo_body False False []" by (simp add: demo_body_def)
  ultimately have t: "demo_log (t\<lparr>fw_main := Waiting\<rparr>) [line ''Hello from custom SoC'']" "fw_running irq (t\<lparr>fw_main := Waiting\<rparr>)"
    "out (soc_uart (fw_soc t)) = out u @ ascii (line ''Hello from custom SoC'')" "coherent (soc_plic (fw_soc t))"
    "clint_invar \<lparr>sim_now = fw_now t, sim_clint = soc_clint (fw_soc t)\<rparr>"
    using assms(5) b armed_early [of s]
    by (auto simp: fw_booting_def fw_running_def demo_log_def early_def)
  then show ?thesis by (auto simp: fw_inv_def intro!: exI [of _ "[line ''Hello from custom SoC'']"])
qed

lemma fw_inv_leave:
  assumes "uart_sends U out" and "fw_inv out irq u s" and "fw_main s = Waiting" and "timer_done s \<noteq> 0" and "ext_done s \<noteq> 0"
    and "fw_main_end U I s = Inr t"
  shows "fw_inv out irq u (t\<lparr>fw_main := Parked\<rparr>)"
proof -
  obtain u' where u': "fw_main_end U I s = Inr (s\<lparr>fw_soc := (fw_soc s)\<lparr>soc_uart := u'\<rparr>\<rparr>)"
    "out u' = out (soc_uart (fw_soc s)) @ ascii (line ''done'')"
    unfolding fw_main_end_def by (rule puts_effect [OF assms(1)])
  obtain b where b: "out (soc_uart (fw_soc s)) = out u @ ascii (concat (line ''Hello from custom SoC'' # b))"
    "demo_body True True b"
    by (rule waiting_log [OF assms(2,3)]) (use assms(4,5) in simp)
  have "fw_running irq s" using assms(2,3) by (simp add: fw_inv_def)
  then have "fw_running irq (t\<lparr>fw_main := Parked\<rparr>)"
    using u' assms(4-6) by (simp add: fw_running_def early_def)
  moreover have "demo_log (t\<lparr>fw_main := Parked\<rparr>) (line ''Hello from custom SoC'' # b @ [line ''done''])"
    using b(2) by (auto simp: demo_log_def intro!: exI [of _ b] exI [of _ 0])
  ultimately show ?thesis
    using assms u' b by (intro fw_invI [OF assms(2)]) (auto simp: ascii_append fw_inv_def)
qed

lemma fw_inv_take_timer:
  assumes "uart_sends U out" and "fw_inv out irq u s" and "hart_irq s = Some 7" and "trap_timer U I s = Inr t"
  shows "fw_inv out irq u t"
proof -
  note r = hart_irq_taken [OF assms(2,3)]
  have td: "timer_done s = 0"
    using assms(3) r by (auto simp: fw_running_def hart_irq_def Let_def split: if_splits)
  with r have w: "fw_main s = Waiting" by (cases "fw_main s") (auto simp: fw_running_def)
  obtain u' where u': "trap_timer U I s = Inr (s\<lparr>fw_soc := (fw_soc s)\<lparr>soc_uart := u'\<rparr>, timer_done := 1,
      csr_mie := csr_mie s AND NOT 0x80\<rparr>)" "out u' = out (soc_uart (fw_soc s)) @ ascii (line ''TIMER'')"
    by (rule timer_effect [OF assms(1)])
  obtain b where b: "out (soc_uart (fw_soc s)) = out u @ ascii (concat (line ''Hello from custom SoC'' # b))"
    "demo_body False (ext_done s \<noteq> 0) b"
    by (rule waiting_log [OF assms(2) w]) (use td in simp)
  from r have "fw_running irq s" "fw_trap s = No_trap" by simp_all
  then have "fw_running irq t" using td w u' assms(4) by (simp add: fw_running_def early_def)
  moreover have "demo_log t (line ''Hello from custom SoC'' # b @ [line ''TIMER''])"
    using demo_body_timer [OF b(2)] u' assms(4) w by (simp add: demo_log_def)
  ultimately show ?thesis
    using assms u' b w by (intro fw_invI [OF assms(2)]) (auto simp: ascii_append fw_inv_def)
qed

lemma fw_inv_take_external:
  assumes "fw_inv out irq u s" and "hart_irq s = Some 11" and "trap_claim U I s = Inr (t, cid)"
  shows "fw_inv out irq u (t\<lparr>fw_trap := Claimed cid\<rparr>)"
proof -
  note r = hart_irq_taken [OF assms(1,2)]
  obtain l where "plic_one (soc_plic (fw_soc s)) False l" using r by (auto simp: fw_running_def)
  from claim_effect [OF this, of U I] obtain c where
    c: "trap_claim U I s = Inr (s\<lparr>fw_soc := (fw_soc s)\<lparr>soc_plic := c\<rparr>\<rparr>, if l then 1 else 0)" "plic_one c l l" "coherent c"
    by auto
  obtain ms where ms: "out (soc_uart (fw_soc s)) = out u @ ascii (concat ms)" "demo_log s ms"
    using assms(1) by (auto simp: fw_inv_def)
  have "fw_running irq (t\<lparr>fw_trap := Claimed cid\<rparr>)"
    using r c assms(3) by (cases l) (auto simp: fw_running_def early_def)
  then show ?thesis
    using assms(3) c r ms demo_log_same [of "t\<lparr>fw_trap := Claimed cid\<rparr>" s ms]
    by (intro fw_invI [OF assms(1)]) auto
qed

text \<open>In the handler for an external interrupt the program is out of its initialisation.\<close>

lemma fw_inv_in_trap:
  assumes "fw_inv out irq u s" and "fw_trap s \<noteq> No_trap"
  shows "fw_main s \<noteq> Booting \<and> fw_running irq s"
  using assms by (auto simp: fw_inv_def fw_booting_def split: if_splits)

lemma fw_inv_log:
  assumes "fw_inv out irq u s"
  obtains ms where "out (soc_uart (fw_soc s)) = out u @ ascii (concat ms)" and "demo_log s ms"
  using assms by (auto simp: fw_inv_def)

text \<open>The message of an external interrupt, before or after the end.\<close>

lemma demo_log_ext:
  assumes "demo_log s ms" and "fw_main s \<noteq> Booting" and "fw_main t = fw_main s" and "timer_done t = timer_done s" and "ext_done t = 1"
  shows "demo_log t (ms @ [line ''EXT IRQ''])"
proof (cases "fw_main s")
  case Waiting
  with assms demo_body_ext show ?thesis by (fastforce simp: demo_log_def)
next
  case Parked
  then obtain b n where "ms = line ''Hello from custom SoC'' # b @ line ''done'' # replicate n (line ''EXT IRQ'')"
    "demo_body True True b" using assms(1) by (auto simp: demo_log_def)
  with Parked assms(3) show ?thesis
    by (auto simp: demo_log_def replicate_append_same intro!: exI [of _ b] exI [of _ "Suc n"])
qed (use assms in simp)

lemma fw_inv_service:
  assumes "uart_sends U out" and "i2c_interrupts I irq" and "fw_inv out irq u s"
    and "fw_trap s = Claimed cid" and "trap_service U I cid s = Inr t"
  shows "fw_inv out irq u (t\<lparr>fw_trap := Serviced cid\<rparr>)"
proof -
  have r: "fw_main s \<noteq> Booting" "fw_running irq s" using fw_inv_in_trap [OF assms(3)] assms(4) by simp_all
  obtain ms where ms: "out (soc_uart (fw_soc s)) = out u @ ascii (concat ms)" "demo_log s ms"
    by (rule fw_inv_log [OF assms(3)])
  have coh: "fw_lines s \<or> coherent (soc_plic (fw_soc s))" using assms(3) by (simp add: fw_inv_def)
  show ?thesis
  proof (cases "cid = 1")
    case True
    obtain u' i where t: "trap_service U I 1 s = Inr (s\<lparr>fw_soc := (fw_soc s)\<lparr>soc_uart := u', soc_i2c := i\<rparr>, ext_done := 1\<rparr>)"
      "out u' = out (soc_uart (fw_soc s)) @ ascii (line ''EXT IRQ'')" "\<not> irq i"
      by (rule service_effect [OF assms(1,2)])
    have te: "t = s\<lparr>fw_soc := (fw_soc s)\<lparr>soc_uart := u', soc_i2c := i\<rparr>, ext_done := 1\<rparr>" using t(1) assms(5) True by simp
    have "fw_running irq (t\<lparr>fw_trap := Serviced cid\<rparr>)"
      using r(2) assms(4) True by (simp add: te fw_running_def early_def)
    then show ?thesis
      using r t(2,3) te ms coh demo_log_ext [OF ms(2) r(1), of "t\<lparr>fw_trap := Serviced cid\<rparr>"]
      by (intro fw_invI [OF assms(3), where ms = "ms @ [line ''EXT IRQ'']"]) (auto simp: ascii_append)
  next
    case False
    then have t: "t = s" using assms(5) by (simp add: trap_service_def)
    have "fw_running irq (s\<lparr>fw_trap := Serviced cid\<rparr>)"
      using r(2) False assms(4) by (simp add: fw_running_def early_def)
    then show ?thesis
      using r t ms coh demo_log_same [of "s\<lparr>fw_trap := Serviced cid\<rparr>" s ms]
      by (intro fw_invI [OF assms(3)]) auto
  qed
qed

lemma fw_inv_complete:
  assumes "fw_inv out irq u s" and "fw_trap s = Serviced cid" and "trap_complete U I cid s = Inr t"
  shows "fw_inv out irq u (t\<lparr>fw_trap := No_trap\<rparr>)"
proof -
  have r: "fw_main s \<noteq> Booting" "fw_running irq s" using fw_inv_in_trap [OF assms(1)] assms(2) by simp_all
  then obtain l where l: "plic_one (soc_plic (fw_soc s)) (cid = 1) l" using assms(2) by (auto simp: fw_running_def)
  obtain c where c: "trap_complete U I cid s = Inr (s\<lparr>fw_soc := (fw_soc s)\<lparr>soc_plic := c\<rparr>\<rparr>)"
    "plic_one c (cid = 1 \<and> cid \<noteq> 1) l" "coherent c"
    by (rule complete_effect [OF l])
  obtain ms where ms: "out (soc_uart (fw_soc s)) = out u @ ascii (concat ms)" "demo_log s ms"
    by (rule fw_inv_log [OF assms(1)])
  have "fw_running irq (t\<lparr>fw_trap := No_trap\<rparr>)"
    using r(2) c assms(3) by (auto simp: fw_running_def early_def)
  then show ?thesis
    using r c ms assms(3) demo_log_same [of "t\<lparr>fw_trap := No_trap\<rparr>" s ms]
    by (intro fw_invI [OF assms(1)]) auto
qed

text \<open>The environment: the line, the processes of the controllers, time.\<close>

lemma fw_inv_drive:
  assumes "fw_inv out irq u s"
  shows "fw_inv out irq u ((set_plic ((fw_plic s)\<lparr>irq_in := soc_line irq s\<rparr>) s)\<lparr>fw_lines := True\<rparr>)" (is "fw_inv _ _ _ ?t")
proof -
  have "fw_booting ?t" if "fw_booting s"
    using that by (simp add: fw_booting_def set_plic_def fw_plic_def soc_line_def plic_fresh_def)
  moreover have "fw_running irq ?t" if "fw_running irq s"
    using that by (auto simp: fw_running_def early_def set_plic_def fw_plic_def soc_line_def plic_one_def)
  moreover have "demo_log ?t ms = demo_log s ms" for ms by (rule demo_log_same) (simp_all add: set_plic_def)
  ultimately show ?thesis using assms by (simp add: fw_inv_def set_plic_def)
qed

lemma fw_inv_react:
  assumes "fw_inv out irq u s" and "on_sources (fw_plic s) = Inr c"
  shows "fw_inv out irq u ((set_plic c s)\<lparr>fw_lines := False\<rparr>)" (is "fw_inv _ _ _ ?t")
proof -
  have wf: "plic_wf (fw_plic s)"
    using assms(1) plic_one_wf plic_fresh_wf
    by (fastforce simp: fw_inv_def fw_booting_def fw_running_def fw_plic_def split: if_splits)
  then have c: "c = plic_set_irq kCauseExternal (any_candidate (fw_plic s)) (fw_plic s)"
    using assms(2) by (simp add: on_sources_def update_meip_eq)
  have "fw_booting ?t" if "fw_booting s"
    using that by (simp add: fw_booting_def set_plic_def fw_plic_def c plic_fresh_def)
  moreover have "fw_running irq ?t" if "fw_running irq s"
    using that by (simp add: fw_running_def early_def set_plic_def fw_plic_def c)
  moreover have "demo_log ?t ms = demo_log s ms" for ms by (rule demo_log_same) (simp_all add: set_plic_def)
  ultimately show ?thesis using assms(1) by (simp add: fw_inv_def set_plic_def c)
qed

lemma fw_inv_wake:
  assumes "fw_inv out irq u s"
    and "cmp_event (fw_clint s) = Some Delta \<or> cmp_event (fw_clint s) = Some (Timed (fw_now s))"
  shows "fw_inv out irq u (set_clint (timer_proc (fw_now s) (fw_clint s)) s)" (is "fw_inv _ _ _ ?t")
proof -
  have "clint_step \<lparr>sim_now = fw_now s, sim_clint = fw_clint s\<rparr> \<lparr>sim_now = fw_now s, sim_clint = timer_proc (fw_now s) (fw_clint s)\<rparr>"
    using clint_step.wake [of "\<lparr>sim_now = fw_now s, sim_clint = fw_clint s\<rparr>"] assms(2) by simp
  then have "clint_invar \<lparr>sim_now = fw_now s, sim_clint = timer_proc (fw_now s) (fw_clint s)\<rparr>"
    by (rule clint_step_invar) (use assms(1) in \<open>simp add: fw_inv_def fw_clint_def\<close>)
  moreover have "fw_booting ?t = fw_booting s" by (simp add: fw_booting_def set_clint_def)
  moreover have "fw_running irq ?t = fw_running irq s"
    by (simp add: fw_running_def early_def set_clint_def fw_clint_def timer_proc_eq)
  moreover have "demo_log ?t ms = demo_log s ms" for ms by (rule demo_log_same) (simp_all add: set_clint_def)
  ultimately show ?thesis using assms(1) by (simp add: fw_inv_def set_clint_def)
qed

lemma fw_inv_pass:
  assumes "fw_inv out irq u s" and "fw_now s < t" and "cmp_event (fw_clint s) \<noteq> Some Delta"
    and "\<And>u. cmp_event (fw_clint s) = Some (Timed u) \<Longrightarrow> t \<le> u"
  shows "fw_inv out irq u (s\<lparr>fw_now := t\<rparr>)"
proof -
  have "clint_step \<lparr>sim_now = fw_now s, sim_clint = fw_clint s\<rparr> \<lparr>sim_now = t, sim_clint = fw_clint s\<rparr>"
    using clint_step.pass [of "\<lparr>sim_now = fw_now s, sim_clint = fw_clint s\<rparr>" t] assms(2-4) by simp
  then have "clint_invar \<lparr>sim_now = t, sim_clint = fw_clint s\<rparr>"
    by (rule clint_step_invar) (use assms(1) in \<open>simp add: fw_inv_def fw_clint_def\<close>)
  moreover have le: "unat (fw_now s) div 1000000 \<le> unat t div 1000000"
    using assms(2) by (intro div_le_mono) (simp add: word_less_nat_alt)
  have "fw_running irq (s\<lparr>fw_now := t\<rparr>)" if "fw_running irq s"
    using that le by (auto simp: fw_running_def early_def)
  moreover have "fw_booting (s\<lparr>fw_now := t\<rparr>) = fw_booting s" by (simp add: fw_booting_def)
  moreover have "demo_log (s\<lparr>fw_now := t\<rparr>) ms = demo_log s ms" for ms by (rule demo_log_same) simp_all
  ultimately show ?thesis using assms(1) by (simp add: fw_inv_def fw_clint_def)
qed

lemma fw_step_inv:
  assumes "uart_sends U out" and "i2c_interrupts I irq" and "fw_step U I irq s t" and "fw_inv out irq u s"
  shows "fw_inv out irq u t"
  using assms(3,4)
proof (cases rule: fw_step.cases)
  case (initialise t')
  with assms(4) show ?thesis using fw_inv_initialise [OF assms(1,2)] by blast
next
  case (leave t')
  with assms(4) show ?thesis using fw_inv_leave [OF assms(1)] by blast
qed (auto intro: fw_inv_take_timer [OF assms(1) assms(4)] fw_inv_take_external [OF assms(4)]
    fw_inv_service [OF assms(1,2,4)] fw_inv_complete [OF assms(4)] fw_inv_drive [OF assms(4)] fw_inv_react [OF assms(4)]
    fw_inv_wake [OF assms(4)] fw_inv_pass [OF assms(4)])

lemma fw_reachable_inv:
  assumes "uart_sends U out" and "i2c_interrupts I irq" and "fw_reachable U I irq u i s"
  shows "fw_inv out irq u s"
  using assms(3)
proof (induction rule: fw_reachable.induct)
  case boot
  show ?case by (rule fw_inv_boot)
next
  case (step s t)
  then show ?case by (blast intro: fw_step_inv [OF assms(1,2)])
qed

section \<open>Progress\<close>

text \<open>Nothing is due in the environment of the program.\<close>

definition fw_settled :: "('i \<Rightarrow> bool) \<Rightarrow> ('u, 'i) soc_fw \<Rightarrow> bool" where
  "fw_settled irq s \<longleftrightarrow> irq_in (fw_plic s) = soc_line irq s \<and> \<not> fw_lines s \<and>
     clint_settled \<lparr>sim_now = fw_now s, sim_clint = fw_clint s\<rparr>"

text \<open>An interrupt that is taken is handled, so a pending one is a step.\<close>

lemma hart_irq_cases:
  assumes "fw_running irq s" and "fw_trap s = No_trap"
  shows "hart_irq s = (if meip (soc_plic (fw_soc s)) then Some 11
    else if timer_done s = 0 \<and> mtip (soc_clint (fw_soc s)) then Some 7 else None)"
  using assms by (simp add: fw_running_def hart_irq_def Let_def bit_numeral_rec)

lemma hart_irq_step:
  assumes "uart_sends U out" and "fw_running irq s" and "fw_trap s = No_trap" and "hart_irq s \<noteq> None"
  obtains t where "fw_step U I irq s t" and "fw_now t = fw_now s"
proof -
  obtain l where l: "plic_one (soc_plic (fw_soc s)) False l" using assms(2,3) by (auto simp: fw_running_def)
  have "hart_irq s = Some 11 \<or> hart_irq s = Some 7"
    using assms(4) by (auto simp: hart_irq_cases [OF assms(2,3)] split: if_splits)
  then show thesis
  proof
    assume h: "hart_irq s = Some 11"
    obtain c where "trap_claim U I s = Inr (s\<lparr>fw_soc := (fw_soc s)\<lparr>soc_plic := c\<rparr>\<rparr>, if l \<and> \<not> False then 1 else 0)"
      by (rule claim_effect [OF l])
    from fw_step.take_external [OF h this, of irq] show thesis by (rule that) simp
  next
    assume h: "hart_irq s = Some 7"
    obtain u where "trap_timer U I s = Inr (s\<lparr>fw_soc := (fw_soc s)\<lparr>soc_uart := u\<rparr>, timer_done := 1, csr_mie := csr_mie s AND NOT 0x80\<rparr>)"
      by (rule timer_effect [OF assms(1)])
    from fw_step.take_timer [OF h this, of irq] show thesis by (rule that) simp
  qed
qed

lemma trap_step:
  assumes "uart_sends U out" and "i2c_interrupts I irq" and "fw_running irq s" and "fw_trap s \<noteq> No_trap"
  obtains t where "fw_step U I irq s t" and "fw_now t = fw_now s"
proof (cases "fw_trap s")
  case (Claimed cid)
  show thesis
  proof (cases "cid = 1")
    case True
    have c: "fw_trap s = Claimed 1" using Claimed True by simp
    obtain u i where "trap_service U I 1 s = Inr (s\<lparr>fw_soc := (fw_soc s)\<lparr>soc_uart := u, soc_i2c := i\<rparr>, ext_done := 1\<rparr>)"
      by (rule service_effect [OF assms(1,2)])
    from fw_step.service [OF c this, of irq] show thesis by (rule that) simp
  next
    case False
    then have "trap_service U I cid s = Inr s" by (simp add: trap_service_def)
    from fw_step.service [OF Claimed this, of irq] show thesis by (rule that) simp
  qed
next
  case (Serviced cid)
  obtain cl l where l: "plic_one (soc_plic (fw_soc s)) cl l" using assms(3) by (auto simp: fw_running_def)
  obtain c where "trap_complete U I cid s = Inr (s\<lparr>fw_soc := (fw_soc s)\<lparr>soc_plic := c\<rparr>\<rparr>)"
    by (rule complete_effect [OF l])
  from fw_step.complete [OF Serviced this, of irq] show thesis by (rule that) simp
qed (use assms(4) in simp)

text \<open>The program has something to do: it is not in one of its waiting loops, or an interrupt is pending.\<close>

definition fw_ready :: "('u, 'i) soc_fw \<Rightarrow> bool" where
  "fw_ready s \<longleftrightarrow> fw_main s = Booting \<or> fw_trap s \<noteq> No_trap \<or> hart_irq s \<noteq> None \<or>
     fw_main s = Waiting \<and> timer_done s \<noteq> 0 \<and> ext_done s \<noteq> 0"

text \<open>The program is never stuck: with the line at rest and work to do it has a step.\<close>

lemma hart_can_step:
  assumes "uart_sends U out" and "i2c_interrupts I irq" and "fw_inv out irq u s" and "fw_ready s"
  shows "\<exists>t. fw_step U I irq s t \<and> fw_now t = fw_now s"
proof -
  consider "fw_main s = Booting" | "fw_main s \<noteq> Booting" "fw_trap s \<noteq> No_trap"
    | "fw_main s \<noteq> Booting" "fw_trap s = No_trap" "hart_irq s \<noteq> None"
    | "fw_main s = Waiting" "fw_trap s = No_trap" "timer_done s \<noteq> 0" "ext_done s \<noteq> 0"
    using assms(4) by (auto simp: fw_ready_def)
  then show ?thesis
  proof cases
    case 1
    then have fresh: "plic_fresh (soc_plic (fw_soc s))" using assms(3) by (simp add: fw_inv_def fw_booting_def)
    obtain t where t: "fw_main_init U I s = Inr t" "fw_now t = fw_now s"
      by (rule init_effect [OF assms(1,2) fresh]) simp
    from fw_step.initialise [OF 1 t(1), of irq] t(2) show ?thesis by auto
  next
    case 2
    then have "fw_running irq s" using assms(3) by (simp add: fw_inv_def)
    then show ?thesis using 2 by (metis trap_step [OF assms(1,2)])
  next
    case 3
    then have "fw_running irq s" using assms(3) by (simp add: fw_inv_def)
    then show ?thesis using 3 by (metis hart_irq_step [OF assms(1)])
  next
    case 4
    obtain v where "fw_main_end U I s = Inr (s\<lparr>fw_soc := (fw_soc s)\<lparr>soc_uart := v\<rparr>\<rparr>)"
      unfolding fw_main_end_def by (rule puts_effect [OF assms(1)])
    from fw_step.leave [OF 4 this, of irq] show ?thesis by auto
  qed
qed

lemma plic_reacts:
  assumes "fw_inv out irq u s"
  obtains c where "on_sources (fw_plic s) = Inr c"
proof -
  have "plic_wf (fw_plic s)"
    using assms plic_one_wf plic_fresh_wf
    by (fastforce simp: fw_inv_def fw_booting_def fw_running_def fw_plic_def split: if_splits)
  then show thesis by (intro that) (simp add: on_sources_def update_meip_eq)
qed

lemma compare_pending:
  assumes "clint_invar \<lparr>sim_now = now, sim_clint = c\<rparr>" and "clint_settled \<lparr>sim_now = now, sim_clint = c\<rparr>"
    and "mtimecmp c \<noteq> 0" and "unat (mtimecmp c) \<le> unat now div 1000000 + 100" and "unat now div 1000000 + 100 < 2 ^ 32"
    and "\<not> mtip c"
  shows "\<exists>w. cmp_event c = Some (Timed w) \<and> now < w \<and> unat w \<le> unat now + 100000000"
proof -
  have "unat (mtimecmp c) * 1000000 < 2 ^ 64" using assms(4,5) by simp
  from scaled_goal [OF this] have g: "unat (mtimecmp c * kScaler) \<le> unat now + 100000000"
    using assms(4) by simp
  show ?thesis
    using assms(1-3,6) g
    by (auto simp: clint_invar_def clint_settled_def Let_def order_le_less split: option.splits notification.splits)
qed

section \<open>A run to the end\<close>

text \<open>The line and the PLIC come to rest, leaving the rest of the state alone.\<close>

lemma settle_lines:
  assumes "uart_sends U out" and "i2c_interrupts I irq" and "fw_reachable U I irq u i s" and "fw_main s \<noteq> Booting"
  obtains c where "fw_reachable U I irq u i ((set_plic c s)\<lparr>fw_lines := False\<rparr>)" and "irq_in c = soc_line irq s"
proof -
  let ?c = "(fw_plic s)\<lparr>irq_in := soc_line irq s\<rparr>" and ?s = "\<lambda>c l. (set_plic c s)\<lparr>fw_lines := l\<rparr>"
  have inv: "fw_inv out irq u s" by (rule fw_reachable_inv [OF assms(1-3)])
  show thesis
  proof (cases "irq_in (fw_plic s) = soc_line irq s \<and> \<not> fw_lines s")
    case True
    then have "?s (fw_plic s) False = s" by (simp add: set_plic_def fw_plic_def)
    with True assms(3) that [of "fw_plic s"] show thesis by simp
  next
    case False
    have "fw_reachable U I irq u i (?s ?c True)"
    proof (cases "irq_in (fw_plic s) = soc_line irq s")
      case True
      with False have "?s ?c True = s" by (simp add: set_plic_def fw_plic_def flip: True)
      with assms(3) show ?thesis by simp
    next
      case False
      from fw_reachable.step [OF assms(3) fw_step.drive [of s irq U I, OF False]] show ?thesis .
    qed
    moreover have "plic_wf ?c"
      using inv assms(4) plic_one_wf by (fastforce simp: fw_inv_def fw_running_def fw_plic_def plic_wf_def soc_line_def plic_one_def)
    then have "on_sources (fw_plic (?s ?c True)) = Inr (plic_set_irq kCauseExternal (any_candidate ?c) ?c)"
      by (simp add: on_sources_def update_meip_eq fw_plic_def set_plic_def)
    ultimately have "fw_reachable U I irq u i ((set_plic (plic_set_irq kCauseExternal (any_candidate ?c) ?c) (?s ?c True))\<lparr>fw_lines := False\<rparr>)"
      by (intro fw_reachable.step [OF _ fw_step.react]) simp_all
    then show thesis by (intro that [of "plic_set_irq kCauseExternal (any_candidate ?c) ?c"]) (simp_all add: set_plic_def)
  qed
qed

text \<open>The external interrupt is taken, serviced and completed.\<close>

lemma run_external:
  assumes "uart_sends U out" and "i2c_interrupts I irq" and "fw_reachable U I irq u i s" and "fw_main s = Waiting"
    and "fw_trap s = No_trap" and "ext_done s = 0"
  obtains t where "fw_reachable U I irq u i t" and "fw_main t = Waiting" and "fw_trap t = No_trap" and "ext_done t = 1"
    and "timer_done t = timer_done s" and "fw_clint t = fw_clint s" and "fw_now t = fw_now s" and "\<not> irq (soc_i2c (fw_soc t))"
    and "hart_irq t = Some 11"
proof -
  obtain c1 where c1: "fw_reachable U I irq u i ((set_plic c1 s)\<lparr>fw_lines := False\<rparr>)" "irq_in c1 = soc_line irq s"
    by (rule settle_lines [OF assms(1-3)]) (use assms(4) in simp)
  let ?s1 = "(set_plic c1 s)\<lparr>fw_lines := False\<rparr>"
  have inv: "fw_inv out irq u ?s1" by (rule fw_reachable_inv [OF assms(1,2) c1(1)])
  then have r: "fw_running irq ?s1" using assms(4) by (simp add: fw_inv_def set_plic_def)
  then obtain l where "plic_one c1 False l" using assms(5) by (auto simp: fw_running_def set_plic_def)
  moreover have "irq (soc_i2c (fw_soc s))" using r assms(6) by (simp add: fw_running_def set_plic_def)
  ultimately have one: "plic_one c1 False True" using c1(2) by (simp add: plic_one_def soc_line_def)
  have "meip c1" using inv plic_one_candidate [OF one] by (simp add: fw_inv_def coherent_def set_plic_def)
  then have h: "hart_irq ?s1 = Some 11" using hart_irq_cases [OF r] assms(5) by (simp add: set_plic_def)
  have one1: "plic_one (soc_plic (fw_soc ?s1)) False True" using one by (simp add: set_plic_def)
  obtain c2 where c2: "trap_claim U I ?s1 = Inr (?s1\<lparr>fw_soc := (fw_soc ?s1)\<lparr>soc_plic := c2\<rparr>\<rparr>, if True \<and> \<not> False then 1 else 0)"
    "plic_one c2 (False \<or> True) True"
    by (rule claim_effect [OF one1])
  let ?s2 = "?s1\<lparr>fw_soc := (fw_soc ?s1)\<lparr>soc_plic := c2\<rparr>, fw_trap := Claimed 1\<rparr>"
  have r2: "fw_reachable U I irq u i ?s2"
    using fw_reachable.step [OF c1(1) fw_step.take_external [OF h c2(1)]] by simp
  obtain v j where v: "trap_service U I 1 ?s2 = Inr (?s2\<lparr>fw_soc := (fw_soc ?s2)\<lparr>soc_uart := v, soc_i2c := j\<rparr>, ext_done := 1\<rparr>)" "\<not> irq j"
    by (rule service_effect [OF assms(1,2)])
  let ?s3 = "?s2\<lparr>fw_soc := (fw_soc ?s2)\<lparr>soc_uart := v, soc_i2c := j\<rparr>, ext_done := 1, fw_trap := Serviced 1\<rparr>"
  have r3: "fw_reachable U I irq u i ?s3"
    using fw_reachable.step [OF r2 fw_step.service [OF _ v(1)]] by simp
  have one3: "plic_one (soc_plic (fw_soc ?s3)) True True" using c2(2) by simp
  obtain c3 where c3: "trap_complete U I 1 ?s3 = Inr (?s3\<lparr>fw_soc := (fw_soc ?s3)\<lparr>soc_plic := c3\<rparr>\<rparr>)"
    "plic_one c3 (True \<and> (1 :: u32) \<noteq> 1) True" "coherent c3"
    by (rule complete_effect [OF one3])
  let ?s4 = "?s3\<lparr>fw_soc := (fw_soc ?s3)\<lparr>soc_plic := c3\<rparr>, fw_trap := No_trap\<rparr>"
  have r4: "fw_reachable U I irq u i ?s4"
    using fw_reachable.step [OF r3 fw_step.complete [OF _ c3(1)]] by simp
  have "fw_running irq ?s4"
    using fw_reachable_inv [OF assms(1,2) r4] assms(4) by (simp add: fw_inv_def set_plic_def)
  then have h4: "hart_irq ?s4 = Some 11"
    using hart_irq_cases [of irq ?s4] c3(3) plic_one_candidate [OF c3(2)] by (simp add: coherent_def)
  show thesis
    by (rule that [OF r4]) (use assms v(2) h4 in \<open>simp_all add: fw_clint_def set_plic_def\<close>)
qed

text \<open>The timer interrupt follows, and the program ends.\<close>

lemma run_timer:
  assumes "uart_sends U out" and "i2c_interrupts I irq" and "fw_reachable U I irq u i s" and "fw_main s = Waiting"
    and "fw_trap s = No_trap" and "ext_done s = 1" and "timer_done s = 0" and "\<not> irq (soc_i2c (fw_soc s))"
    and "mtimecmp (fw_clint s) = 100" and "cmp_event (fw_clint s) = Some Delta" and "fw_now s = 0"
  obtains t where "fw_reachable U I irq u i t" and "fw_main t = Parked" and "fw_now t = 100000000"
proof -
  obtain c where c: "fw_reachable U I irq u i ((set_plic c s)\<lparr>fw_lines := False\<rparr>)" "irq_in c = soc_line irq s"
    by (rule settle_lines [OF assms(1-3)]) (use assms(4) in simp)
  let ?s1 = "(set_plic c s)\<lparr>fw_lines := False\<rparr>"
  let ?k = "timer_proc 0 (fw_clint s)"
  have cl: "fw_clint ?s1 = fw_clint s" "fw_now ?s1 = 0" using assms(11) by (simp_all add: fw_clint_def set_plic_def)
  let ?s2 = "set_clint ?k ?s1"
  have k: "cmp_event ?k = Some (Timed 100000000)" "mtimecmp ?k = 100"
    using assms(9) by (simp_all add: timer_proc_eq now_mtime_def kScaler_def)
  have r2: "fw_reachable U I irq u i ?s2"
    using fw_reachable.step [OF c(1) fw_step.wake] cl assms(10) by metis
  let ?s3 = "?s2\<lparr>fw_now := 100000000\<rparr>"
  have "fw_step U I irq ?s2 ?s3"
    by (rule fw_step.pass) (use c(2) k cl in \<open>simp_all add: set_plic_def set_clint_def fw_plic_def fw_clint_def soc_line_def\<close>)
  then have r3: "fw_reachable U I irq u i ?s3" by (rule fw_reachable.step [OF r2])
  let ?s4 = "set_clint (timer_proc 100000000 ?k) ?s3"
  have "cmp_event (fw_clint ?s3) = Some (Timed (fw_now ?s3))" "fw_clint ?s3 = ?k" "fw_now ?s3 = 100000000"
    using k by (simp_all add: fw_clint_def set_clint_def)
  then have r4: "fw_reachable U I irq u i ?s4"
    using fw_reachable.step [OF r3 fw_step.wake] by metis
  have inv: "fw_inv out irq u ?s4" by (rule fw_reachable_inv [OF assms(1,2) r4])
  then have run: "fw_running irq ?s4" using assms(4) by (simp add: fw_inv_def set_plic_def set_clint_def)
  then obtain l where one: "plic_one c False l" using assms(5) by (auto simp: fw_running_def set_plic_def set_clint_def)
  moreover have "coherent c" using inv by (simp add: fw_inv_def set_plic_def set_clint_def)
  ultimately have "\<not> meip c" using c(2) assms(8) plic_one_candidate [OF one] by (simp add: coherent_def soc_line_def plic_one_def)
  then have h: "hart_irq ?s4 = Some 7"
    using hart_irq_cases [OF run] assms(5,7) k by (simp add: set_plic_def set_clint_def timer_proc_eq now_mtime_def kScaler_def)
  obtain v where v: "trap_timer U I ?s4 = Inr (?s4\<lparr>fw_soc := (fw_soc ?s4)\<lparr>soc_uart := v\<rparr>, timer_done := 1, csr_mie := csr_mie ?s4 AND NOT 0x80\<rparr>)"
    by (rule timer_effect [OF assms(1)])
  let ?s5 = "?s4\<lparr>fw_soc := (fw_soc ?s4)\<lparr>soc_uart := v\<rparr>, timer_done := 1, csr_mie := csr_mie ?s4 AND NOT 0x80\<rparr>"
  have r5: "fw_reachable U I irq u i ?s5" by (rule fw_reachable.step [OF r4 fw_step.take_timer [OF h v]])
  obtain w where w: "fw_main_end U I ?s5 = Inr (?s5\<lparr>fw_soc := (fw_soc ?s5)\<lparr>soc_uart := w\<rparr>\<rparr>)"
    unfolding fw_main_end_def by (rule puts_effect [OF assms(1)])
  have "fw_step U I irq ?s5 (?s5\<lparr>fw_soc := (fw_soc ?s5)\<lparr>soc_uart := w\<rparr>, fw_main := Parked\<rparr>)"
    by (rule fw_step.leave [OF _ _ _ _ w]) (use assms in \<open>simp_all add: set_plic_def set_clint_def\<close>)
  then show thesis by (rule that [OF fw_reachable.step [OF r5]]) (simp_all add: set_clint_def)
qed

lemma run_initialise:
  assumes "uart_sends U out" and "i2c_interrupts I irq"
  obtains t where "fw_reachable U I irq u i t" and "fw_main t = Waiting" and "fw_trap t = No_trap" and "ext_done t = 0"
    and "timer_done t = 0" and "mtimecmp (fw_clint t) = 100" and "cmp_event (fw_clint t) = Some Delta" and "fw_now t = 0"
proof -
  have b: "plic_fresh (soc_plic (fw_soc (fw_boot u i)))" "fw_now (fw_boot u i) = 0" "fw_main (fw_boot u i) = Booting"
    "fw_trap (fw_boot u i) = No_trap" "ext_done (fw_boot u i) = 0" "timer_done (fw_boot u i) = 0"
    by (simp_all add: fw_boot_def custom_soc_new_def plic_new_fresh)
  have a: "armed 0 = 100" by (simp add: armed_def now_mtime_def)
  obtain u' c i' where t: "fw_main_init U I (fw_boot u i) = Inr ((fw_boot u i)\<lparr>csr_mtvec := True, csr_mie := csr_mie (fw_boot u i) OR 0x880,
      csr_mstatus := csr_mstatus (fw_boot u i) OR 8, fw_soc := (fw_soc (fw_boot u i))\<lparr>soc_uart := u', soc_plic := c, soc_clint :=
      (soc_clint (fw_soc (fw_boot u i)))\<lparr>mtimecmp := armed (fw_now (fw_boot u i)), cmp_event := Some Delta\<rparr>, soc_i2c := i'\<rparr>\<rparr>)"
    by (rule init_effect [OF assms b(1)])
  show thesis
    by (rule that [OF fw_reachable.step [OF fw_reachable.boot fw_step.initialise [OF b(3) t]]])
      (simp_all add: b a fw_clint_def)
qed

text \<open>
  For every UART and I2C controller with the stated behaviour there is a schedule, the one in which
  each part moves when it is due, that takes the program from reset to its end in 100
  microseconds of simulated time.
\<close>

lemma end_reachable:
  assumes "uart_sends U out" and "i2c_interrupts I irq"
  obtains s where "fw_reachable U I irq u i s" and "fw_main s = Parked" and "fw_now s = 100000000"
proof -
  obtain s where s: "fw_reachable U I irq u i s" "fw_main s = Waiting" "fw_trap s = No_trap" "ext_done s = 0"
    "timer_done s = 0" "mtimecmp (fw_clint s) = 100" "cmp_event (fw_clint s) = Some Delta" "fw_now s = 0"
    by (rule run_initialise [OF assms])
  obtain t where "fw_reachable U I irq u i t" "fw_main t = Waiting" "fw_trap t = No_trap" "ext_done t = 1"
    "timer_done t = timer_done s" "fw_clint t = fw_clint s" "fw_now t = fw_now s" "\<not> irq (soc_i2c (fw_soc t))"
    by (rule run_external [OF assms s(1-4)])
  with s that show thesis by (metis run_timer [OF assms])
qed

text \<open>
  The line to the PLIC falls one delta cycle after the handler has cleared its source. A core that
  runs on meanwhile completes the interrupt before that, the PLIC raises it again, and the
  handler is entered a second time for an interrupt that has been served.
\<close>

lemma external_taken_again:
  assumes "uart_sends U out" and "i2c_interrupts I irq"
  shows "\<exists>s. fw_reachable U I irq u i s \<and> ext_done s = 1 \<and> \<not> irq (soc_i2c (fw_soc s)) \<and> hart_irq s = Some 11"
proof -
  obtain s where s: "fw_reachable U I irq u i s" "fw_main s = Waiting" "fw_trap s = No_trap" "ext_done s = 0"
    by (rule run_initialise [OF assms])
  from run_external [OF assms s] show ?thesis by metis
qed

text \<open>An I2C controller that is its line: raised by \<open>ICTLR\<close>, lowered by \<open>IICR\<close>.\<close>

definition i2c_latch :: "bool transport" where
  "i2c_latch l p d = bindR (ptr_load p 4) (\<lambda>bs.
     Inr (if address p = 0x04 then True else if address p = 0x50 then False else l,
       p\<lparr>response_status := TLM_OK_RESPONSE\<rparr>, d))"

lemma i2c_latch_interrupts: "i2c_interrupts i2c_latch id"
  by (auto simp: i2c_interrupts_def write32_def i2c_latch_def ptr_load_def is_response_error_def)

section \<open>Properties\<close>

text \<open>
  C4: what the demo prints. However the program, the interrupt line, the controllers and time
  interleave, with a UART that sends what it is given and an I2C controller whose line behaves as
  the firmware expects, a program that has reached its end has sent the greeting, then \<open>TIMER\<close>
  exactly once and \<open>EXT IRQ\<close> at least once in some order, then \<open>done\<close>; after that only further
  external interrupts can be reported.
\<close>

theorem demo_output:
  assumes "uart_sends U out" and "i2c_interrupts I irq" and "fw_reachable U I irq u i s" and "fw_main s = Parked"
  shows "\<exists>b n. out (soc_uart (fw_soc s)) = out u @ ascii (concat (line ''Hello from custom SoC'' # b @
      line ''done'' # replicate n (line ''EXT IRQ''))) \<and>
    set b \<subseteq> {line ''TIMER'', line ''EXT IRQ''} \<and> count_list b (line ''TIMER'') = 1 \<and> line ''EXT IRQ'' \<in> set b"
  by (rule parked_log [OF fw_reachable_inv [OF assms(1-3)] assms(4)]) (auto simp: demo_body_def)

theorem demo_output_witness:
  "\<exists>s b n. fw_reachable uart_sink i2c_latch id [] False s \<and>
     soc_uart (fw_soc s) = ascii (concat (line ''Hello from custom SoC'' # b @ line ''done'' # replicate n (line ''EXT IRQ''))) \<and>
     count_list b (line ''TIMER'') = 1"
proof -
  obtain s where "fw_reachable uart_sink i2c_latch id [] False s" "fw_main s = Parked"
    by (rule end_reachable [OF uart_sink_sends i2c_latch_interrupts])
  with demo_output [OF uart_sink_sends i2c_latch_interrupts this] show ?thesis by auto
qed

text \<open>
  The demo does not hang. In every reachable state of the first 71 minutes before the end,
  with nothing due in the environment, the program can move at once, or it waits for the timer
  interrupt only, which is scheduled at most 100 microseconds ahead.
\<close>

lemma demo_progress:
  assumes "uart_sends U out" and "i2c_interrupts I irq" and "fw_reachable U I irq u i s" and "fw_main s \<noteq> Parked"
    and "early s" and "fw_settled irq s"
  shows "(\<exists>t. fw_step U I irq s t \<and> fw_now t = fw_now s) \<or>
    (\<exists>w. cmp_event (fw_clint s) = Some (Timed w) \<and> fw_now s < w \<and> unat w \<le> unat (fw_now s) + 100000000)"
proof (cases "fw_ready s")
  case True
  then show ?thesis using hart_can_step [OF assms(1,2) fw_reachable_inv [OF assms(1-3)]] by blast
next
  case False
  have inv: "fw_inv out irq u s" by (rule fw_reachable_inv [OF assms(1-3)])
  have w: "fw_main s = Waiting" "fw_trap s = No_trap" "hart_irq s = None" "timer_done s = 0 \<or> ext_done s = 0"
    using False assms(4) by (cases "fw_main s"; auto simp: fw_ready_def)+
  then have r: "fw_running irq s" using inv by (simp add: fw_inv_def)
  obtain l where l: "plic_one (soc_plic (fw_soc s)) False l" using r w(2) by (auto simp: fw_running_def)
  have "meip (soc_plic (fw_soc s)) = irq (soc_i2c (fw_soc s))"
    using inv assms(6) l by (auto simp: fw_inv_def fw_settled_def coherent_def plic_one_candidate fw_plic_def soc_line_def plic_one_def)
  then have "ext_done s \<noteq> 0" "timer_done s \<noteq> 0 \<or> \<not> mtip (soc_clint (fw_soc s))"
    using w(3) r by (auto simp: hart_irq_cases [OF r w(2)] fw_running_def split: if_splits)
  then show ?thesis
    using compare_pending [of "fw_now s" "fw_clint s"] inv r w(4) assms(5,6)
    by (auto simp: fw_inv_def fw_running_def fw_settled_def fw_clint_def early_def)
qed

end
