(* ===== verification/Runs.thy ===== *)
theory Runs
  imports Main "HOL-Library.Product_Lexorder"
begin

text \<open>
  Infinite runs of a system that has to come to an end: the steps are those of the parts that make
  progress, the moves, and others. The locale \<open>converging\<close> asks for a rank that every move lowers
  and no other step raises, and shows that a run in which moves keep happening reaches the end.
\<close>

text \<open>A run that rests once it is at the end, and in which moves keep happening before that.\<close>

definition fair_run :: "('s \<Rightarrow> 's \<Rightarrow> bool) \<Rightarrow> ('s \<Rightarrow> 's \<Rightarrow> bool) \<Rightarrow> ('s \<Rightarrow> bool) \<Rightarrow> (nat \<Rightarrow> 's) \<Rightarrow> bool" where
  "fair_run step move final f \<longleftrightarrow>
     (\<forall>n. step (f n) (f (Suc n)) \<or> final (f n) \<and> f (Suc n) = f n) \<and>
     (\<forall>n. \<exists>m \<ge> n. move (f m) (f (Suc m)) \<or> final (f m))"

locale converging =
  fixes step :: "'s \<Rightarrow> 's \<Rightarrow> bool"
    and move :: "'s \<Rightarrow> 's \<Rightarrow> bool"
    and invar :: "'s \<Rightarrow> bool"
    and final :: "'s \<Rightarrow> bool"
    and rank :: "'s \<Rightarrow> 'r::wellorder"
  assumes invar_step: "invar s \<Longrightarrow> step s t \<Longrightarrow> invar t"
    and rank_move: "invar s \<Longrightarrow> \<not> final s \<Longrightarrow> move s t \<Longrightarrow> rank t < rank s"
    and rank_step: "invar s \<Longrightarrow> \<not> final s \<Longrightarrow> step s t \<Longrightarrow> rank t \<le> rank s"
begin

lemma run_invar:
  assumes "invar (f 0)" and "\<And>n. step (f n) (f (Suc n))"
  shows "invar (f n)"
  by (induction n) (use assms invar_step in blast)+

lemma rank_mono:
  assumes "invar (f 0)" and "\<And>n. step (f n) (f (Suc n))" and "\<And>n. \<not> final (f n)" and "m \<le> n"
  shows "rank (f n) \<le> rank (f m)"
  using assms(4)
proof (induction n rule: dec_induct)
  case (step n)
  then show ?case using rank_step [OF run_invar [OF assms(1,2)] assms(3,2), of n] by simp
qed simp

lemma run_ends:
  assumes "invar (f 0)" and "fair_run step move final f"
  shows "\<exists>n. final (f n)"
proof (rule ccontr)
  assume "\<nexists>n. final (f n)"
  then have going: "\<not> final (f n)" for n by blast
  have steps: "step (f n) (f (Suc n))" and moves: "\<exists>m \<ge> n. move (f m) (f (Suc m))" for n
    using assms(2) going unfolding fair_run_def by blast+
  let ?r = "LEAST r. \<exists>n. r = rank (f n)"
  have "\<exists>n. ?r = rank (f n)" by (rule LeastI_ex) blast
  then obtain n where n: "?r = rank (f n)" by blast
  have least: "rank (f n) \<le> rank (f k)" for k unfolding n [symmetric] by (rule Least_le) blast
  obtain m where m: "n \<le> m" "move (f m) (f (Suc m))" using moves by blast
  have "rank (f (Suc m)) < rank (f m)"
    using rank_move [OF run_invar [OF assms(1) steps] going m(2)] .
  also have "\<dots> \<le> rank (f n)" using rank_mono [OF assms(1) steps going m(1)] .
  finally show False using least [of "Suc m"] by simp
qed

text \<open>If every state before the end has a move, the end can be reached from it.\<close>

lemma end_attained:
  assumes "\<And>s. invar s \<Longrightarrow> \<not> final s \<Longrightarrow> \<exists>t. move s t" and "\<And>s t. move s t \<Longrightarrow> step s t" and "invar s"
  shows "\<exists>t. step\<^sup>*\<^sup>* s t \<and> final t"
  using assms(3)
proof (induction "rank s" arbitrary: s rule: less_induct)
  case less
  show ?case
  proof (cases "final s")
    case False
    then obtain t where t: "move s t" using assms(1) less.prems by blast
    then have "step s t" "invar t" using assms(2) invar_step less.prems by blast+
    moreover have "rank t < rank s" using rank_move [OF less.prems False t] .
    ultimately show ?thesis using less.hyps [of t] by (meson converse_rtranclp_into_rtranclp rtranclp.rtrancl_refl)
  qed auto
qed

lemma run_exists:
  assumes "\<And>s. invar s \<Longrightarrow> \<not> final s \<Longrightarrow> \<exists>t. move s t" and "\<And>s t. move s t \<Longrightarrow> step s t" and "invar s"
  shows "\<exists>f. f 0 = s \<and> fair_run step move final f"
proof -
  let ?P = "\<lambda>n x. invar x \<and> (n = (0::nat) \<longrightarrow> x = s)" and ?Q = "\<lambda>n x y. if final x then y = x else move x y"
  have next_state: "\<exists>y. ?P (Suc n) y \<and> ?Q n x y" if "?P n x" for n x
  proof (cases "final x")
    case True
    with that show ?thesis by auto
  next
    case False
    with that obtain y where "move x y" using assms(1) by blast
    moreover from this that have "invar y" by (blast intro: invar_step assms(2))
    ultimately show ?thesis using False by auto
  qed
  have "\<exists>x. ?P 0 x" using assms(3) by blast
  from dependent_nat_choice [of ?P ?Q, OF this next_state]
  have "\<exists>f. \<forall>n. ?P n (f n) \<and> ?Q n (f n) (f (Suc n))" .
  then obtain f where f: "f 0 = s" "\<And>n. if final (f n) then f (Suc n) = f n else move (f n) (f (Suc n))" by blast
  have "step (f n) (f (Suc n)) \<or> final (f n) \<and> f (Suc n) = f n" "move (f n) (f (Suc n)) \<or> final (f n)" for n
    using f(2) [of n] assms(2) by (auto split: if_splits)
  then have "fair_run step move final f" unfolding fair_run_def by blast
  with f(1) show ?thesis by blast
qed

end

end
