(* ===== verification/Clint_Firmware.thy ===== *)
theory Clint_Firmware
  imports Firmware_Run Runs
begin

text \<open>
  \<open>fw/clint_timer_riscv\<close>: the program that takes one timer interrupt on \<open>riscv_custom_soc\<close>, statement
  by statement, so that time and the CLINT move between any two of them. The
  hart is as fast as a bound \<open>d\<close> says: while it has something to do, a statement or an interrupt, it
  does it within \<open>d\<close> picoseconds. The PLIC and the I2C controller, which the program does not
  use, may change at any time.
\<close>

section \<open>The program\<close>

text \<open>The statements of \<open>main\<close>, with the locals that are live before each.\<close>

datatype clint_point = At_start | At_mtime_hi | At_mtime_lo u32 | At_cmp_hi u32 u32 | At_cmp_lo u32 | At_mie
  | At_mstatus | Spinning | Ended

record ('u, 'i) clint_fw =
  cf_soc :: "('u, 'i) custom_soc"
  cf_now :: sc_time
  cf_since :: sc_time
  cf_mie :: u32
  cf_mstatus :: u32
  cf_mtvec :: bool
  ticks :: int
  cf_at :: clint_point

definition cf_boot :: "'u \<Rightarrow> 'i \<Rightarrow> ('u, 'i) clint_fw" where
  "cf_boot u i = \<lparr>cf_soc = custom_soc_new u i, cf_now = 0, cf_since = 0, cf_mie = 0, cf_mstatus = 0, cf_mtvec = False,
     ticks = 0, cf_at = At_start\<rparr>"

definition cf_store :: "'u transport \<Rightarrow> 'i transport \<Rightarrow> u64 \<Rightarrow> u32 \<Rightarrow> ('u, 'i) clint_fw \<Rightarrow> ('u, 'i) clint_fw res" where
  "cf_store U I a v s = bindR (write32 (custom_soc_b_transport (cf_now s) U I) a v (cf_soc s)) (\<lambda>t. Inr (s\<lparr>cf_soc := t\<rparr>))"

definition cf_load :: "'u transport \<Rightarrow> 'i transport \<Rightarrow> u64 \<Rightarrow> ('u, 'i) clint_fw \<Rightarrow> (('u, 'i) clint_fw \<times> u32) res" where
  "cf_load U I a s = bindR (read32 (custom_soc_b_transport (cf_now s) U I) a (cf_soc s)) (\<lambda>(t, v). Inr (s\<lparr>cf_soc := t\<rparr>, v))"

definition cf_puts :: "'u transport \<Rightarrow> 'i transport \<Rightarrow> string \<Rightarrow> ('u, 'i) clint_fw \<Rightarrow> ('u, 'i) clint_fw res" where
  "cf_puts U I str s = bindR (write_uart (custom_soc_b_transport (cf_now s) U I) UART_TX str (cf_soc s))
     (\<lambda>t. Inr (s\<lparr>cf_soc := t\<rparr>))"

definition cf_trap_handler :: "'u transport \<Rightarrow> 'i transport \<Rightarrow> ('u, 'i) clint_fw \<Rightarrow> ('u, 'i) clint_fw res" where
  "cf_trap_handler U I s =
     bindR (cf_puts U I (line ''TIMER'') s) (\<lambda>s.
     if ticks s = 2 ^ 31 - 1 then Inl Signed_overflow
     else Inr (s\<lparr>ticks := ticks s + 1, cf_mie := cf_mie s AND NOT MIE_MTIE\<rparr>))"

definition cf_main :: "'u transport \<Rightarrow> 'i transport \<Rightarrow> ('u, 'i) clint_fw \<Rightarrow> ('u, 'i) clint_fw res" where
  "cf_main U I s =
     (case cf_at s of
        At_start \<Rightarrow> bindR (cf_puts U I (line ''Hello from custom SoC'') s) (\<lambda>s.
          Inr (s\<lparr>cf_mtvec := True, cf_at := At_mtime_hi\<rparr>))
      | At_mtime_hi \<Rightarrow> bindR (cf_load U I CLINT_MTIME_HI s) (\<lambda>(s, hi). Inr (s\<lparr>cf_at := At_mtime_lo hi\<rparr>))
      | At_mtime_lo hi \<Rightarrow> bindR (cf_load U I CLINT_MTIME_LO s) (\<lambda>(s, lo). Inr (s\<lparr>cf_at := At_cmp_hi hi lo\<rparr>))
      | At_cmp_hi hi lo \<Rightarrow> bindR (cf_store U I CLINT_MTIMECMP_HI hi s) (\<lambda>s. Inr (s\<lparr>cf_at := At_cmp_lo lo\<rparr>))
      | At_cmp_lo lo \<Rightarrow> bindR (cf_store U I CLINT_MTIMECMP_LO (lo + 100) s) (\<lambda>s. Inr (s\<lparr>cf_at := At_mie\<rparr>))
      | At_mie \<Rightarrow> Inr (s\<lparr>cf_mie := cf_mie s OR MIE_MTIE, cf_at := At_mstatus\<rparr>)
      | At_mstatus \<Rightarrow> Inr (s\<lparr>cf_mstatus := cf_mstatus s OR MSTATUS_MIE, cf_at := Spinning\<rparr>)
      | Spinning \<Rightarrow> if ticks s = 0 then Inr s
          else bindR (cf_puts U I (line ''done'') s) (\<lambda>s. Inr (s\<lparr>cf_at := Ended\<rparr>))
      | Ended \<Rightarrow> Inr s)"

section \<open>The system\<close>

text \<open>An interrupt is taken when it is pending and enabled; the handler is the same for all.\<close>

definition cf_irq :: "('u, 'i) clint_fw \<Rightarrow> bool" where
  "cf_irq s \<longleftrightarrow> bit (cf_mstatus s) 3 \<and> cf_mtvec s \<and>
     (bit (cf_mie s) 11 \<and> meip (soc_plic (cf_soc s)) \<or>
      bit (cf_mie s) 3 \<and> irq_level (clint_cpu (soc_clint (cf_soc s))) kCauseSoftware \<or>
      bit (cf_mie s) 7 \<and> mtip (soc_clint (cf_soc s)))"

text \<open>The program has a statement to execute: it is neither in its waiting loop nor in its last one.\<close>

definition cf_busy :: "('u, 'i) clint_fw \<Rightarrow> bool" where
  "cf_busy s \<longleftrightarrow> cf_at s \<noteq> Ended \<and> (cf_at s = Spinning \<longrightarrow> ticks s \<noteq> 0)"

definition cf_ready :: "('u, 'i) clint_fw \<Rightarrow> bool" where
  "cf_ready s \<longleftrightarrow> cf_irq s \<or> cf_busy s"

abbreviation cf_clint :: "('u, 'i) clint_fw \<Rightarrow> clint" where
  "cf_clint s \<equiv> soc_clint (cf_soc s)"

text \<open>
  The moves: a statement, an interrupt with its handler, the CLINT's process, and time, which waits
  for due notifications and for a hart with something to do.
\<close>

inductive cf_move :: "nat \<Rightarrow> 'u transport \<Rightarrow> 'i transport \<Rightarrow> ('u, 'i) clint_fw \<Rightarrow> ('u, 'i) clint_fw \<Rightarrow> bool"
  for d U I where
  statement: "cf_busy s \<Longrightarrow> cf_main U I s = Inr t \<Longrightarrow> cf_move d U I s (t\<lparr>cf_since := cf_now s\<rparr>)"
| interrupt: "cf_irq s \<Longrightarrow> cf_trap_handler U I s = Inr t \<Longrightarrow> cf_move d U I s (t\<lparr>cf_since := cf_now s\<rparr>)"
| wake: "cmp_event (cf_clint s) = Some Delta \<or> cmp_event (cf_clint s) = Some (Timed (cf_now s)) \<Longrightarrow>
    cf_move d U I s (s\<lparr>cf_soc := (cf_soc s)\<lparr>soc_clint := timer_proc (cf_now s) (cf_clint s)\<rparr>,
      cf_since := (if cf_ready s then cf_since s else cf_now s)\<rparr>)"
| pass: "cf_now s < t \<Longrightarrow> cmp_event (cf_clint s) \<noteq> Some Delta \<Longrightarrow>
    (\<And>w. cmp_event (cf_clint s) = Some (Timed w) \<Longrightarrow> t \<le> w) \<Longrightarrow> (cf_ready s \<Longrightarrow> unat t \<le> unat (cf_since s) + d) \<Longrightarrow>
    cf_move d U I s (s\<lparr>cf_now := t\<rparr>)"

inductive cf_step :: "nat \<Rightarrow> 'u transport \<Rightarrow> 'i transport \<Rightarrow> ('u, 'i) clint_fw \<Rightarrow> ('u, 'i) clint_fw \<Rightarrow> bool"
  for d U I where
  move: "cf_move d U I s t \<Longrightarrow> cf_step d U I s t"
| others: "cf_step d U I s (s\<lparr>cf_soc := (cf_soc s)\<lparr>soc_plic := c, soc_i2c := i\<rparr>\<rparr>)"

inductive cf_reachable :: "nat \<Rightarrow> 'u transport \<Rightarrow> 'i transport \<Rightarrow> 'u \<Rightarrow> 'i \<Rightarrow> ('u, 'i) clint_fw \<Rightarrow> bool"
  for d U I u i where
  boot: "cf_reachable d U I u i (cf_boot u i)"
| step: "cf_reachable d U I u i s \<Longrightarrow> cf_step d U I s t \<Longrightarrow> cf_reachable d U I u i t"

section \<open>Effects\<close>

lemma cf_puts_effect:
  assumes "uart_sends U out"
  obtains v where "cf_puts U I str s = Inr (s\<lparr>cf_soc := (cf_soc s)\<lparr>soc_uart := v\<rparr>\<rparr>)"
    and "out v = out (soc_uart (cf_soc s)) @ ascii str"
proof -
  have "write_uart (custom_soc_b_transport now U I) UART_TX str t =
      bindR (write_uart U 0 str (soc_uart t)) (\<lambda>u. Inr (t\<lparr>soc_uart := u\<rparr>))" for now t
    by (rule write_uart_part) (simp_all add: soc_accesses)
  then show thesis
    using write_uart_sends [OF assms, of str "soc_uart (cf_soc s)"] that by (auto simp: cf_puts_def)
qed

text \<open>The compare register of a CLINT that has not been used, in the two writes.\<close>

lemma clint_compare_halves:
  assumes "mtimecmp c = 0"
  shows "write32 (clint_b_transport now) 0x4004 0 c = Inr (c\<lparr>mtimecmp := 0, cmp_event := Some Delta\<rparr>)"
    and "write32 (clint_b_transport now) 0x4000 v c = Inr (c\<lparr>mtimecmp := ucast v, cmp_event := Some Delta\<rparr>)"
proof -
  have z: "le_bytes 8 (0 :: u64) = le_bytes 4 (0 :: u64) @ le_bytes 4 (0 :: u32)" "le_bytes 4 (0 :: u64) = le_bytes 4 (0 :: u32)"
    by (simp_all add: numeral_eq_Suc)
  show "write32 (clint_b_transport now) 0x4004 0 c = Inr (c\<lparr>mtimecmp := 0, cmp_event := Some Delta\<rparr>)"
    "write32 (clint_b_transport now) 0x4000 v c = Inr (c\<lparr>mtimecmp := ucast v, cmp_event := Some Delta\<rparr>)"
    using clint_write_compare [of 4 now 0 c] clint_write_compare [of 0 now v c] assms
    by (simp_all add: memcpy_to_def z le_word_append le_word_le_bytes_ucast take_bit_word_eq_self)
qed

section \<open>The invariant\<close>

fun cf_stage :: "clint_point \<Rightarrow> nat" where
  "cf_stage At_start = 0"
| "cf_stage At_mtime_hi = 1"
| "cf_stage (At_mtime_lo _) = 2"
| "cf_stage (At_cmp_hi _ _) = 3"
| "cf_stage (At_cmp_lo _) = 4"
| "cf_stage At_mie = 5"
| "cf_stage At_mstatus = 6"
| "cf_stage Spinning = 7"
| "cf_stage Ended = 8"

definition cf_flags :: "('u, 'i) clint_fw \<Rightarrow> bool" where
  "cf_flags s \<longleftrightarrow> (let n = cf_stage (cf_at s) in
     (cf_mtvec s \<longleftrightarrow> 0 < n) \<and> cf_mstatus s = (if 7 \<le> n then 8 else 0) \<and>
     cf_mie s = (if 6 \<le> n \<and> ticks s = 0 then 0x80 else 0) \<and>
     (ticks s = 0 \<or> ticks s = 1 \<and> 7 \<le> n) \<and> (n = 8 \<longrightarrow> ticks s = 1))"

definition cf_messages :: "('u, 'i) clint_fw \<Rightarrow> string list" where
  "cf_messages s = (if cf_at s = At_start then [] else [line ''Hello from custom SoC'']) @
     (if ticks s = 0 then [] else [line ''TIMER'']) @ (if cf_at s = Ended then [line ''done''] else [])"

text \<open>The compare register: zero until its low word is written, then 100 more than the time that was read.\<close>

definition cf_compare :: "nat \<Rightarrow> ('u, 'i) clint_fw \<Rightarrow> bool" where
  "cf_compare d s \<longleftrightarrow> (let c = cf_clint s in
     (if cf_stage (cf_at s) < 5 then mtimecmp c = 0
      else 100 \<le> unat (mtimecmp c) \<and> unat (mtimecmp c) * 1000000 \<le> 3 * d + 100000000) \<and>
     (mtip c \<longrightarrow> mtimecmp c \<noteq> 0 \<and> mtimecmp c \<le> now_mtime (cf_now s)) \<and>
     (case cf_at s of At_mtime_lo hi \<Rightarrow> hi = 0 | At_cmp_hi hi lo \<Rightarrow> hi = 0 \<and> unat lo * 1000000 \<le> 3 * d
      | At_cmp_lo lo \<Rightarrow> unat lo * 1000000 \<le> 3 * d | _ \<Rightarrow> True))"

text \<open>The times: one bound \<open>d\<close> per statement, and 100 microseconds for the timer.\<close>

definition cf_clock :: "nat \<Rightarrow> ('u, 'i) clint_fw \<Rightarrow> bool" where
  "cf_clock d s \<longleftrightarrow> (let n = cf_stage (cf_at s); now = unat (cf_now s); since = unat (cf_since s) in
     (n < 7 \<longrightarrow> since \<le> n * d \<and> now \<le> since + d) \<and>
     (n = 7 \<and> ticks s = 0 \<longrightarrow> since \<le> 7 * d + 100000000 \<and>
        now \<le> (if mtip (cf_clint s) then since + d else 7 * d + 100000000)) \<and>
     (n = 7 \<and> ticks s \<noteq> 0 \<longrightarrow> since \<le> 8 * d + 100000000 \<and> now \<le> since + d) \<and>
     (ticks s \<noteq> 0 \<longrightarrow> 100000000 \<le> now))"

definition cf_inv :: "nat \<Rightarrow> ('u \<Rightarrow> u8 list) \<Rightarrow> 'u \<Rightarrow> ('u, 'i) clint_fw \<Rightarrow> bool" where
  "cf_inv d out u s \<longleftrightarrow> clint_invar \<lparr>sim_now = cf_now s, sim_clint = cf_clint s\<rparr> \<and> cf_flags s \<and>
     out (soc_uart (cf_soc s)) = out u @ ascii (concat (cf_messages s)) \<and> cf_compare d s \<and> cf_clock d s"

text \<open>A bound that ends the program within the 5 ms the platform simulates.\<close>

definition cf_fast :: "nat \<Rightarrow> bool" where
  "cf_fast d \<longleftrightarrow> 9 * d + 100000000 \<le> 5000000000"

lemma cf_inv_boot: "cf_inv d out u (cf_boot u i)"
  by (simp add: cf_inv_def cf_boot_def custom_soc_new_def clint_invar_def clint_new_def mtip_def cf_flags_def
      cf_messages_def ascii_def cf_compare_def cf_clock_def)

text \<open>Within these 5 ms the low word of the time is all of it.\<close>

lemma early_mtime:
  assumes "unat now \<le> 5000000000"
  shows "ucast (drop_bit 32 (now_mtime now)) = (0 :: u32)" and "unat (ucast (now_mtime now) :: u32) * 1000000 \<le> unat now"
    and "unat (ucast (ucast (now_mtime now) + 100 :: u32) :: u64) = unat (ucast (now_mtime now) :: u32) + 100"
proof -
  have m: "unat (now_mtime now) \<le> 5000" using assms by (simp add: unat_now_mtime)
  then have "unat (drop_bit 32 (now_mtime now)) = 0" by (simp add: drop_bit_eq_div unat_div)
  then show "ucast (drop_bit 32 (now_mtime now)) = (0 :: u32)" by (simp add: unat_eq_0)
  have u: "unat (ucast (now_mtime now) :: u32) = unat (now_mtime now)" using m by (simp add: unsigned_ucast_eq take_bit_nat_eq_self)
  then show "unat (ucast (now_mtime now) :: u32) * 1000000 \<le> unat now" by (simp add: unat_now_mtime)
  have "unat (ucast (now_mtime now) + 100 :: u32) = unat (ucast (now_mtime now) :: u32) + 100"
    using m u by (simp add: unat_word_ariths)
  then show "unat (ucast (ucast (now_mtime now) + 100 :: u32) :: u64) = unat (ucast (now_mtime now) :: u32) + 100" by simp
qed

lemma cf_irq_iff:
  assumes "cf_flags s"
  shows "cf_irq s \<longleftrightarrow> cf_at s = Spinning \<and> ticks s = 0 \<and> mtip (cf_clint s)"
  using assms by (cases "cf_at s") (auto simp: cf_flags_def cf_irq_def Let_def bit_numeral_rec)

lemma cf_ready_iff:
  assumes "cf_flags s"
  shows "cf_ready s \<longleftrightarrow> cf_at s \<noteq> Ended \<and> (cf_at s = Spinning \<and> ticks s = 0 \<longrightarrow> mtip (cf_clint s))"
  using assms by (auto simp: cf_ready_def cf_irq_iff cf_busy_def)

lemmas cf_inv_defs = cf_inv_def cf_flags_def cf_compare_def cf_clock_def cf_messages_def Let_def

text \<open>Before the waiting loop the time is early.\<close>

lemma cf_early:
  assumes "cf_inv d out u s" and "cf_fast d" and "cf_stage (cf_at s) < 7"
  shows "unat (cf_now s) \<le> Suc (cf_stage (cf_at s)) * d" and "unat (cf_now s) \<le> 5000000000"
proof -
  show le: "unat (cf_now s) \<le> Suc (cf_stage (cf_at s)) * d" using assms(1,3) by (simp add: cf_inv_def cf_clock_def Let_def)
  have "Suc (cf_stage (cf_at s)) * d \<le> 7 * d" using assms(3) by (intro mult_le_mono1) simp
  with le show "unat (cf_now s) \<le> 5000000000" using assms(2) unfolding cf_fast_def by linarith
qed

text \<open>The statements that print.\<close>

lemma cf_inv_start:
  assumes "uart_sends U out" and "cf_inv d out u s" and "cf_at s = At_start" and "cf_main U I s = Inr t"
  shows "cf_inv d out u (t\<lparr>cf_since := cf_now s\<rparr>)"
proof -
  obtain v where v: "cf_puts U I (line ''Hello from custom SoC'') s = Inr (s\<lparr>cf_soc := (cf_soc s)\<lparr>soc_uart := v\<rparr>\<rparr>)"
    "out v = out (soc_uart (cf_soc s)) @ ascii (line ''Hello from custom SoC'')"
    by (rule cf_puts_effect [OF assms(1)])
  then have t: "t = s\<lparr>cf_soc := (cf_soc s)\<lparr>soc_uart := v\<rparr>, cf_mtvec := True, cf_at := At_mtime_hi\<rparr>"
    using assms(3,4) by (simp add: cf_main_def)
  have "ascii [] = []" by (simp add: ascii_def)
  then show ?thesis unfolding t using v(2) assms(2,3) by (auto simp: cf_inv_defs)
qed

lemma cf_inv_done:
  assumes "uart_sends U out" and "cf_inv d out u s" and "cf_at s = Spinning" and "ticks s \<noteq> 0" and "cf_main U I s = Inr t"
  shows "cf_inv d out u (t\<lparr>cf_since := cf_now s\<rparr>)"
proof -
  obtain v where v: "cf_puts U I (line ''done'') s = Inr (s\<lparr>cf_soc := (cf_soc s)\<lparr>soc_uart := v\<rparr>\<rparr>)"
    "out v = out (soc_uart (cf_soc s)) @ ascii (line ''done'')"
    by (rule cf_puts_effect [OF assms(1)])
  then have t: "t = s\<lparr>cf_soc := (cf_soc s)\<lparr>soc_uart := v\<rparr>, cf_at := Ended\<rparr>"
    using assms(3-5) by (simp add: cf_main_def)
  show ?thesis unfolding t using v(2) assms(2-4) by (auto simp: cf_inv_defs ascii_append)
qed

lemma cf_inv_interrupt:
  assumes "uart_sends U out" and "cf_inv d out u s" and "cf_irq s" and "cf_trap_handler U I s = Inr t"
  shows "cf_inv d out u (t\<lparr>cf_since := cf_now s\<rparr>)"
proof -
  have s: "cf_at s = Spinning" "ticks s = 0" "mtip (cf_clint s)" using assms(2,3) by (auto simp: cf_inv_def cf_irq_iff)
  then have "100 \<le> unat (now_mtime (cf_now s))" using assms(2) by (auto simp: cf_inv_defs word_le_nat_alt)
  then have late: "100000000 \<le> unat (cf_now s)" by (simp add: unat_now_mtime)
  obtain v where v: "cf_puts U I (line ''TIMER'') s = Inr (s\<lparr>cf_soc := (cf_soc s)\<lparr>soc_uart := v\<rparr>\<rparr>)"
    "out v = out (soc_uart (cf_soc s)) @ ascii (line ''TIMER'')"
    by (rule cf_puts_effect [OF assms(1)])
  from v(1) s(2) assms(4) have t: "t = s\<lparr>cf_soc := (cf_soc s)\<lparr>soc_uart := v\<rparr>, ticks := 1, cf_mie := cf_mie s AND NOT MIE_MTIE\<rparr>"
    by (simp add: cf_trap_handler_def)
  show ?thesis unfolding t using v(2) s late assms(2) by (auto simp: cf_inv_defs ascii_append MIE_MTIE_def)
qed

text \<open>The statements that use the CLINT.\<close>

lemma cf_inv_clint:
  assumes "cf_fast d" and "cf_inv d out u s" and "cf_stage (cf_at s) \<in> {1..4}" and "cf_main U I s = Inr t"
  shows "cf_inv d out u (t\<lparr>cf_since := cf_now s\<rparr>)"
proof -
  have st: "cf_stage (cf_at s) < 7" using assms(3) by simp
  note time = cf_early [OF assms(2,1) st]
  note mt = early_mtime [OF time(2)]
  have z: "mtimecmp (cf_clint s) = 0" using assms(2,3) by (auto simp: cf_inv_defs)
  note eff = soc_accesses clint_read_time clint_compare_halves [OF z] mt(1)
  show ?thesis
  proof (cases "cf_at s")
    case At_mtime_hi
    then have "t = s\<lparr>cf_at := At_mtime_lo 0\<rparr>" using assms(4) by (simp add: cf_main_def cf_load_def eff)
    with At_mtime_hi assms(2) time show ?thesis by (auto simp: cf_inv_defs)
  next
    case (At_mtime_lo hi)
    then have "t = s\<lparr>cf_at := At_cmp_hi hi (ucast (now_mtime (cf_now s)))\<rparr>" using assms(4) by (simp add: cf_main_def cf_load_def eff)
    with At_mtime_lo assms(2) time mt(2) show ?thesis by (auto simp: cf_inv_defs)
  next
    case (At_cmp_hi hi lo)
    then have "hi = 0" using assms(2) by (simp add: cf_inv_defs)
    with At_cmp_hi have "t = s\<lparr>cf_soc := (cf_soc s)\<lparr>soc_clint := (cf_clint s)\<lparr>mtimecmp := 0, cmp_event := Some Delta\<rparr>\<rparr>, cf_at := At_cmp_lo lo\<rparr>"
      using assms(4) by (simp add: cf_main_def cf_store_def eff)
    with At_cmp_hi assms(2) time z show ?thesis by (auto simp: cf_inv_defs mtip_def)
  next
    case (At_cmp_lo lo)
    then have "t = s\<lparr>cf_soc := (cf_soc s)\<lparr>soc_clint := (cf_clint s)\<lparr>mtimecmp := ucast (lo + 100), cmp_event := Some Delta\<rparr>\<rparr>, cf_at := At_mie\<rparr>"
      using assms(4) by (simp add: cf_main_def cf_store_def eff)
    moreover have lo: "unat lo * 1000000 \<le> 3 * d" using At_cmp_lo assms(2) by (simp add: cf_inv_defs)
    then have "unat lo \<le> 5000" using assms(1) by (simp add: cf_fast_def)
    then have "unat (lo + 100) = unat lo + 100" by (simp add: unat_word_ariths)
    ultimately show ?thesis using At_cmp_lo assms(2) time z lo by (auto simp: cf_inv_defs mtip_def)
  qed (use assms(3) in simp_all)
qed

lemma cf_inv_statement:
  assumes "uart_sends U out" and "cf_fast d" and "cf_inv d out u s" and "cf_busy s" and "cf_main U I s = Inr t"
  shows "cf_inv d out u (t\<lparr>cf_since := cf_now s\<rparr>)"
proof -
  consider "cf_at s = At_start" | "cf_stage (cf_at s) \<in> {1..4}" | "cf_at s = At_mie" | "cf_at s = At_mstatus"
    | "cf_at s = Spinning" "ticks s \<noteq> 0"
    using assms(4) by (cases "cf_at s") (auto simp: cf_busy_def)
  then show ?thesis
  proof cases
    case 1
    show ?thesis by (rule cf_inv_start [OF assms(1,3) 1 assms(5)])
  next
    case 2
    show ?thesis by (rule cf_inv_clint [OF assms(2,3) 2 assms(5)])
  next
    case 3
    then have t: "t = s\<lparr>cf_mie := cf_mie s OR 0x80, cf_at := At_mstatus\<rparr>"
      using assms(5) by (simp add: cf_main_def MIE_MTIE_def)
    show ?thesis unfolding t using assms(3) 3 by (auto simp: cf_inv_defs)
  next
    case 4
    then have t: "t = s\<lparr>cf_mstatus := cf_mstatus s OR 8, cf_at := Spinning\<rparr>"
      using assms(5) by (simp add: cf_main_def MSTATUS_MIE_def)
    show ?thesis unfolding t using assms(3) 4 by (auto simp: cf_inv_defs)
  next
    case 5
    show ?thesis by (rule cf_inv_done [OF assms(1,3) 5 assms(5)])
  qed
qed

text \<open>The CLINT's process and time.\<close>

lemma cf_inv_wake:
  assumes "cf_inv d out u s"
    and "cmp_event (cf_clint s) = Some Delta \<or> cmp_event (cf_clint s) = Some (Timed (cf_now s))"
  shows "cf_inv d out u (s\<lparr>cf_soc := (cf_soc s)\<lparr>soc_clint := timer_proc (cf_now s) (cf_clint s)\<rparr>,
    cf_since := (if cf_ready s then cf_since s else cf_now s)\<rparr>)" (is "cf_inv _ _ _ ?t")
proof -
  have "clint_step \<lparr>sim_now = cf_now s, sim_clint = cf_clint s\<rparr> \<lparr>sim_now = cf_now s, sim_clint = timer_proc (cf_now s) (cf_clint s)\<rparr>"
    using clint_step.wake [of "\<lparr>sim_now = cf_now s, sim_clint = cf_clint s\<rparr>"] assms(2) by simp
  then have "clint_invar \<lparr>sim_now = cf_now s, sim_clint = timer_proc (cf_now s) (cf_clint s)\<rparr>"
    by (rule clint_step_invar) (use assms(1) in \<open>simp add: cf_inv_def\<close>)
  moreover have "cf_flags ?t" "cf_messages ?t = cf_messages s" "cf_compare d ?t"
    using assms(1) by (auto simp: cf_inv_defs timer_proc_eq)
  moreover have "cf_flags s" using assms(1) by (simp add: cf_inv_def)
  have "cf_clock d ?t"
    using assms(1) cf_ready_iff [OF \<open>cf_flags s\<close>] by (cases "cf_at s") (auto simp: cf_inv_defs timer_proc_eq)
  ultimately show ?thesis using assms(1) by (simp add: cf_inv_def)
qed

text \<open>While the program waits, the pending notification of the timer bounds the time.\<close>

lemma cf_waiting_bound:
  assumes "cf_inv d out u s" and "cf_fast d" and "cf_at s = Spinning" and "\<not> mtip (cf_clint s)"
    and "cmp_event (cf_clint s) \<noteq> Some Delta"
  obtains w where "cmp_event (cf_clint s) = Some (Timed w)" and "cf_now s \<le> w" and "unat w \<le> 3 * d + 100000000"
proof -
  have c: "100 \<le> unat (mtimecmp (cf_clint s))" "unat (mtimecmp (cf_clint s)) * 1000000 \<le> 3 * d + 100000000"
    using assms(1,3) by (simp_all add: cf_inv_defs)
  then have "unat (mtimecmp (cf_clint s) * kScaler) = unat (mtimecmp (cf_clint s)) * 1000000"
    using assms(2) by (intro scaled_goal) (simp add: cf_fast_def)
  moreover have "mtimecmp (cf_clint s) \<noteq> 0" using c(1) by auto
  ultimately show thesis
    using assms(1,4,5) c(2) that
    by (auto simp: cf_inv_def clint_invar_def Let_def split: option.splits notification.splits)
qed

lemma cf_inv_pass:
  assumes "cf_inv d out u s" and "cf_fast d" and "cf_now s < t" and "cmp_event (cf_clint s) \<noteq> Some Delta"
    and "\<And>w. cmp_event (cf_clint s) = Some (Timed w) \<Longrightarrow> t \<le> w" and "cf_ready s \<Longrightarrow> unat t \<le> unat (cf_since s) + d"
  shows "cf_inv d out u (s\<lparr>cf_now := t\<rparr>)"
proof -
  have "clint_step \<lparr>sim_now = cf_now s, sim_clint = cf_clint s\<rparr> \<lparr>sim_now = t, sim_clint = cf_clint s\<rparr>"
    using clint_step.pass [of "\<lparr>sim_now = cf_now s, sim_clint = cf_clint s\<rparr>" t] assms(3-5) by simp
  then have "clint_invar \<lparr>sim_now = t, sim_clint = cf_clint s\<rparr>"
    by (rule clint_step_invar) (use assms(1) in \<open>simp add: cf_inv_def\<close>)
  moreover have "cf_flags (s\<lparr>cf_now := t\<rparr>)" "cf_messages (s\<lparr>cf_now := t\<rparr>) = cf_messages s"
    using assms(1) by (simp_all add: cf_inv_def cf_flags_def cf_messages_def)
  moreover have "now_mtime (cf_now s) \<le> now_mtime t" using assms(3) by (intro now_mtime_mono) simp
  then have "cf_compare d (s\<lparr>cf_now := t\<rparr>)"
    using assms(1) by (auto simp: cf_inv_def cf_compare_def Let_def split: if_splits)
  moreover have "cf_flags s" and clk: "cf_clock d s" using assms(1) by (simp_all add: cf_inv_def)
  have "cf_clock d (s\<lparr>cf_now := t\<rparr>)"
  proof (cases "cf_at s = Spinning \<and> ticks s = 0 \<and> \<not> mtip (cf_clint s)")
    case True
    obtain w where "cmp_event (cf_clint s) = Some (Timed w)" "unat w \<le> 3 * d + 100000000"
      by (rule cf_waiting_bound [OF assms(1,2) _ _ assms(4)]) (use True in simp_all)
    with True assms(5) clk show ?thesis by (force simp: cf_clock_def Let_def word_le_nat_alt)
  next
    case False
    then have "cf_at s = Ended \<or> unat t \<le> unat (cf_since s) + d" using assms(6) cf_ready_iff [OF \<open>cf_flags s\<close>] by blast
    then show ?thesis using clk False assms(3) by (cases "cf_at s") (auto simp: cf_clock_def Let_def word_less_nat_alt)
  qed
  ultimately show ?thesis using assms(1) by (simp add: cf_inv_def)
qed

lemma cf_move_inv:
  assumes "uart_sends U out" and "cf_fast d" and "cf_inv d out u s" and "cf_move d U I s t"
  shows "cf_inv d out u t"
  using assms(4)
proof (cases rule: cf_move.cases)
  case (statement t')
  then show ?thesis using cf_inv_statement [OF assms(1-3)] by simp
next
  case (interrupt t')
  then show ?thesis using cf_inv_interrupt [OF assms(1,3)] by simp
next
  case wake
  then show ?thesis using cf_inv_wake [OF assms(3)] by simp
next
  case (pass t')
  then show ?thesis using cf_inv_pass [OF assms(3,2)] by blast
qed

lemma cf_step_inv:
  assumes "uart_sends U out" and "cf_fast d" and "cf_inv d out u s" and "cf_step d U I s t"
  shows "cf_inv d out u t"
  using assms(4)
proof (cases rule: cf_step.cases)
  case move
  then show ?thesis by (rule cf_move_inv [OF assms(1-3)])
next
  case (others c i)
  then show ?thesis using assms(3) by (simp add: cf_inv_defs)
qed

lemma cf_reachable_inv:
  assumes "uart_sends U out" and "cf_fast d" and "cf_reachable d U I u i s"
  shows "cf_inv d out u s"
  using assms(3)
proof (induction rule: cf_reachable.induct)
  case boot
  show ?case by (rule cf_inv_boot)
next
  case (step s t)
  then show ?case by (blast intro: cf_step_inv [OF assms(1,2)])
qed

section \<open>The end\<close>

lemma cf_bound:
  assumes "cf_inv d out u s" and "cf_at s \<noteq> Ended"
  shows "unat (cf_now s) \<le> 9 * d + 100000000"
  using assms by (cases "cf_at s") (auto simp: cf_inv_defs split: if_splits)

text \<open>
  The rank of a state: the statements and the interrupt that are left, then the time that is left,
  then the wake-ups of the CLINT's process that are due.
\<close>

definition cf_rank :: "nat \<Rightarrow> ('u, 'i) clint_fw \<Rightarrow> nat \<times> nat \<times> nat" where
  "cf_rank d s = (9 - (cf_stage (cf_at s) + (if ticks s = 0 then 0 else 1)), 9 * d + 100000000 - unat (cf_now s),
     case cmp_event (cf_clint s) of None \<Rightarrow> 0 | Some (Timed w) \<Rightarrow> 1 | Some Delta \<Rightarrow> 2)"

lemma cf_main_stage:
  assumes "cf_busy s" and "cf_main U I s = Inr t"
  shows "cf_stage (cf_at t) = Suc (cf_stage (cf_at s)) \<and> ticks t = ticks s"
  using assms
  by (cases "cf_at s") (auto simp: cf_busy_def cf_main_def cf_puts_def cf_load_def cf_store_def bindR_eq_Inr)

lemma cf_wake_rank:
  assumes "cf_inv d out u s" and "cf_fast d"
    and "cmp_event (cf_clint s) = Some Delta \<or> cmp_event (cf_clint s) = Some (Timed (cf_now s))"
  shows "cmp_event (timer_proc (cf_now s) (cf_clint s)) = None \<or>
    cmp_event (cf_clint s) = Some Delta \<and> (\<exists>w. cmp_event (timer_proc (cf_now s) (cf_clint s)) = Some (Timed w))"
proof -
  let ?c = "mtimecmp (cf_clint s)"
  have "unat ?c * 1000000 \<le> 3 * d + 100000000" using assms(1) by (auto simp: cf_inv_defs split: if_splits)
  then have g: "unat (?c * kScaler) = unat ?c * 1000000"
    using assms(2) by (intro scaled_goal) (simp add: cf_fast_def)
  have "?c \<le> now_mtime (cf_now s)" if "?c * kScaler \<le> cf_now s"
  proof -
    have "unat ?c * 1000000 \<le> unat (cf_now s)" using that g by (simp add: word_le_nat_alt)
    then show ?thesis by (simp add: word_le_nat_alt unat_now_mtime less_eq_div_iff_mult_less_eq)
  qed
  then show ?thesis
    using assms(1,3) by (auto simp: timer_proc_eq cf_inv_def clint_invar_def Let_def not_less)
qed

lemma cf_move_rank:
  assumes "uart_sends U out" and "cf_fast d" and "cf_inv d out u s" and "cf_at s \<noteq> Ended" and "cf_move d U I s t"
  shows "cf_rank d t < cf_rank d s"
  using assms(5)
proof (cases rule: cf_move.cases)
  case (statement t')
  have "cf_stage (cf_at s) < 8" using assms(4) by (cases "cf_at s") simp_all
  moreover have "ticks s \<noteq> 0 \<longrightarrow> cf_stage (cf_at s) = 7"
    using assms(3,4) by (cases "cf_at s") (auto simp: cf_inv_defs)
  ultimately show ?thesis using cf_main_stage [OF statement(2,3)] statement(1)
    by (auto simp: cf_rank_def less_prod_def' split: if_splits)
next
  case (interrupt t')
  then have "cf_at s = Spinning" "ticks s = 0" using assms(3) by (simp_all add: cf_inv_def cf_irq_iff)
  moreover from this interrupt have "cf_at t = Spinning" "ticks t = 1"
    by (auto simp: cf_trap_handler_def cf_puts_def bindR_eq_Inr split: if_splits)
  ultimately show ?thesis by (simp add: cf_rank_def)
next
  case wake
  then show ?thesis using cf_wake_rank [OF assms(3,2) wake(2)] by (auto simp: cf_rank_def)
next
  case (pass t')
  then have "cf_inv d out u t" using cf_move_inv [OF assms(1-3)] assms(5) by blast
  from cf_bound [OF this] pass assms(4) show ?thesis by (auto simp: cf_rank_def word_less_nat_alt)
qed

lemma cf_step_rank:
  assumes "uart_sends U out" and "cf_fast d" and "cf_inv d out u s" and "cf_at s \<noteq> Ended" and "cf_step d U I s t"
  shows "cf_rank d t \<le> cf_rank d s"
  using assms(5)
proof (cases rule: cf_step.cases)
  case move
  from cf_move_rank [OF assms(1-4) this] show ?thesis by simp
next
  case (others c i)
  then show ?thesis by (simp add: cf_rank_def)
qed

interpretation cf_run: converging "cf_step d U I" "cf_move d U I" "\<lambda>s. uart_sends U out \<and> cf_fast d \<and> cf_inv d out u s"
  "\<lambda>s. cf_at s = Ended" "cf_rank d" for d U I out u
  by unfold_locales (auto intro: cf_step_inv cf_move_rank cf_step_rank)

text \<open>The program never stands still before its end.\<close>

lemma cf_main_returns:
  assumes "uart_sends U out" and "cf_inv d out u s" and "cf_busy s"
  shows "\<exists>t. cf_main U I s = Inr t"
proof -
  have puts: "\<exists>t. cf_puts U I str s = Inr t" for str by (rule cf_puts_effect [OF assms(1)]) blast
  have cmp: "cf_store U I CLINT_MTIMECMP_HI v s \<noteq> Inl e" "cf_store U I CLINT_MTIMECMP_LO v s \<noteq> Inl e" for v e
    using clint_write_compare [of 4 "cf_now s" v "cf_clint s"] clint_write_compare [of 0 "cf_now s" v "cf_clint s"]
    by (auto simp: cf_store_def soc_accesses memcpy_to_def)
  show ?thesis
    using puts [of "line ''Hello from custom SoC''"] puts [of "line ''done''"] cmp
    by (cases "cf_at s") (auto simp: cf_main_def cf_load_def soc_accesses clint_read_time bindR_def split: sum.splits)
qed

lemma cf_progress:
  assumes "uart_sends U out" and "cf_fast d" and "cf_inv d out u s" and "cf_at s \<noteq> Ended"
  shows "\<exists>t. cf_move d U I s t"
proof -
  have fl: "cf_flags s" using assms(3) by (simp add: cf_inv_def)
  consider "cf_busy s" | "cf_irq s" | "cf_at s = Spinning" "\<not> cf_ready s" "\<not> mtip (cf_clint s)"
    using assms(4) cf_irq_iff [OF fl] by (auto simp: cf_busy_def cf_ready_def)
  then show ?thesis
  proof cases
    case 1
    then show ?thesis using cf_main_returns [OF assms(1,3)] cf_move.statement by blast
  next
    case 2
    then have "ticks s = 0" using cf_irq_iff [OF fl] by simp
    moreover obtain v where "cf_puts U I (line ''TIMER'') s = Inr (s\<lparr>cf_soc := (cf_soc s)\<lparr>soc_uart := v\<rparr>\<rparr>)"
      by (rule cf_puts_effect [OF assms(1)])
    ultimately obtain t where "cf_trap_handler U I s = Inr t" by (simp add: cf_trap_handler_def)
    with 2 show ?thesis using cf_move.interrupt by blast
  next
    case 3
    show ?thesis
    proof (cases "cmp_event (cf_clint s) = Some Delta")
      case True
      then show ?thesis using cf_move.wake by blast
    next
      case False
      obtain w where w: "cmp_event (cf_clint s) = Some (Timed w)" "cf_now s \<le> w"
        by (rule cf_waiting_bound [OF assms(3,2) 3(1,3) False])
      show ?thesis
      proof (cases "cf_now s = w")
        case True
        then show ?thesis using w cf_move.wake by blast
      next
        case False
        then have "cf_move d U I s (s\<lparr>cf_now := w\<rparr>)" using w 3(2) by (intro cf_move.pass) auto
        then show ?thesis ..
      qed
    qed
  qed
qed

lemma cf_end_reachable:
  assumes "uart_sends U out" and "cf_fast d"
  obtains s where "cf_reachable d U I u i s" and "cf_at s = Ended"
proof -
  have "uart_sends U out \<and> cf_fast d \<and> cf_inv d out u (cf_boot u i)" by (simp add: assms cf_inv_boot)
  from cf_run.end_attained [OF _ _ this] obtain s where s: "(cf_step d U I)\<^sup>*\<^sup>* (cf_boot u i) s" "cf_at s = Ended"
    using cf_progress [OF assms] cf_step.move by metis
  from s(1) have "cf_reachable d U I u i s"
    by (induction rule: rtranclp_induct) (auto intro: cf_reachable.intros)
  with s(2) that show thesis by blast
qed

section \<open>Properties\<close>

text \<open>
  C7: the timer demo keeps its time. On a hart that executes a statement at least every \<open>d\<close>
  picoseconds, where \<open>9 d\<close> and 100 microseconds are at most the 5 ms the platform simulates, and a
  UART that sends what it is given, however the program, the CLINT, time and the rest of the SoC
  interleave, the program is at its end once
  \<open>9 d\<close> and 100 microseconds have passed; it has then taken exactly one interrupt, not before 100
  microseconds, and sent the greeting, \<open>TIMER\<close> and \<open>done\<close>, each once.
\<close>

theorem clint_demo_deadline:
  assumes "uart_sends U out" and "cf_fast d" and "cf_reachable d U I u i s"
  shows "(9 * d + 100000000 < unat (cf_now s) \<longrightarrow> cf_at s = Ended) \<and>
    (cf_at s = Ended \<longrightarrow> ticks s = 1 \<and> 100000000 \<le> unat (cf_now s) \<and>
      out (soc_uart (cf_soc s)) = out u @ ascii (concat [line ''Hello from custom SoC'', line ''TIMER'', line ''done'']))"
proof -
  have "cf_inv d out u s" by (rule cf_reachable_inv [OF assms])
  with cf_bound [OF this] show ?thesis by (auto simp: cf_inv_defs not_le)
qed

theorem clint_demo_deadline_witness:
  "\<exists>s. cf_reachable 1000000 uart_sink i2c_latch [] False s \<and> cf_at s = Ended \<and>
     soc_uart (cf_soc s) = ascii (concat [line ''Hello from custom SoC'', line ''TIMER'', line ''done''])"
proof -
  have fast: "cf_fast 1000000" by (simp add: cf_fast_def)
  obtain s where "cf_reachable 1000000 uart_sink i2c_latch [] False s" "cf_at s = Ended"
    by (rule cf_end_reachable [OF uart_sink_sends fast])
  with clint_demo_deadline [OF uart_sink_sends fast this(1)] show ?thesis by auto
qed

text \<open>
  C8: the timer demo ends. In the same setting no reachable state before the end is stuck, and
  every run from reset in which the program, the CLINT or time keep moving reaches the end; such
  runs exist.
\<close>

theorem clint_demo_ends:
  fixes i :: 'i
  assumes "uart_sends U out" and "cf_fast d"
  shows "(\<forall>s. cf_reachable d U I u i s \<and> cf_at s \<noteq> Ended \<longrightarrow> (\<exists>t. cf_move d U I s t)) \<and>
    (\<forall>f. f 0 = cf_boot u i \<and> fair_run (cf_step d U I) (cf_move d U I) (\<lambda>s. cf_at s = Ended) f \<longrightarrow> (\<exists>n. cf_at (f n) = Ended)) \<and>
    (\<exists>f. f 0 = cf_boot u i \<and> fair_run (cf_step d U I) (cf_move d U I) (\<lambda>s. cf_at s = Ended) f)"
proof -
  have inv: "uart_sends U out \<and> cf_fast d \<and> cf_inv d out u (cf_boot u i)"
    by (simp add: assms cf_inv_boot)
  note run = cf_run.run_ends [of U out d u, where I = I] and start = cf_run.run_exists [OF _ _ inv, of I]
  show ?thesis
  proof (intro conjI allI impI)
    fix s :: "('a, 'i) clint_fw"
    assume "cf_reachable d U I u i s \<and> cf_at s \<noteq> Ended"
    then show "\<exists>t. cf_move d U I s t" using cf_reachable_inv [OF assms] by (intro cf_progress [OF assms]) auto
  next
    fix f :: "nat \<Rightarrow> ('a, 'i) clint_fw"
    assume "f 0 = cf_boot u i \<and> fair_run (cf_step d U I) (cf_move d U I) (\<lambda>s. cf_at s = Ended) f"
    with inv run [of f] show "\<exists>n. cf_at (f n) = Ended" by simp
  next
    show "\<exists>f. f 0 = cf_boot u i \<and> fair_run (cf_step d U I) (cf_move d U I) (\<lambda>s. cf_at s = Ended) f"
      by (rule start) (auto intro: cf_progress [OF assms] cf_step.move)
  qed
qed

theorem clint_demo_ends_witness:
  "\<exists>f n. f 0 = cf_boot [] False \<and> fair_run (cf_step 1000000 uart_sink i2c_latch) (cf_move 1000000 uart_sink i2c_latch) (\<lambda>s. cf_at s = Ended) f \<and>
     cf_at (f n) = Ended"
proof -
  have "cf_fast 1000000" by (simp add: cf_fast_def)
  from clint_demo_ends [OF uart_sink_sends this, where I = i2c_latch and u = "[]" and i = False] show ?thesis by blast
qed

end
