(* ===== verification/Demo_System.thy ===== *)
theory Demo_System
  imports Firmware_Run "HOL-Library.Product_Lexorder"
begin

text \<open>
  The interrupt demo of \<open>fw/soc_irq_riscv\<close> without its data: an abstract system of the few things that
  matter for its time. A hart does each step within \<open>d\<close> picoseconds; the invariant bounds the time by
  the steps that are left, and the rank shows that they run out. \<open>Demo_Deadline\<close> shows that the
  program on the SoC refines it.
\<close>

section \<open>The abstract system\<close>

text \<open>
  The flags, the handler, the line as the PLIC sees it, whether the PLIC has yet to react to it, the
  line as the I2C controller drives it, MEIP, the CLINT and the time.
\<close>

record demo =
  d_main :: main_point
  d_timer :: bool
  d_ext :: bool
  d_trap :: trap_point
  d_seen :: bool
  d_due :: bool
  d_line :: bool
  d_meip :: bool
  d_clint :: clint
  d_now :: sc_time

definition demo_of :: "('i \<Rightarrow> bool) \<Rightarrow> ('u, 'i) soc_fw \<Rightarrow> demo" where
  "demo_of irq s = \<lparr>d_main = fw_main s, d_timer = (timer_done s \<noteq> 0), d_ext = (ext_done s \<noteq> 0), d_trap = fw_trap s,
     d_seen = irq_in (fw_plic s) ! 0, d_due = fw_lines s, d_line = irq (soc_i2c (fw_soc s)),
     d_meip = meip (fw_plic s), d_clint = fw_clint s, d_now = fw_now s\<rparr>"

definition d_claimed :: "demo \<Rightarrow> bool" where
  "d_claimed v \<longleftrightarrow> d_trap v \<in> {Claimed 1, Serviced 1}"

inductive demo_step :: "demo \<Rightarrow> demo \<Rightarrow> bool" where
  initialise: "d_main v = Booting \<Longrightarrow>
    demo_step v (v\<lparr>d_main := Waiting, d_meip := d_seen v, d_line := True,
      d_clint := (d_clint v)\<lparr>mtimecmp := armed (d_now v), cmp_event := Some Delta\<rparr>\<rparr>)"
| leave: "d_main v = Waiting \<Longrightarrow> d_trap v = No_trap \<Longrightarrow> d_timer v \<Longrightarrow> d_ext v \<Longrightarrow> demo_step v (v\<lparr>d_main := Parked\<rparr>)"
| take_timer: "d_main v \<noteq> Booting \<Longrightarrow> d_trap v = No_trap \<Longrightarrow> \<not> d_meip v \<Longrightarrow> \<not> d_timer v \<Longrightarrow> mtip (d_clint v) \<Longrightarrow>
    demo_step v (v\<lparr>d_timer := True\<rparr>)"
| take_external: "d_main v \<noteq> Booting \<Longrightarrow> d_trap v = No_trap \<Longrightarrow> d_meip v \<Longrightarrow>
    demo_step v (v\<lparr>d_trap := Claimed (if d_seen v then 1 else 0), d_meip := False\<rparr>)"
| service: "d_main v \<noteq> Booting \<Longrightarrow> d_trap v = Claimed cid \<Longrightarrow>
    demo_step v (v\<lparr>d_trap := Serviced cid, d_ext := (d_ext v \<or> cid = 1), d_line := (d_line v \<and> cid \<noteq> 1)\<rparr>)"
| complete: "d_main v \<noteq> Booting \<Longrightarrow> d_trap v = Serviced cid \<Longrightarrow> demo_step v (v\<lparr>d_trap := No_trap, d_meip := d_seen v\<rparr>)"
| drive: "d_seen v \<noteq> d_line v \<Longrightarrow> demo_step v (v\<lparr>d_seen := d_line v, d_due := True\<rparr>)"
| react: "d_due v \<Longrightarrow>
    demo_step v (v\<lparr>d_due := False, d_meip := (d_main v \<noteq> Booting \<and> d_seen v \<and> \<not> d_claimed v)\<rparr>)"
| wake: "cmp_event (d_clint v) = Some Delta \<or> cmp_event (d_clint v) = Some (Timed (d_now v)) \<Longrightarrow>
    demo_step v (v\<lparr>d_clint := timer_proc (d_now v) (d_clint v)\<rparr>)"
| pass: "d_now v < t \<Longrightarrow> d_seen v = d_line v \<Longrightarrow> \<not> d_due v \<Longrightarrow> cmp_event (d_clint v) \<noteq> Some Delta \<Longrightarrow>
    (\<And>w. cmp_event (d_clint v) = Some (Timed w) \<Longrightarrow> t \<le> w) \<Longrightarrow> demo_step v (v\<lparr>d_now := t\<rparr>)"

section \<open>The invariant of the abstract system\<close>

definition d_point :: "demo \<Rightarrow> main_point \<times> trap_point \<times> bool" where
  "d_point v = (d_main v, d_trap v, d_timer v)"

definition d_ready :: "demo \<Rightarrow> bool" where
  "d_ready v \<longleftrightarrow> d_main v = Booting \<or> d_trap v \<noteq> No_trap \<or> d_meip v \<or> \<not> d_timer v \<and> mtip (d_clint v) \<or>
     d_main v = Waiting \<and> d_timer v \<and> d_ext v"

text \<open>The source has been served and the PLIC knows it: no further external interrupt comes.\<close>

definition d_quiet :: "demo \<Rightarrow> bool" where
  "d_quiet v \<longleftrightarrow> d_ext v \<and> \<not> d_seen v \<and> \<not> d_due v"

definition d_flags :: "demo \<Rightarrow> bool" where
  "d_flags v \<longleftrightarrow>
     (if d_main v = Booting
      then \<not> d_timer v \<and> \<not> d_ext v \<and> d_trap v = No_trap \<and> mtimecmp (d_clint v) = 0 \<and> \<not> mtip (d_clint v) \<and> cmp_event (d_clint v) = None
      else d_line v = (\<not> d_ext v) \<and> d_trap v \<in> {No_trap, Claimed 0, Claimed 1, Serviced 0, Serviced 1} \<and>
        (\<not> d_ext v \<longrightarrow> d_trap v \<in> {No_trap, Claimed 1} \<and> (d_meip v \<longrightarrow> d_seen v)) \<and>
        (\<not> d_due v \<longrightarrow> d_meip v = (d_seen v \<and> \<not> d_claimed v)) \<and> (d_main v = Parked \<longrightarrow> d_timer v \<and> d_ext v))"

text \<open>The compare value is 100 microseconds after the initialisation, which is at most \<open>d\<close> after the start.\<close>

definition d_compare :: "nat \<Rightarrow> demo \<Rightarrow> bool" where
  "d_compare d v \<longleftrightarrow> (d_main v \<noteq> Booting \<longrightarrow> 100 \<le> unat (mtimecmp (d_clint v)) \<and>
     unat (mtimecmp (d_clint v)) * 1000000 \<le> d + 100000000 \<and>
     (mtip (d_clint v) \<longrightarrow> mtimecmp (d_clint v) \<le> now_mtime (d_now v)) \<and> (d_timer v \<longrightarrow> 100000000 \<le> unat (d_now v)))"

text \<open>
  The steps of the program that may still take time: the initialisation, entry into the handler and
  service of the source, the rest of one run of the handler, the timer's. Runs of the handler
  between the service and the PLIC's knowledge of it take no time.
\<close>

fun trap_left :: "trap_point \<Rightarrow> nat" where
  "trap_left No_trap = 0"
| "trap_left (Claimed cid) = 2"
| "trap_left (Serviced cid) = 1"

definition d_left :: "demo \<Rightarrow> nat" where
  "d_left v =
     (if d_main v = Booting then 6
      else (if \<not> d_ext v then (if d_trap v = No_trap then 4 else 3) else if \<not> d_quiet v then 2 else trap_left (d_trap v)) +
        (if d_timer v then 0 else 1))"

definition d_clock :: "nat \<Rightarrow> sc_time \<Rightarrow> demo \<Rightarrow> bool" where
  "d_clock d w v \<longleftrightarrow> (d_main v \<noteq> Parked \<longrightarrow>
     unat w \<le> unat (d_now v) \<and> unat w + d_left v * d \<le> 6 * d + 100000000 \<and>
     (d_ready v \<longrightarrow> unat (d_now v) \<le> unat w + d) \<and>
     (\<not> d_ready v \<longrightarrow> d_now v = w \<or> d_quiet v \<and> unat (d_now v) \<le> 5 * d + 100000000) \<and>
     (d_ext v \<and> \<not> d_quiet v \<longrightarrow> d_now v = w) \<and> (d_main v = Booting \<longrightarrow> w = 0))"

text \<open>Speed enough for the 5 ms the platform simulates.\<close>

definition demo_fast :: "nat \<Rightarrow> bool" where
  "demo_fast d \<longleftrightarrow> 7 * d + 100000000 \<le> 5000000000"

definition d_inv :: "nat \<Rightarrow> sc_time \<Rightarrow> demo \<Rightarrow> bool" where
  "d_inv d w v \<longleftrightarrow> clint_invar \<lparr>sim_now = d_now v, sim_clint = d_clint v\<rparr> \<and> d_flags v \<and> d_compare d v \<and> d_clock d w v"

lemma d_flags_step: "demo_step v v' \<Longrightarrow> d_flags v \<Longrightarrow> d_flags v'"
  by (induction rule: demo_step.induct) (auto simp: d_flags_def d_claimed_def split: if_splits)

lemma d_clint_step:
  assumes "demo_step v v'" and "clint_invar \<lparr>sim_now = d_now v, sim_clint = d_clint v\<rparr>"
  shows "clint_invar \<lparr>sim_now = d_now v', sim_clint = d_clint v'\<rparr>"
  using assms
proof (induction rule: demo_step.induct)
  case (wake v)
  then show ?case
    using clint_step_invar [OF clint_step.wake [of "\<lparr>sim_now = d_now v, sim_clint = d_clint v\<rparr>"]] by simp
next
  case (pass v t)
  then show ?case
    using clint_step_invar [OF clint_step.pass [of "\<lparr>sim_now = d_now v, sim_clint = d_clint v\<rparr>" t]] by simp
qed simp_all

lemma armed_bounds:
  assumes "unat now \<le> d" and "demo_fast d"
  shows "100 \<le> unat (armed now)" and "unat (armed now) * 1000000 \<le> d + 100000000"
proof -
  have "early (fw_boot () ()\<lparr>fw_now := now\<rparr>)" using assms by (simp add: early_def demo_fast_def)
  from armed_early [OF this] have a: "unat (armed now) = unat now div 1000000 + 100" by simp
  show "100 \<le> unat (armed now)" "unat (armed now) * 1000000 \<le> d + 100000000"
    using assms(1) div_times_less_eq_dividend [of "unat now" 1000000] by (simp_all add: a)
qed

lemma d_compare_step:
  assumes "demo_step v v'" and "d_inv d w v" and "demo_fast d"
  shows "d_compare d v'"
  using assms(1,2)
proof (induction rule: demo_step.induct)
  case (initialise v)
  then have "unat (d_now v) \<le> d" by (auto simp: d_inv_def d_clock_def d_ready_def)
  from armed_bounds [OF this assms(3)] initialise show ?case
    by (simp add: d_inv_def d_compare_def d_flags_def mtip_def)
next
  case (take_timer v)
  then have c: "100 \<le> unat (mtimecmp (d_clint v))" "mtimecmp (d_clint v) \<le> now_mtime (d_now v)"
    by (simp_all add: d_inv_def d_compare_def)
  then have "100 \<le> unat (d_now v) div 1000000" by (simp add: word_le_nat_alt unat_now_mtime)
  then have "100000000 \<le> unat (d_now v)" by simp
  with take_timer show ?case by (simp add: d_inv_def d_compare_def)
next
  case (pass v t)
  have "mtimecmp (d_clint v) \<le> now_mtime t" if "mtimecmp (d_clint v) \<le> now_mtime (d_now v)"
    using that now_mtime_mono [OF less_imp_le [OF pass(1)]] by (rule order_trans)
  with pass show ?case by (auto simp: d_inv_def d_compare_def word_less_nat_alt)
qed (auto simp: d_inv_def d_compare_def d_flags_def timer_proc_eq)


text \<open>
  A step of the program takes one of the steps that are left, or happens in no time; one of the
  environment leaves them as they are, or fewer.
\<close>

definition d_at_once :: "demo \<Rightarrow> bool" where
  "d_at_once v \<longleftrightarrow> d_main v \<noteq> Booting \<and> d_ext v \<and> \<not> d_quiet v"

lemma d_left_hart:
  assumes "demo_step v v'" and "d_flags v" and "d_point v' \<noteq> d_point v"
  shows "d_ready v \<and> d_now v' = d_now v \<and> (d_left v' < d_left v \<or> d_at_once v \<and> d_left v' = d_left v \<or> d_main v' = Parked)"
  using assms
proof (cases rule: demo_step.cases)
  case initialise
  then show ?thesis using assms(2) by (simp add: d_ready_def d_left_def d_flags_def)
next
  case leave
  then show ?thesis by (simp add: d_ready_def)
next
  case take_timer
  then show ?thesis by (simp add: d_ready_def d_left_def d_quiet_def)
next
  case take_external
  then show ?thesis using assms(2)
    by (cases "d_ext v") (auto simp: d_ready_def d_left_def d_quiet_def d_at_once_def d_flags_def d_claimed_def)
next
  case (service cid)
  then show ?thesis using assms(2)
    by (cases "d_ext v") (auto simp: d_ready_def d_left_def d_quiet_def d_at_once_def d_flags_def)
next
  case (complete cid)
  then have "d_ext v" using assms(2) by (auto simp: d_flags_def)
  with complete show ?thesis by (simp add: d_ready_def d_left_def d_quiet_def d_at_once_def)
qed (use assms(3) in \<open>simp_all add: d_point_def\<close>)

lemma d_left_env:
  assumes "demo_step v v'" and "d_flags v" and "d_point v' = d_point v"
  shows "d_main v' = d_main v \<and> d_ext v' = d_ext v \<and> d_left v' \<le> d_left v \<and> (d_quiet v \<longrightarrow> d_quiet v')"
  using assms(1)
proof (cases rule: demo_step.cases)
  case drive
  then show ?thesis using assms(2) by (auto simp: d_left_def d_flags_def d_quiet_def)
next
  case react
  then show ?thesis by (cases "d_trap v") (simp_all add: d_left_def d_quiet_def)
next
  case wake
  then show ?thesis by (simp add: d_left_def d_quiet_def)
next
  case (pass t)
  then show ?thesis by (simp add: d_left_def d_quiet_def)
qed (use assms(3) in \<open>simp_all add: d_point_def\<close>)

lemma d_ready_env:
  assumes "demo_step v v'" and "d_flags v" and "d_compare d v" and "d_point v' = d_point v" and "d_ready v"
  shows "d_ready v' \<or> d_at_once v"
  using assms(1)
proof (cases rule: demo_step.cases)
  case react
  then show ?thesis using assms(2,5)
    by (cases "d_ext v") (auto simp: d_ready_def d_flags_def d_quiet_def d_at_once_def d_claimed_def split: if_splits)
next
  case wake
  then show ?thesis using assms(2,3,5) by (auto simp: d_ready_def d_flags_def d_compare_def timer_proc_eq)
qed (use assms(4,5) in \<open>simp_all add: d_point_def d_ready_def\<close>)


lemma d_clock_act:
  assumes "demo_step v v'" and "d_inv d w v" and "d_now v' = d_now v"
  shows "d_clock d (if d_point v' = d_point v \<and> d_ready v then w else d_now v) v'"
proof -
  have fl: "d_flags v" and cmp: "d_compare d v" and clk: "d_clock d w v" using assms(2) by (simp_all add: d_inv_def)
  obtain k k' where k: "d_left v * d = k" "d_left v' * d = k'" by blast
  show ?thesis
  proof (cases "d_point v' = d_point v")
    case True
    note e = d_left_env [OF assms(1) fl True]
    have left: "k' \<le> k" using e unfolding k [symmetric] by simp
    show ?thesis
    proof (cases "d_ready v")
      case True
      with clk e left d_ready_env [OF assms(1) fl cmp \<open>d_point v' = d_point v\<close>] \<open>d_point v' = d_point v\<close> assms(3)
      show ?thesis by (auto simp: d_clock_def d_at_once_def k)
    next
      case False
      then have "d_main v = Waiting \<or> d_main v = Parked" "d_quiet v \<Longrightarrow> d_main v = Waiting \<Longrightarrow> d_left v = 1"
        by (cases "d_main v"; auto simp: d_ready_def d_left_def d_quiet_def)+
      moreover have "k = d" if "d_left v = 1" using that k by simp
      ultimately show ?thesis using False clk e left assms(3) by (auto simp: d_clock_def k)
    qed
  next
    case False
    note h = d_left_hart [OF assms(1) fl False]
    consider "d_main v' = Parked" | "d_left v' < d_left v" | "d_at_once v" "d_left v' = d_left v" using h by blast
    then show ?thesis
    proof cases
      case 2
      then have "k' + d \<le> k" using mult_le_mono1 [of "Suc (d_left v')" "d_left v" d] by (simp add: k)
      moreover have "d_main v \<noteq> Parked \<or> d_main v' = Parked" using assms(1) by (cases rule: demo_step.cases) auto
      moreover have "d_main v' \<noteq> Booting" using assms(1) False by (cases rule: demo_step.cases) (auto simp: d_point_def)
      ultimately show ?thesis using False clk h assms(3) by (auto simp: d_clock_def k)
    next
      case 3
      moreover have "d_main v \<noteq> Parked \<or> d_main v' = Parked" "d_main v' \<noteq> Booting"
        using assms(1) False by (cases rule: demo_step.cases; auto simp: d_point_def)+
      ultimately show ?thesis using False clk assms(3) by (auto simp: d_clock_def d_at_once_def)
    qed (simp add: d_clock_def)
  qed
qed

text \<open>While the program waits for the timer, its notification bounds the time.\<close>

lemma d_waiting:
  assumes "d_inv d w v" and "demo_fast d" and "d_main v \<noteq> Parked" and "\<not> d_ready v" and "d_seen v = d_line v" and "\<not> d_due v"
    and "cmp_event (d_clint v) \<noteq> Some Delta"
  obtains w' where "cmp_event (d_clint v) = Some (Timed w')" and "d_now v \<le> w'" and "unat w' \<le> d + 100000000" and "d_quiet v"
proof -
  have fl: "d_flags v" and cmp: "d_compare d v" using assms(1) by (simp_all add: d_inv_def)
  have m: "d_main v = Waiting" using assms(3,4) by (cases "d_main v") (auto simp: d_ready_def)
  have c: "100 \<le> unat (mtimecmp (d_clint v))" "unat (mtimecmp (d_clint v)) * 1000000 \<le> d + 100000000"
    using cmp m by (simp_all add: d_compare_def)
  then have g: "unat (mtimecmp (d_clint v) * kScaler) = unat (mtimecmp (d_clint v)) * 1000000"
    using assms(2) by (intro scaled_goal) (simp add: demo_fast_def)
  have "d_quiet v" "\<not> mtip (d_clint v)"
    using fl m assms(4-6) by (auto simp: d_flags_def d_ready_def d_quiet_def d_claimed_def)
  moreover have "mtimecmp (d_clint v) \<noteq> 0" using c(1) by auto
  ultimately show thesis
    using assms(1,7) c(2) g that
    by (auto simp: d_inv_def clint_invar_def Let_def split: option.splits notification.splits)
qed

lemma d_clock_elapse:
  assumes "demo_step v v'" and "d_inv d w v" and "demo_fast d" and "d_now v < d_now v'"
    and "d_ready v \<Longrightarrow> unat (d_now v') \<le> unat w + d"
  shows "d_clock d w v'"
  using assms(1)
proof (cases rule: demo_step.cases)
  case (pass t)
  have same: "d_left v' = d_left v" "d_ready v' = d_ready v" "d_quiet v' = d_quiet v"
    using pass by (simp_all add: d_left_def d_ready_def d_quiet_def)
  have fl: "d_flags v" and clk: "d_clock d w v" using assms(2) by (simp_all add: d_inv_def)
  show ?thesis
  proof (cases "d_main v = Parked")
    case False
    have q: "d_ext v \<Longrightarrow> d_main v \<noteq> Booting \<Longrightarrow> d_quiet v" using pass fl by (auto simp: d_flags_def d_quiet_def)
    have b: "d_main v = Booting \<Longrightarrow> \<not> d_ext v" using fl by (simp add: d_flags_def)
    show ?thesis
    proof (cases "d_ready v")
      case True
      then show ?thesis using clk False pass assms(4,5) same q b by (auto simp: d_clock_def word_less_nat_alt)
    next
      case nr: False
      obtain w' where "cmp_event (d_clint v) = Some (Timed w')" "unat w' \<le> d + 100000000" "d_quiet v"
        by (rule d_waiting [OF assms(2,3) False nr]) (use pass in auto)
      moreover from this pass(6) have "unat t \<le> unat w'" by (simp add: word_le_nat_alt)
      ultimately show ?thesis using clk False nr pass same q b by (auto simp: d_clock_def word_less_nat_alt)
    qed
  qed (use pass in \<open>simp add: d_clock_def\<close>)
qed (use assms(4) in simp_all)


lemma d_inv_step:
  assumes "demo_step v v'" and "d_inv d w v" and "demo_fast d"
    and "d_now v' = d_now v \<and> w' = (if d_point v' = d_point v \<and> d_ready v then w else d_now v) \<or>
      d_now v < d_now v' \<and> (d_ready v \<longrightarrow> unat (d_now v') \<le> unat w + d) \<and> w' = w"
  shows "d_inv d w' v'"
proof -
  have "d_clock d w' v'" using assms(4) d_clock_act [OF assms(1,2)] d_clock_elapse [OF assms(1-3)] by auto
  then show ?thesis
    using assms(2) d_flags_step [OF assms(1)] d_clint_step [OF assms(1)] d_compare_step [OF assms(1-3)]
    by (simp add: d_inv_def)
qed

lemma d_bound:
  assumes "d_inv d w v" and "d_main v \<noteq> Parked"
  shows "unat (d_now v) \<le> 7 * d + 100000000"
  using assms by (cases "d_ready v") (auto simp: d_inv_def d_clock_def)

section \<open>The rank\<close>

text \<open>
  The steps of the program that are left, then the time that is left, then what is due in the
  environment.
\<close>

definition d_pending :: "demo \<Rightarrow> nat" where
  "d_pending v = (if d_seen v = d_line v then 0 else 2) + of_bool (d_due v) +
     (case cmp_event (d_clint v) of None \<Rightarrow> 0 | Some (Timed w) \<Rightarrow> 1 | Some Delta \<Rightarrow> 2)"

definition d_rank :: "nat \<Rightarrow> demo \<Rightarrow> nat \<times> nat \<times> nat" where
  "d_rank d v = (if d_main v = Parked then 0 else Suc (d_left v), 7 * d + 100000000 - unat (d_now v), d_pending v)"

lemma d_wake_event:
  assumes "d_inv d w v" and "demo_fast d"
    and "cmp_event (d_clint v) = Some Delta \<or> cmp_event (d_clint v) = Some (Timed (d_now v))"
  shows "cmp_event (timer_proc (d_now v) (d_clint v)) = None \<or>
    cmp_event (d_clint v) = Some Delta \<and> (\<exists>w. cmp_event (timer_proc (d_now v) (d_clint v)) = Some (Timed w))"
proof -
  let ?c = "mtimecmp (d_clint v)"
  have "d_main v \<noteq> Booting" using assms(1,3) by (auto simp: d_inv_def d_flags_def)
  then have "unat ?c * 1000000 \<le> d + 100000000" using assms(1) by (simp add: d_inv_def d_compare_def)
  then have g: "unat (?c * kScaler) = unat ?c * 1000000"
    using assms(2) by (intro scaled_goal) (simp add: demo_fast_def)
  have "?c \<le> now_mtime (d_now v)" if "?c * kScaler \<le> d_now v"
    using that g by (simp add: word_le_nat_alt unat_now_mtime less_eq_div_iff_mult_less_eq)
  then show ?thesis
    using assms(1,3) by (auto simp: timer_proc_eq d_inv_def clint_invar_def Let_def not_less)
qed

lemma d_pending_env:
  assumes "demo_step v v'" and "d_inv d w v" and "demo_fast d" and "d_point v' = d_point v" and "d_now v' = d_now v"
  shows "d_pending v' < d_pending v"
  using assms(1)
proof (cases rule: demo_step.cases)
  case wake
  then show ?thesis using d_wake_event [OF assms(2,3) wake(2)] by (auto simp: d_pending_def)
qed (use assms(4,5) in \<open>simp_all add: d_point_def d_pending_def\<close>)

lemma d_pending_at_once:
  assumes "demo_step v v'" and "d_flags v" and "d_at_once v" and "d_left v' = d_left v" and "d_point v' \<noteq> d_point v"
  shows "d_main v' = Parked \<or> d_pending v' = d_pending v"
  using assms
  by (cases rule: demo_step.cases) (auto simp: d_pending_def d_flags_def d_at_once_def d_point_def)

lemma d_rank_step:
  assumes "demo_step v v'" and "d_inv d w v" and "d_inv d w' v'" and "demo_fast d" and "d_main v \<noteq> Parked"
    and "d_now v \<le> d_now v'"
  shows "d_rank d v' \<le> d_rank d v"
    and "d_point v' = d_point v \<or> d_seen v = d_line v \<and> \<not> d_due v \<Longrightarrow> d_rank d v' < d_rank d v"
proof -
  have fl: "d_flags v" using assms(2) by (simp add: d_inv_def)
  have "d_rank d v' < d_rank d v \<or> d_at_once v \<and> d_point v' \<noteq> d_point v \<and> d_rank d v' = d_rank d v"
  proof (cases "d_point v' = d_point v")
    case True
    note e = d_left_env [OF assms(1) fl True]
    show ?thesis
    proof (cases "d_now v' = d_now v")
      case now: True
      with e d_pending_env [OF assms(1,2,4) True now] assms(5) show ?thesis by (auto simp: d_rank_def)
    next
      case False
      then have "unat (d_now v) < unat (d_now v')" using assms(6) by (simp add: word_less_nat_alt [symmetric])
      with e assms(5) d_bound [OF assms(3)] show ?thesis by (auto simp: d_rank_def)
    qed
  next
    case False
    note h = d_left_hart [OF assms(1) fl False]
    then consider "d_left v' < d_left v \<or> d_main v' = Parked" | "d_at_once v" "d_left v' = d_left v" "d_main v' \<noteq> Parked" by blast
    then show ?thesis
    proof cases
      case 2
      with d_pending_at_once [OF assms(1) fl 2(1,2) False] h False assms(5) show ?thesis by (simp add: d_rank_def)
    qed (use assms(5) in \<open>auto simp: d_rank_def\<close>)
  qed
  moreover have "\<not> d_at_once v" if "d_seen v = d_line v" "\<not> d_due v"
    using that fl by (auto simp: d_at_once_def d_quiet_def d_flags_def)
  ultimately show "d_rank d v' \<le> d_rank d v"
    "d_point v' = d_point v \<or> d_seen v = d_line v \<and> \<not> d_due v \<Longrightarrow> d_rank d v' < d_rank d v"
    by auto
qed

end
