(* ===== verification/Demo_Deadline.thy ===== *)
theory Demo_Deadline
  imports Demo_System Runs
begin

text \<open>
  When the interrupt demo of \<open>fw/soc_irq_riscv\<close> ends. The system of \<open>Firmware\<close> gets a hart of bounded
  speed: while it has something to do, it does its next step within \<open>d\<close> picoseconds. The
  interleavings are those of \<open>Firmware_Run\<close>, each of which refines a step of \<open>Demo_System\<close>.
\<close>

section \<open>A hart of bounded speed\<close>

text \<open>What every step of the program changes, and no step of its environment.\<close>

definition fw_point :: "('u, 'i) soc_fw \<Rightarrow> main_point \<times> trap_point \<times> bool" where
  "fw_point s = (fw_main s, fw_trap s, timer_done s \<noteq> 0)"

text \<open>
  The second component of a state is the time since when the hart has had its current work: the last
  step of the program, or the step of the environment that ended a wait.
\<close>

inductive timed_step :: "nat \<Rightarrow> 'u transport \<Rightarrow> 'i transport \<Rightarrow> ('i \<Rightarrow> bool) \<Rightarrow>
    ('u, 'i) soc_fw \<times> sc_time \<Rightarrow> ('u, 'i) soc_fw \<times> sc_time \<Rightarrow> bool"
  for d U I irq where
  act: "fw_step U I irq s t \<Longrightarrow> fw_now t = fw_now s \<Longrightarrow>
    timed_step d U I irq (s, w) (t, if fw_point t = fw_point s \<and> fw_ready s then w else fw_now s)"
| elapse: "fw_step U I irq s t \<Longrightarrow> fw_now s < fw_now t \<Longrightarrow> (fw_ready s \<Longrightarrow> unat (fw_now t) \<le> unat w + d) \<Longrightarrow>
    timed_step d U I irq (s, w) (t, w)"

inductive timed_reachable :: "nat \<Rightarrow> 'u transport \<Rightarrow> 'i transport \<Rightarrow> ('i \<Rightarrow> bool) \<Rightarrow> 'u \<Rightarrow> 'i \<Rightarrow>
    ('u, 'i) soc_fw \<times> sc_time \<Rightarrow> bool"
  for d U I irq u i where
  boot: "timed_reachable d U I irq u i (fw_boot u i, 0)"
| step: "timed_reachable d U I irq u i x \<Longrightarrow> timed_step d U I irq x y \<Longrightarrow> timed_reachable d U I irq u i y"

section \<open>Refinement\<close>

lemma demo_of_sel [simp]:
  "d_main (demo_of irq s) = fw_main s" "d_timer (demo_of irq s) = (timer_done s \<noteq> 0)" "d_ext (demo_of irq s) = (ext_done s \<noteq> 0)"
  "d_trap (demo_of irq s) = fw_trap s" "d_due (demo_of irq s) = fw_lines s" "d_line (demo_of irq s) = irq (soc_i2c (fw_soc s))"
  "d_meip (demo_of irq s) = meip (fw_plic s)"
  "d_clint (demo_of irq s) = fw_clint s" "d_now (demo_of irq s) = fw_now s"
  by (simp_all add: demo_of_def)

lemma fresh_no_candidate: "plic_fresh c \<Longrightarrow> \<not> any_candidate c"
  by (auto simp: plic_fresh_def any_candidate_def source_ids_def candidate_def)

lemma running_plic:
  assumes "fw_running irq s"
  shows "plic_one (fw_plic s) (d_claimed (demo_of irq s)) (d_seen (demo_of irq s))"
  using assms by (auto simp: fw_running_def fw_plic_def d_claimed_def demo_of_def plic_one_def)

lemma line_seen:
  assumes "fw_inv out irq u s"
  shows "irq_in (fw_plic s) = soc_line irq s \<longleftrightarrow> d_seen (demo_of irq s) = d_line (demo_of irq s)"
proof -
  have "length (irq_in (fw_plic s)) = 1"
    using assms by (auto simp: fw_inv_def fw_booting_def plic_fresh_def fw_running_def plic_one_def fw_plic_def split: if_splits)
  then obtain l where "irq_in (fw_plic s) = [l]" by (auto simp: length_Suc_conv)
  then show ?thesis by (simp add: soc_line_def demo_of_def)
qed

lemma refine_initialise:
  assumes "uart_sends U out" and "i2c_interrupts I irq" and "fw_inv out irq u s"
    and "fw_main s = Booting" and "fw_main_init U I s = Inr t"
  shows "demo_step (demo_of irq s) (demo_of irq (t\<lparr>fw_main := Waiting\<rparr>))"
proof -
  have "plic_fresh (soc_plic (fw_soc s))" using assms(3,4) by (simp add: fw_inv_def fw_booting_def)
  from init_effect [OF assms(1,2) this] obtain u' c i where
    t: "fw_main_init U I s = Inr (s\<lparr>csr_mtvec := True, csr_mie := csr_mie s OR 0x880,
      csr_mstatus := csr_mstatus s OR 8, fw_soc := (fw_soc s)\<lparr>soc_uart := u', soc_plic := c, soc_clint :=
      (soc_clint (fw_soc s))\<lparr>mtimecmp := armed (fw_now s), cmp_event := Some Delta\<rparr>, soc_i2c := i\<rparr>\<rparr>)"
    and one: "plic_one c False (irq_in (soc_plic (fw_soc s)) ! 0)" and "coherent c" "irq i"
    by metis
  then have "meip c = irq_in (soc_plic (fw_soc s)) ! 0" "irq_in c ! 0 = irq_in (soc_plic (fw_soc s)) ! 0"
    using plic_one_candidate [OF one] by (simp_all add: coherent_def plic_one_def)
  then have "demo_of irq (t\<lparr>fw_main := Waiting\<rparr>) = (demo_of irq s)\<lparr>d_main := Waiting, d_meip := d_seen (demo_of irq s),
      d_line := True, d_clint := (d_clint (demo_of irq s))\<lparr>mtimecmp := armed (d_now (demo_of irq s)), cmp_event := Some Delta\<rparr>\<rparr>"
    using t assms(4,5) \<open>irq i\<close> by (auto simp: demo_of_def fw_plic_def fw_clint_def)
  with demo_step.initialise [of "demo_of irq s"] assms(4) show ?thesis by simp
qed

lemma refine_external:
  assumes "fw_inv out irq u s" and "hart_irq s = Some 11" and "trap_claim U I s = Inr (t, cid)"
  shows "demo_step (demo_of irq s) (demo_of irq (t\<lparr>fw_trap := Claimed cid\<rparr>))"
proof -
  note r = hart_irq_taken [OF assms(1,2)]
  let ?l = "d_seen (demo_of irq s)"
  have one: "plic_one (soc_plic (fw_soc s)) False ?l"
    using running_plic [of irq s] r by (simp add: d_claimed_def fw_plic_def)
  have "meip (fw_plic s)" using assms(2) r by (auto simp: hart_irq_cases fw_plic_def split: if_splits)
  obtain c where c: "trap_claim U I s = Inr (s\<lparr>fw_soc := (fw_soc s)\<lparr>soc_plic := c\<rparr>\<rparr>, if ?l \<and> \<not> False then 1 else 0)"
    "plic_one c (False \<or> ?l) ?l" "coherent c"
    by (rule claim_effect [OF one])
  then have "\<not> meip c" "irq_in c ! 0 = ?l" using plic_one_candidate [OF c(2)] by (simp_all add: coherent_def plic_one_def)
  then have "demo_of irq (t\<lparr>fw_trap := Claimed cid\<rparr>) = (demo_of irq s)\<lparr>d_trap := Claimed (if ?l then 1 else 0), d_meip := False\<rparr>"
    using c(1) assms(3) by (auto simp: demo_of_def fw_plic_def fw_clint_def)
  with demo_step.take_external [of "demo_of irq s"] r \<open>meip (fw_plic s)\<close> show ?thesis by simp
qed

lemma refine_complete:
  assumes "fw_inv out irq u s" and "fw_trap s = Serviced cid" and "trap_complete U I cid s = Inr t"
  shows "demo_step (demo_of irq s) (demo_of irq (t\<lparr>fw_trap := No_trap\<rparr>))"
proof -
  have r: "fw_main s \<noteq> Booting" "fw_running irq s" using fw_inv_in_trap [OF assms(1)] assms(2) by simp_all
  let ?l = "d_seen (demo_of irq s)"
  have one: "plic_one (soc_plic (fw_soc s)) (cid = 1) ?l"
    using running_plic [OF r(2)] assms(2) by (simp add: d_claimed_def fw_plic_def)
  obtain c where c: "trap_complete U I cid s = Inr (s\<lparr>fw_soc := (fw_soc s)\<lparr>soc_plic := c\<rparr>\<rparr>)"
    "plic_one c (cid = 1 \<and> cid \<noteq> 1) ?l" "coherent c"
    by (rule complete_effect [OF one])
  then have "meip c = ?l" "irq_in c ! 0 = ?l" using plic_one_candidate [OF c(2)] by (simp_all add: coherent_def plic_one_def)
  then have "demo_of irq (t\<lparr>fw_trap := No_trap\<rparr>) = (demo_of irq s)\<lparr>d_trap := No_trap, d_meip := ?l\<rparr>"
    using c(1) assms(3) by (auto simp: demo_of_def fw_plic_def fw_clint_def)
  with demo_step.complete [of "demo_of irq s" cid] r assms(2) show ?thesis by simp
qed

lemma refine_service:
  assumes "uart_sends U out" and "i2c_interrupts I irq" and "fw_inv out irq u s"
    and "fw_trap s = Claimed cid" and "trap_service U I cid s = Inr t"
  shows "demo_step (demo_of irq s) (demo_of irq (t\<lparr>fw_trap := Serviced cid\<rparr>))"
proof -
  have m: "fw_main s \<noteq> Booting" using fw_inv_in_trap [OF assms(3)] assms(4) by simp
  have "demo_of irq (t\<lparr>fw_trap := Serviced cid\<rparr>) = (demo_of irq s)\<lparr>d_trap := Serviced cid,
      d_ext := (d_ext (demo_of irq s) \<or> cid = 1), d_line := (d_line (demo_of irq s) \<and> cid \<noteq> 1)\<rparr>"
  proof (cases "cid = 1")
    case True
    obtain u i where "trap_service U I 1 s = Inr (s\<lparr>fw_soc := (fw_soc s)\<lparr>soc_uart := u, soc_i2c := i\<rparr>, ext_done := 1\<rparr>)" "\<not> irq i"
      by (rule service_effect [OF assms(1,2)])
    with True assms(5) show ?thesis by (auto simp: demo_of_def fw_plic_def fw_clint_def)
  next
    case False
    then show ?thesis using assms(5) by (auto simp: trap_service_def demo_of_def fw_plic_def fw_clint_def)
  qed
  with demo_step.service [of "demo_of irq s" cid] m assms(4) show ?thesis by simp
qed

lemma refine_timer:
  assumes "uart_sends U out" and "fw_inv out irq u s" and "hart_irq s = Some 7" and "trap_timer U I s = Inr t"
  shows "demo_step (demo_of irq s) (demo_of irq t)"
proof -
  note r = hart_irq_taken [OF assms(2,3)]
  have c: "\<not> meip (fw_plic s)" "timer_done s = 0" "mtip (fw_clint s)"
    using assms(3) r by (auto simp: hart_irq_cases fw_plic_def fw_clint_def split: if_splits)
  obtain u where "trap_timer U I s = Inr (s\<lparr>fw_soc := (fw_soc s)\<lparr>soc_uart := u\<rparr>, timer_done := 1, csr_mie := csr_mie s AND NOT 0x80\<rparr>)"
    by (rule timer_effect [OF assms(1)])
  then have "demo_of irq t = (demo_of irq s)\<lparr>d_timer := True\<rparr>"
    using assms(4) by (auto simp: demo_of_def fw_plic_def fw_clint_def)
  with demo_step.take_timer [of "demo_of irq s"] c r show ?thesis by simp
qed

lemma refine_react:
  assumes "fw_inv out irq u s" and "fw_lines s" and "on_sources (fw_plic s) = Inr c"
  shows "demo_step (demo_of irq s) (demo_of irq ((set_plic c s)\<lparr>fw_lines := False\<rparr>))"
proof -
  have "plic_wf (fw_plic s) \<and> any_candidate (fw_plic s) =
      (fw_main s \<noteq> Booting \<and> d_seen (demo_of irq s) \<and> \<not> d_claimed (demo_of irq s))"
  proof (cases "fw_main s = Booting")
    case True
    then have "plic_fresh (fw_plic s)" using assms(1) by (simp add: fw_inv_def fw_booting_def fw_plic_def)
    with True show ?thesis by (simp add: plic_fresh_wf fresh_no_candidate)
  next
    case False
    then have "fw_running irq s" using assms(1) by (simp add: fw_inv_def)
    from running_plic [OF this] False show ?thesis by (simp add: plic_one_wf plic_one_candidate)
  qed
  then have "c = plic_set_irq kCauseExternal (fw_main s \<noteq> Booting \<and> d_seen (demo_of irq s) \<and> \<not> d_claimed (demo_of irq s)) (fw_plic s)"
    using assms(3) by (simp add: on_sources_def update_meip_eq)
  then have "demo_of irq ((set_plic c s)\<lparr>fw_lines := False\<rparr>) = (demo_of irq s)\<lparr>d_due := False, d_meip :=
      (d_main (demo_of irq s) \<noteq> Booting \<and> d_seen (demo_of irq s) \<and> \<not> d_claimed (demo_of irq s))\<rparr>"
    by (simp add: demo_of_def fw_plic_def fw_clint_def set_plic_def)
  with demo_step.react [of "demo_of irq s"] assms(2) show ?thesis by simp
qed

lemma fw_step_refines:
  assumes "uart_sends U out" and "i2c_interrupts I irq" and "fw_inv out irq u s" and "fw_step U I irq s t"
  shows "demo_step (demo_of irq s) (demo_of irq t)"
  using assms(4)
proof (cases rule: fw_step.cases)
  case (leave t')
  obtain u' where "fw_main_end U I s = Inr (s\<lparr>fw_soc := (fw_soc s)\<lparr>soc_uart := u'\<rparr>\<rparr>)"
    unfolding fw_main_end_def by (rule puts_effect [OF assms(1)])
  then have "demo_of irq t = (demo_of irq s)\<lparr>d_main := Parked\<rparr>"
    using leave by (auto simp: demo_of_def fw_plic_def fw_clint_def)
  with demo_step.leave [of "demo_of irq s"] leave show ?thesis by simp
next
  case drive
  then have "demo_of irq t = (demo_of irq s)\<lparr>d_seen := d_line (demo_of irq s), d_due := True\<rparr>"
    by (simp add: demo_of_def fw_plic_def fw_clint_def set_plic_def soc_line_def meip_def)
  with demo_step.drive [of "demo_of irq s"] drive line_seen [OF assms(3)] show ?thesis by simp
next
  case wake
  then have "demo_of irq t = (demo_of irq s)\<lparr>d_clint := timer_proc (d_now (demo_of irq s)) (d_clint (demo_of irq s))\<rparr>"
    by (simp add: demo_of_def fw_plic_def fw_clint_def set_clint_def)
  with demo_step.wake [of "demo_of irq s"] wake show ?thesis by simp
next
  case (pass t')
  then have "demo_of irq t = (demo_of irq s)\<lparr>d_now := t'\<rparr>" by (simp add: demo_of_def fw_plic_def fw_clint_def)
  with demo_step.pass [of "demo_of irq s" t'] pass line_seen [OF assms(3)] show ?thesis by simp
qed (auto intro: refine_initialise [OF assms(1-3)] refine_external [OF assms(3)] refine_complete [OF assms(3)]
    refine_service [OF assms(1-3)] refine_timer [OF assms(1,3)] refine_react [OF assms(3)])


section \<open>Back to the program\<close>

fun timed_inv :: "nat \<Rightarrow> ('u \<Rightarrow> u8 list) \<Rightarrow> ('i \<Rightarrow> bool) \<Rightarrow> 'u \<Rightarrow> ('u, 'i) soc_fw \<times> sc_time \<Rightarrow> bool" where
  "timed_inv d out irq u (s, w) \<longleftrightarrow> fw_inv out irq u s \<and> d_inv d w (demo_of irq s)"

lemma point_refines: "fw_point s = d_point (demo_of irq s)"
  by (simp add: fw_point_def d_point_def)

lemma ready_refines:
  assumes "fw_inv out irq u s"
  shows "fw_ready s = d_ready (demo_of irq s)"
proof (cases "fw_main s = Booting \<or> fw_trap s \<noteq> No_trap")
  case False
  then have "fw_running irq s" using assms by (simp add: fw_inv_def)
  from hart_irq_cases [OF this] False show ?thesis
    by (auto simp: fw_ready_def d_ready_def fw_plic_def fw_clint_def)
qed (auto simp: fw_ready_def d_ready_def)

lemma timed_inv_boot: "timed_inv d out irq u (fw_boot u i, 0)"
  by (simp add: fw_inv_boot)
    (simp add: d_inv_def demo_of_def fw_boot_def custom_soc_new_def fw_clint_def clint_invar_def clint_new_def mtip_def
      d_flags_def d_compare_def d_clock_def d_ready_def d_left_def)

lemma timed_step_inv:
  assumes "uart_sends U out" and "i2c_interrupts I irq" and "demo_fast d" and "timed_inv d out irq u x" and "timed_step d U I irq x y"
  shows "timed_inv d out irq u y"
  using assms(5,4)
proof (cases rule: timed_step.cases)
  case (act s t w)
  then show ?thesis
    using assms(4) fw_step_inv [OF assms(1,2) act(3)] ready_refines [of out irq u s]
      d_inv_step [OF fw_step_refines [OF assms(1,2) _ act(3)] _ assms(3)]
    by (auto simp: point_refines [of _ irq])
next
  case (elapse s t w)
  then show ?thesis
    using assms(4) fw_step_inv [OF assms(1,2) elapse(3)] ready_refines [of out irq u s]
      d_inv_step [OF fw_step_refines [OF assms(1,2) _ elapse(3)] _ assms(3)]
    by (auto simp: point_refines [of _ irq])
qed

lemma timed_reachable_inv:
  assumes "uart_sends U out" and "i2c_interrupts I irq" and "demo_fast d" and "timed_reachable d U I irq u i x"
  shows "timed_inv d out irq u x"
  using assms(4)
proof (induction rule: timed_reachable.induct)
  case boot
  show ?case by (rule timed_inv_boot)
next
  case (step x y)
  then show ?case by (blast intro: timed_step_inv [OF assms(1-3)])
qed


section \<open>The end\<close>

text \<open>
  The moves: steps of the environment and of time, and those of the program while the line to the
  PLIC is at rest. The other steps are those of a core that runs on within the delta cycle in
  which the line changes.
\<close>

definition lines_settled :: "('i \<Rightarrow> bool) \<Rightarrow> ('u, 'i) soc_fw \<Rightarrow> bool" where
  "lines_settled irq s \<longleftrightarrow> irq_in (fw_plic s) = soc_line irq s \<and> \<not> fw_lines s"

definition demo_move :: "nat \<Rightarrow> 'u transport \<Rightarrow> 'i transport \<Rightarrow> ('i \<Rightarrow> bool) \<Rightarrow>
    ('u, 'i) soc_fw \<times> sc_time \<Rightarrow> ('u, 'i) soc_fw \<times> sc_time \<Rightarrow> bool" where
  "demo_move d U I irq x y \<longleftrightarrow> timed_step d U I irq x y \<and>
     (lines_settled irq (fst x) \<or> fw_point (fst y) = fw_point (fst x))"

definition demo_ended :: "('u, 'i) soc_fw \<times> sc_time \<Rightarrow> bool" where
  "demo_ended x \<longleftrightarrow> fw_main (fst x) = Parked"

lemma timed_rank:
  assumes "uart_sends U out" and "i2c_interrupts I irq" and "demo_fast d" and "timed_inv d out irq u x"
    and "\<not> demo_ended x" and "timed_step d U I irq x y"
  shows "d_rank d (demo_of irq (fst y)) \<le> d_rank d (demo_of irq (fst x))"
    and "demo_move d U I irq x y \<Longrightarrow> d_rank d (demo_of irq (fst y)) < d_rank d (demo_of irq (fst x))"
proof -
  obtain s w t w' where xy: "x = (s, w)" "y = (t, w')" by (cases x, cases y)
  have st: "fw_step U I irq s t" "fw_now s \<le> fw_now t" using assms(6) xy by (auto elim: timed_step.cases)
  have inv: "fw_inv out irq u s" "d_inv d w (demo_of irq s)" using assms(4) xy by simp_all
  have "d_inv d w' (demo_of irq t)" using timed_step_inv [OF assms(1-4,6)] xy by simp
  note rank = d_rank_step [OF fw_step_refines [OF assms(1,2) inv(1) st(1)] inv(2) this assms(3)]
  show "d_rank d (demo_of irq (fst y)) \<le> d_rank d (demo_of irq (fst x))"
    using rank(1) assms(5) st(2) xy by (simp add: demo_ended_def)
  show "d_rank d (demo_of irq (fst y)) < d_rank d (demo_of irq (fst x))" if "demo_move d U I irq x y"
    using that rank(2) assms(5) st(2) xy line_seen [OF inv(1)]
    by (auto simp: demo_ended_def demo_move_def lines_settled_def point_refines [of _ irq])
qed

interpretation demo_run: converging "timed_step d U I irq" "demo_move d U I irq"
  "\<lambda>x. uart_sends U out \<and> i2c_interrupts I irq \<and> demo_fast d \<and> timed_inv d out irq u x" demo_ended
  "\<lambda>x. d_rank d (demo_of irq (fst x))" for d U I irq out u
  by unfold_locales (auto intro: timed_step_inv timed_rank simp: demo_move_def)

lemma demo_can_move:
  assumes "uart_sends U out" and "i2c_interrupts I irq" and "demo_fast d" and "timed_inv d out irq u x" and "\<not> demo_ended x"
  shows "\<exists>y. demo_move d U I irq x y"
proof -
  obtain s w where x: "x = (s, w)" by (cases x)
  have inv: "fw_inv out irq u s" "d_inv d w (demo_of irq s)" using assms(4) x by simp_all
  have env: ?thesis if "fw_step U I irq s t" "fw_now t = fw_now s" "lines_settled irq s \<or> fw_point t = fw_point s" for t
    using timed_step.act [OF that(1,2), of d w] that(3) unfolding x demo_move_def by auto
  consider "irq_in (fw_plic s) \<noteq> soc_line irq s" | "fw_lines s" | "lines_settled irq s" "fw_ready s"
    | "lines_settled irq s" "\<not> fw_ready s" by (auto simp: lines_settled_def)
  then show ?thesis
  proof cases
    case 1
    from fw_step.drive [OF this, of U I] show ?thesis by (rule env) (simp_all add: set_plic_def fw_point_def)
  next
    case 2
    obtain c where "on_sources (fw_plic s) = Inr c" by (rule plic_reacts [OF inv(1)])
    from fw_step.react [OF 2 this, of U I irq] show ?thesis by (rule env) (simp_all add: set_plic_def fw_point_def)
  next
    case 3
    then show ?thesis using hart_can_step [OF assms(1,2) inv(1)] env by blast
  next
    case 4
    have rest: "\<not> d_ready (demo_of irq s)" "d_seen (demo_of irq s) = d_line (demo_of irq s)" "\<not> d_due (demo_of irq s)"
      "d_main (demo_of irq s) \<noteq> Parked"
      using 4 ready_refines [OF inv(1)] line_seen [OF inv(1)] assms(5) x by (simp_all add: lines_settled_def demo_ended_def)
    have wake: ?thesis if "cmp_event (fw_clint s) = Some Delta \<or> cmp_event (fw_clint s) = Some (Timed (fw_now s))"
      using fw_step.wake [OF that, of U I irq] by (rule env) (use 4 in \<open>simp_all add: set_clint_def\<close>)
    show ?thesis
    proof (cases "cmp_event (fw_clint s) = Some Delta")
      case False
      obtain w' where w': "cmp_event (fw_clint s) = Some (Timed w')" "fw_now s \<le> w'"
        using d_waiting [OF inv(2) assms(3) rest(4,1,2,3)] False by auto
      show ?thesis
      proof (cases "fw_now s = w'")
        case False
        then have "fw_step U I irq s (s\<lparr>fw_now := w'\<rparr>)"
          using w' 4(1) by (intro fw_step.pass) (auto simp: lines_settled_def)
        from timed_step.elapse [OF this, of w d] False w'(2) 4 show ?thesis unfolding x demo_move_def by force
      qed (use w' wake in simp)
    qed (use wake in simp)
  qed
qed

section \<open>Properties\<close>

text \<open>
  C5: the interrupt demo keeps its time. On a hart that executes a step of the program at least every
  \<open>d\<close> picoseconds, where \<open>7 d\<close> and 100 microseconds are at most the 5 ms the platform simulates, with a
  UART that sends what it is given and an I2C controller whose line behaves as the firmware
  expects, in every interleaving the program is at its end once \<open>7 d\<close> and 100 microseconds have
  passed, although the external interrupt may be taken again and again meanwhile; it is not there
  before 100 microseconds, and it has then sent all its messages.
\<close>

theorem soc_demo_deadline:
  assumes "uart_sends U out" and "i2c_interrupts I irq" and "demo_fast d" and "timed_reachable d U I irq u i (s, w)"
  shows "(7 * d + 100000000 < unat (fw_now s) \<longrightarrow> fw_main s = Parked) \<and>
    (fw_main s = Parked \<longrightarrow> 100000000 \<le> unat (fw_now s) \<and>
      (\<exists>b n. out (soc_uart (fw_soc s)) = out u @ ascii (concat (line ''Hello from custom SoC'' # b @
          line ''done'' # replicate n (line ''EXT IRQ''))) \<and>
        set b \<subseteq> {line ''TIMER'', line ''EXT IRQ''} \<and> count_list b (line ''TIMER'') = 1 \<and> line ''EXT IRQ'' \<in> set b))"
proof -
  have inv: "fw_inv out irq u s" "d_inv d w (demo_of irq s)" using timed_reachable_inv [OF assms] by simp_all
  show ?thesis
  proof (intro conjI impI)
    assume "7 * d + 100000000 < unat (fw_now s)"
    then show "fw_main s = Parked" using d_bound [OF inv(2)] by fastforce
  next
    assume p: "fw_main s = Parked"
    then show "100000000 \<le> unat (fw_now s)" using inv(2) by (simp add: d_inv_def d_flags_def d_compare_def)
    show "\<exists>b n. out (soc_uart (fw_soc s)) = out u @ ascii (concat (line ''Hello from custom SoC'' # b @
          line ''done'' # replicate n (line ''EXT IRQ''))) \<and>
        set b \<subseteq> {line ''TIMER'', line ''EXT IRQ''} \<and> count_list b (line ''TIMER'') = 1 \<and> line ''EXT IRQ'' \<in> set b"
      by (rule parked_log [OF inv(1) p]) (auto simp: demo_body_def)
  qed
qed

lemma timed_end_reachable:
  assumes "uart_sends U out" and "i2c_interrupts I irq" and "demo_fast d"
  obtains s w where "timed_reachable d U I irq u i (s, w)" and "fw_main s = Parked"
proof -
  have inv: "uart_sends U out \<and> i2c_interrupts I irq \<and> demo_fast d \<and> timed_inv d out irq u (fw_boot u i, 0)"
    by (simp only: assms timed_inv_boot simp_thms)
  obtain y where y: "(timed_step d U I irq)\<^sup>*\<^sup>* (fw_boot u i, 0) y" "demo_ended y"
    using demo_run.end_attained [OF _ _ inv] demo_can_move [OF assms] unfolding demo_move_def by blast
  from y(1) have "timed_reachable d U I irq u i y"
    by (induction rule: rtranclp_induct) (auto intro: timed_reachable.intros)
  with y(2) that [of "fst y" "snd y"] show thesis by (simp add: demo_ended_def)
qed

theorem soc_demo_deadline_witness:
  "\<exists>s w. timed_reachable 1000000 uart_sink i2c_latch id [] False (s, w) \<and> fw_main s = Parked \<and> 100000000 \<le> unat (fw_now s)"
proof -
  have fast: "demo_fast 1000000" by (simp add: demo_fast_def)
  obtain s w where "timed_reachable 1000000 uart_sink i2c_latch id [] False (s, w)" "fw_main s = Parked"
    by (rule timed_end_reachable [OF uart_sink_sends i2c_latch_interrupts fast])
  with soc_demo_deadline [OF uart_sink_sends i2c_latch_interrupts fast this(1)] show ?thesis by blast
qed

text \<open>
  C6: the interrupt demo ends. In the same setting no reachable state before the end is stuck, and
  every fair run from reset reaches the end, and fair runs exist. A run is fair if the core does not
  run on for ever within one delta cycle in which the interrupt line changes.
\<close>

theorem soc_demo_ends:
  fixes i :: 'i
  assumes "uart_sends U out" and "i2c_interrupts I irq" and "demo_fast d"
  shows "(\<forall>x. timed_reachable d U I irq u i x \<and> \<not> demo_ended x \<longrightarrow> (\<exists>y. demo_move d U I irq x y)) \<and>
    (\<forall>f. f 0 = (fw_boot u i, 0) \<and> fair_run (timed_step d U I irq) (demo_move d U I irq) demo_ended f \<longrightarrow> (\<exists>n. demo_ended (f n))) \<and>
    (\<exists>f. f 0 = (fw_boot u i, 0) \<and> fair_run (timed_step d U I irq) (demo_move d U I irq) demo_ended f)"
proof -
  have inv: "uart_sends U out \<and> i2c_interrupts I irq \<and> demo_fast d \<and> timed_inv d out irq u (fw_boot u i, 0)"
    by (simp only: assms timed_inv_boot simp_thms)
  show ?thesis
  proof (intro conjI allI impI)
    fix x :: "('a, 'i) soc_fw \<times> sc_time"
    assume "timed_reachable d U I irq u i x \<and> \<not> demo_ended x"
    then show "\<exists>y. demo_move d U I irq x y" using timed_reachable_inv [OF assms] demo_can_move [OF assms] by blast
  next
    fix f :: "nat \<Rightarrow> ('a, 'i) soc_fw \<times> sc_time"
    assume "f 0 = (fw_boot u i, 0) \<and> fair_run (timed_step d U I irq) (demo_move d U I irq) demo_ended f"
    with inv demo_run.run_ends [of U out I irq d u f] show "\<exists>n. demo_ended (f n)" by metis
  next
    show "\<exists>f. f 0 = (fw_boot u i, 0) \<and> fair_run (timed_step d U I irq) (demo_move d U I irq) demo_ended f"
      by (rule demo_run.run_exists [OF _ _ inv]) (blast intro: demo_can_move, simp add: demo_move_def)
  qed
qed

theorem soc_demo_ends_witness:
  "\<exists>f n. f 0 = (fw_boot [] False, 0) \<and>
     fair_run (timed_step 1000000 uart_sink i2c_latch id) (demo_move 1000000 uart_sink i2c_latch id) demo_ended f \<and> demo_ended (f n)"
proof -
  have "demo_fast 1000000" by (simp add: demo_fast_def)
  from soc_demo_ends [OF uart_sink_sends i2c_latch_interrupts this, where u = "[]" and i = False] show ?thesis by blast
qed

end
