(* ===== verification/Sc_Fifo.thy ===== *)
theory Sc_Fifo
  imports Systemc
begin

text \<open>
  The channel \<open>sc_fifo\<close> as the SPI controller uses it. Within a delta cycle a reader sees only the
  values present at its start, and a writer can use only the slots free at its start: values
  written become readable, and slots read become free, in the update phase. The locale
  \<open>delta_fifo\<close> is the contract a client relies on.
\<close>

section \<open>The channel\<close>

text \<open>
  \<open>readable\<close> are the values present at the last update and not read since, \<open>num_read\<close> the number
  read since, \<open>written\<close> the values written since.
\<close>

record 'a sc_fifo =
  fifo_size :: nat
  readable :: "'a list"
  num_read :: nat
  written :: "'a list"

definition fifo_new :: "nat \<Rightarrow> 'a sc_fifo" where
  "fifo_new n = \<lparr>fifo_size = n, readable = [], num_read = 0, written = []\<rparr>"

definition num_available :: "'a sc_fifo \<Rightarrow> nat" where
  "num_available q = length (readable q)"

definition num_free :: "'a sc_fifo \<Rightarrow> nat" where
  "num_free q = fifo_size q - (length (readable q) + num_read q) - length (written q)"

definition nb_read :: "'a sc_fifo \<Rightarrow> ('a \<times> 'a sc_fifo) option" where
  "nb_read q = (case readable q of [] \<Rightarrow> None
     | x # xs \<Rightarrow> Some (x, q\<lparr>readable := xs, num_read := Suc (num_read q)\<rparr>))"

definition nb_write :: "'a \<Rightarrow> 'a sc_fifo \<Rightarrow> 'a sc_fifo option" where
  "nb_write x q = (if num_free q = 0 then None else Some (q\<lparr>written := written q @ [x]\<rparr>))"

text \<open>The blocking calls, where the caller does not wait.\<close>

definition fifo_read :: "'a sc_fifo \<Rightarrow> ('a \<times> 'a sc_fifo) res" where
  "fifo_read q = (case nb_read q of None \<Rightarrow> Inl Would_wait | Some r \<Rightarrow> Inr r)"

definition fifo_write :: "'a \<Rightarrow> 'a sc_fifo \<Rightarrow> 'a sc_fifo res" where
  "fifo_write x q = (case nb_write x q of None \<Rightarrow> Inl Would_wait | Some q' \<Rightarrow> Inr q')"

text \<open>The update phase.\<close>

definition fifo_update :: "'a sc_fifo \<Rightarrow> 'a sc_fifo" where
  "fifo_update q = q\<lparr>readable := readable q @ written q, num_read := 0, written := []\<rparr>"

text \<open>What is in the channel, the slots not usable until the next update, and the invariant.\<close>

definition contents :: "'a sc_fifo \<Rightarrow> 'a list" where
  "contents q = readable q @ written q"

definition fifo_invar :: "nat \<Rightarrow> 'a sc_fifo \<Rightarrow> bool" where
  "fifo_invar n q \<longleftrightarrow> fifo_size q = n \<and> length (readable q) + num_read q + length (written q) \<le> n"

section \<open>The contract\<close>

text \<open>
  \<open>avail\<close> and \<open>free\<close> are what a reader and a writer may use in this delta cycle. A read takes
  the oldest value, a write appends one, the update keeps the values and makes them and all
  other slots usable.
\<close>

datatype 'a fifo_op = Put 'a | Get | Update

locale delta_fifo =
  fixes avail :: "'q \<Rightarrow> nat"
    and free :: "'q \<Rightarrow> nat"
    and get :: "'q \<Rightarrow> ('a \<times> 'q) option"
    and put :: "'a \<Rightarrow> 'q \<Rightarrow> 'q option"
    and upd :: "'q \<Rightarrow> 'q"
    and vals :: "'q \<Rightarrow> 'a list"
    and invar :: "'q \<Rightarrow> bool"
    and cap :: nat
  assumes bounds: "invar q \<Longrightarrow> avail q \<le> length (vals q) \<and> free q + length (vals q) \<le> cap"
    and get_None: "invar q \<Longrightarrow> get q = None \<longleftrightarrow> avail q = 0"
    and get_Some: "invar q \<Longrightarrow> get q = Some (x, q') \<Longrightarrow>
      invar q' \<and> vals q = x # vals q' \<and> free q' = free q \<and> avail q = Suc (avail q')"
    and put_None: "invar q \<Longrightarrow> put x q = None \<longleftrightarrow> free q = 0"
    and put_Some: "invar q \<Longrightarrow> put x q = Some q' \<Longrightarrow>
      invar q' \<and> vals q' = vals q @ [x] \<and> avail q' = avail q \<and> free q = Suc (free q')"
    and update: "invar q \<Longrightarrow> invar (upd q) \<and> vals (upd q) = vals q \<and>
      avail (upd q) = length (vals q) \<and> free (upd q) + length (vals q) = cap"
begin

text \<open>A run of operations: the final channel, the values accepted and the values delivered.\<close>

fun run :: "'a fifo_op list \<Rightarrow> 'q \<Rightarrow> 'q \<times> 'a list \<times> 'a list" where
  "run [] q = (q, [], [])"
| "run (Put x # ops) q = (case put x q of None \<Rightarrow> run ops q
     | Some q' \<Rightarrow> (case run ops q' of (r, ins, outs) \<Rightarrow> (r, x # ins, outs)))"
| "run (Get # ops) q = (case get q of None \<Rightarrow> run ops q
     | Some (x, q') \<Rightarrow> (case run ops q' of (r, ins, outs) \<Rightarrow> (r, ins, x # outs)))"
| "run (Update # ops) q = run ops (upd q)"

text \<open>No value is lost, invented or reordered, and the capacity is kept.\<close>

lemma run_in_order:
  assumes "invar q" and "run ops q = (r, ins, outs)"
  shows "vals q @ ins = outs @ vals r \<and> invar r \<and> length (vals r) \<le> cap"
  using assms
proof (induction ops q arbitrary: r ins outs rule: run.induct)
  case (1 q)
  then show ?case using bounds [of q] by auto
next
  case (2 x ops q)
  show ?case
  proof (cases "put x q")
    case None
    with 2 show ?thesis by simp
  next
    case (Some q')
    then obtain ins' where "run ops q' = (r, ins', outs)" "ins = x # ins'"
      using 2(4) by (auto split: prod.splits)
    with 2(2) [OF Some, of r ins' outs] put_Some [OF 2(3) Some] show ?thesis by simp
  qed
next
  case (3 ops q)
  then show ?case by (cases "get q") (auto dest: get_Some split: prod.splits)
next
  case (4 ops q)
  then show ?case using update [of q] by auto
qed

end

section \<open>The channel has the contract\<close>

lemma fifo_new_invar [simp]: "fifo_invar n (fifo_new n)"
  by (simp add: fifo_invar_def fifo_new_def)

interpretation chan: delta_fifo num_available num_free nb_read nb_write fifo_update contents
  "fifo_invar n" n
  by unfold_locales
    (auto simp: fifo_invar_def num_available_def num_free_def nb_read_def nb_write_def
      fifo_update_def contents_def split: list.splits if_splits)

section \<open>Draining\<close>

text \<open>The loop \<open>while (fifo.nb_read(x));\<close>.\<close>

function drain :: "'a sc_fifo \<Rightarrow> 'a sc_fifo" where
  "drain q = (case nb_read q of None \<Rightarrow> q | Some (x, q') \<Rightarrow> drain q')"
  by pat_completeness auto
termination
  by (relation "measure num_available")
    (auto simp: nb_read_def num_available_def split: list.splits)

declare drain.simps [simp del]

lemma drain_eq:
  "drain q = q\<lparr>readable := [], num_read := num_read q + length (readable q)\<rparr>"
proof (induction q rule: drain.induct)
  case (1 q)
  then show ?case
    by (cases "readable q") (simp_all add: drain.simps [of q] nb_read_def)
qed

lemma fifo_read_ok:
  "num_available q \<noteq> 0 \<Longrightarrow> fifo_read q =
     Inr (hd (readable q), q\<lparr>readable := tl (readable q), num_read := Suc (num_read q)\<rparr>)"
  by (cases "readable q") (simp_all add: fifo_read_def nb_read_def num_available_def)

lemma fifo_write_ok:
  "num_free q \<noteq> 0 \<Longrightarrow> fifo_write x q = Inr (q\<lparr>written := written q @ [x]\<rparr>)"
  by (simp add: fifo_write_def nb_write_def)

end
