(* ===== verification/Spi.thy ===== *)
theory Spi
  imports Sc_Fifo
begin

text \<open>
  \<open>components/spi_tlm/spi.h, spi.cpp\<close>: the SPI controller after the PL022, and \<open>DummyPeripheral\<close>
  of its test \<open>main.cpp\<close>. The state holds the registers, the two channels, the three events, the
  control point of the thread \<open>transmit\<close>, and which processes are runnable in the current
  evaluation phase; the peripheral behind \<open>to_peri_socket\<close> is a parameter, any blocking transport
  that returns without waiting, with its own state. The relation \<open>spi_step\<close> interleaves bus
  accesses, the four processes, delta cycles and the passing of time.
\<close>

section \<open>The module\<close>

definition FIFO_SIZE :: nat where "FIFO_SIZE = 8"

text \<open>
  The three \<open>wait\<close> calls of the thread \<open>transmit\<close>: for the event, for the time of a frame (with the
  locals \<open>data_buffer\<close>, \<open>mask\<close> and \<open>delay\<close>), and for a delta cycle.
\<close>

datatype transmit_wait = Wait_event | Wait_shift u16 u16 sc_time | Wait_zero

text \<open>The waits that end with the delta cycle.\<close>

fun zero_wait :: "transmit_wait \<Rightarrow> bool" where
  "zero_wait Wait_event = False"
| "zero_wait (Wait_shift _ _ delay) = (delay = 0)"
| "zero_wait Wait_zero = True"

record 'p spi =
  reg_cr0 :: u16
  reg_cr1 :: u16
  reg_dr :: u16
  reg_sr :: u16
  reg_cpsr :: u16
  reg_imsc :: u16
  reg_ris :: u16
  reg_mis :: u16
  reg_icr :: u16
  reg_dmacr :: u16
  rx_fifo :: "u16 sc_fifo"
  tx_fifo :: "u16 sc_fifo"
  transmission_event :: sc_event
  possible_intr_event :: sc_event
  status_event :: sc_event
  is_transmitting :: bool
  intr :: bool
  reset_in :: bool
  transmit_at :: transmit_wait
  run_transmit :: bool
  run_intr :: bool
  run_status :: bool
  run_reset :: bool
  peri_state :: 'p

section \<open>Processes\<close>

definition update_intr :: "'p spi \<Rightarrow> 'p spi" where
  "update_intr s =
     (let msk = reg_imsc s AND 0x0F;
          ris = (if num_available (tx_fifo s) \<le> FIFO_SIZE div 2 then reg_ris s OR 0x08
                 else reg_ris s AND NOT 0x08);
          ris = (if FIFO_SIZE div 2 \<le> num_available (rx_fifo s) then ris OR 0x04
                 else ris AND NOT 0x04);
          mis = ris AND msk
      in s\<lparr>reg_ris := ris, reg_mis := mis, intr := (mis AND 0xf \<noteq> 0)\<rparr>)"

definition update_status_reg :: "'p spi \<Rightarrow> 'p spi" where
  "update_status_reg s =
     (let sr = reg_sr s;
          sr = (if num_available (rx_fifo s) = FIFO_SIZE then sr OR 0x8 else sr AND NOT 0x8);
          sr = (if num_available (rx_fifo s) = 0 then sr AND NOT 0x4 else sr OR 0x4);
          sr = (if num_free (tx_fifo s) = 0 then sr AND NOT 0x2 else sr OR 0x2);
          sr = (if num_free (tx_fifo s) = FIFO_SIZE then sr OR 0x1 else sr AND NOT 0x1);
          sr = (if is_transmitting s \<or> num_free (tx_fifo s) \<noteq> 8 then sr OR 0x10
                else sr AND NOT 0x10)
      in s\<lparr>reg_sr := sr\<rparr>)"

definition handle_reset :: "'p spi \<Rightarrow> 'p spi" where
  "handle_reset s =
     update_status_reg (s\<lparr>reg_cr0 := 0, reg_cr1 := 0, reg_sr := 0x03, reg_cpsr := 0, reg_imsc := 0,
       reg_ris := 0x8, reg_mis := 0, reg_icr := 0, reg_dmacr := 0,
       rx_fifo := drain (rx_fifo s), tx_fifo := drain (tx_fifo s), is_transmitting := False,
       possible_intr_event := notify_delta (possible_intr_event s)\<rparr>)"

text \<open>The word size and its mask, as computed by \<open>transmit\<close> and by a read of the data register.\<close>

definition bits_per_frame :: "'p spi \<Rightarrow> nat" where
  "bits_per_frame s = unat (reg_cr0 s AND 0xF) + 1"

definition frame_mask :: "nat \<Rightarrow> u16" where
  "frame_mask n = (if n = 16 then 0xFFFF else push_bit n 1 - 1)"

text \<open>
  The time of a frame in picoseconds. The sources divide doubles and convert to \<open>sc_time\<close>, which
  rounds to the nearest picosecond. The exact quotient is a multiple of 10 ns below 11 ms, so the
  error of the three double operations is far below half a picosecond and the rounding gives
  the exact value.
\<close>

definition transmission_time :: "'p spi \<Rightarrow> sc_time" where
  "transmission_time s =
     (let cpsr = (if reg_cpsr s > 0 then ucast (reg_cpsr s) else 2) :: u32;
          scr = ucast (drop_bit 8 (reg_cr0 s) AND 0xFF) :: u32
      in of_nat (bits_per_frame s) * (ucast (cpsr * (1 + scr)) * 10000))"

text \<open>
  The exchange with the peripheral: a write of the two bytes of \<open>data_buffer\<close>, which the peripheral
  overwrites with its answer; the response status is not looked at.
\<close>

definition frame_payload :: "u16 \<Rightarrow> payload" where
  "frame_payload v = empty_payload\<lparr>command := TLM_WRITE_COMMAND, data_ptr := Some (le_bytes 2 v),
     data_length := 2\<rparr>"

definition exchange :: "'p transport \<Rightarrow> u16 \<Rightarrow> sc_time \<Rightarrow> 'p \<Rightarrow> ('p \<times> u16 \<times> sc_time) res" where
  "exchange peri v delay st =
     bindR (peri st (frame_payload v) delay) (\<lambda>(st', q, delay').
     bindR (ptr_load q 2) (\<lambda>bs. Inr (st', le_word bs, delay')))"

text \<open>From the head of the loop of \<open>transmit\<close> to its next \<open>wait\<close>.\<close>

definition transmit_loop :: "'p transport \<Rightarrow> 'p spi \<Rightarrow> 'p spi res" where
  "transmit_loop peri s =
     (if num_available (tx_fifo s) = 0 \<or> reg_cr1 s AND 0x2 = 0
      then Inr (s\<lparr>is_transmitting := False, status_event := notify_delta (status_event s),
                 transmit_at := Wait_event\<rparr>)
      else let s = s\<lparr>is_transmitting := True, status_event := notify_delta (status_event s)\<rparr>
           in bindR (fifo_read (tx_fifo s)) (\<lambda>(data_buffer, q).
              bindR (exchange peri data_buffer (transmission_time s) (peri_state s))
                (\<lambda>(st, data_buffer, delay).
                   Inr (s\<lparr>tx_fifo := q, peri_state := st,
                          transmit_at := Wait_shift data_buffer (frame_mask (bits_per_frame s)) delay\<rparr>))))"

text \<open>From the return of a \<open>wait\<close> to the next one.\<close>

definition transmit_resume :: "'p transport \<Rightarrow> 'p spi \<Rightarrow> 'p spi res" where
  "transmit_resume peri s =
     (let s = s\<lparr>run_transmit := False\<rparr>
      in case transmit_at s of
           Wait_event \<Rightarrow> transmit_loop peri s
         | Wait_shift data_buffer msk delay \<Rightarrow>
             if num_free (rx_fifo s) = 0
             then Inr (s\<lparr>reg_ris := reg_ris s OR 0x1, transmit_at := Wait_zero\<rparr>)
             else bindR (fifo_write (data_buffer AND msk) (rx_fifo s)) (\<lambda>q.
                  Inr (s\<lparr>rx_fifo := q, transmit_at := Wait_zero\<rparr>))
         | Wait_zero \<Rightarrow>
             transmit_loop peri (s\<lparr>status_event := notify_delta (status_event s),
               possible_intr_event := notify_delta (possible_intr_event s)\<rparr>))"

section \<open>Registers\<close>

definition write_reg :: "u8 \<Rightarrow> u16 \<Rightarrow> 'p spi \<Rightarrow> ('p spi \<times> bool) res" where
  "write_reg offset v s =
     (if offset = 0x00 then Inr (s\<lparr>reg_cr0 := v\<rparr>, True)
      else if offset = 0x04
      then let s = s\<lparr>reg_cr1 := v AND 0xf\<rparr>
           in Inr (if reg_cr1 s AND 0x2 \<noteq> 0
                   then s\<lparr>transmission_event := notify_delta (transmission_event s)\<rparr> else s, True)
      else if offset = 0x08
      then let s = s\<lparr>reg_dr := v\<rparr>
           in if num_free (tx_fifo s) \<noteq> 0
              then bindR (fifo_write v (tx_fifo s)) (\<lambda>q.
                   Inr (update_status_reg (s\<lparr>tx_fifo := q,
                     possible_intr_event := notify_delta (possible_intr_event s),
                     transmission_event := notify_delta (transmission_event s)\<rparr>), True))
              else Inr (s, False)
      else if offset = 0x0c then Inr (s, False)
      else if offset = 0x10 then Inr (s\<lparr>reg_cpsr := v AND 0xff AND 0xfe\<rparr>, True)
      else if offset = 0x14
      then Inr (s\<lparr>reg_imsc := v AND 0xf,
                  possible_intr_event := notify_delta (possible_intr_event s)\<rparr>, True)
      else if offset = 0x18 then Inr (s, False)
      else if offset = 0x1c then Inr (s, False)
      else if offset = 0x20
      then Inr (s\<lparr>reg_icr := NOT (v AND 0x3) AND 0x3, reg_ris := reg_ris s AND NOT (v AND 0x03),
                  possible_intr_event := notify_delta (possible_intr_event s)\<rparr>, True)
      else if offset = 0x24 then Inr (s\<lparr>reg_dmacr := v AND 0x3\<rparr>, True)
      else Inr (s, False))"

definition read_reg :: "u16 \<Rightarrow> 'p spi \<Rightarrow> ('p spi \<times> u16) res" where
  "read_reg offset s =
     (if offset = 0x00 then Inr (s, reg_cr0 s)
      else if offset = 0x04 then Inr (s, reg_cr1 s)
      else if offset = 0x08
      then if num_available (rx_fifo s) = 0
           then Inr (s\<lparr>reg_ris := reg_ris s OR 0x1,
                       possible_intr_event := notify_delta (possible_intr_event s)\<rparr>, 0)
           else bindR (fifo_read (rx_fifo s)) (\<lambda>(dat, q).
                Inr (s\<lparr>rx_fifo := q, possible_intr_event := notify_delta (possible_intr_event s),
                       status_event := notify_delta (status_event s)\<rparr>,
                     dat AND frame_mask (bits_per_frame s)))
      else if offset = 0x0c then Inr (s, reg_sr s AND 0x1f)
      else if offset = 0x10 then Inr (s, reg_cpsr s AND 0xff)
      else if offset = 0x14 then Inr (s, reg_imsc s AND 0xf)
      else if offset = 0x18 then Inr (s, reg_ris s AND 0xf)
      else if offset = 0x1c then Inr (s, reg_mis s AND 0xf)
      else if offset = 0x20 then Inr (s, 0)
      else if offset = 0x24 then Inr (s, reg_dmacr s AND 0x3)
      else if offset = 0xFE0 then Inr (s, 0x22)
      else if offset = 0xFE4 then Inr (s, 0x10)
      else if offset = 0xFE8 then Inr (s, 0x34)
      else if offset = 0xFEC then Inr (s, 0x00)
      else if offset = 0xFF0 then Inr (s, 0x0d)
      else if offset = 0xFF4 then Inr (s, 0xf0)
      else if offset = 0xFF8 then Inr (s, 0x05)
      else if offset = 0xFFC then Inr (s, 0xb1)
      else Inr (s, 0))"

text \<open>
  \<open>b_transport\<close>. The parameter of \<open>write_reg\<close> has eight bits, so the address is cut; a write reads
  two bytes behind the data pointer whatever the length.
\<close>

definition spi_b_transport :: "'p spi transport" where
  "spi_b_transport s p delay =
     (if address p > 0xffc \<or> data_length p > 2
      then Inl (Sc_error ''Target does not support given generic payload transaction'')
      else let respond = (\<lambda>r s q. Inr (s, q\<lparr>response_status := r\<rparr>, delay + 20000))
           in case command p of
                TLM_WRITE_COMMAND \<Rightarrow>
                  bindR (ptr_load p 2) (\<lambda>bs.
                  bindR (write_reg (ucast (address p)) (le_word bs) s) (\<lambda>(s', wr_success).
                  respond (if wr_success then TLM_OK_RESPONSE else TLM_GENERIC_ERROR_RESPONSE) s' p))
              | TLM_READ_COMMAND \<Rightarrow>
                  bindR (read_reg (ucast (address p)) s) (\<lambda>(s', rd_data).
                  bindR (ptr_store p (take (unat (min 2 (data_length p))) (le_bytes 2 rd_data)))
                    (respond TLM_OK_RESPONSE s'))
              | TLM_IGNORE_COMMAND \<Rightarrow> respond TLM_OK_RESPONSE s p)"

section \<open>The module in a simulation\<close>

text \<open>
  After elaboration the registers hold any values and the channels are empty. In the
  initialization phase \<open>transmit\<close> runs to its first \<open>wait\<close> and \<open>handle_reset\<close> runs once.
\<close>

definition spi_elaborated :: "'p spi \<Rightarrow> bool" where
  "spi_elaborated s \<longleftrightarrow> rx_fifo s = fifo_new FIFO_SIZE \<and> tx_fifo s = fifo_new FIFO_SIZE \<and>
     transmission_event s = None \<and> possible_intr_event s = None \<and> status_event s = None \<and>
     \<not> is_transmitting s \<and> \<not> run_transmit s \<and> \<not> run_intr s \<and> \<not> run_status s \<and> \<not> run_reset s"

definition spi_initialize :: "'p transport \<Rightarrow> 'p spi \<Rightarrow> 'p spi res" where
  "spi_initialize peri s = bindR (transmit_loop peri s) (\<lambda>s. Inr (handle_reset s))"

text \<open>
  The end of a delta cycle: the channels and the reset input are updated, then the pending
  events make the processes runnable that wait for them.
\<close>

definition spi_delta :: "bool \<Rightarrow> 'p spi \<Rightarrow> 'p spi" where
  "spi_delta rst s = s\<lparr>rx_fifo := fifo_update (rx_fifo s), tx_fifo := fifo_update (tx_fifo s),
     reset_in := rst,
     run_transmit := (transmit_at s = Wait_event \<and> transmission_event s \<noteq> None \<or>
                      zero_wait (transmit_at s)),
     run_intr := (possible_intr_event s \<noteq> None),
     run_status := (status_event s \<noteq> None),
     run_reset := (reset_in s \<and> \<not> rst),
     transmission_event := None, possible_intr_event := None, status_event := None\<rparr>"

definition runnable :: "'p spi \<Rightarrow> bool" where
  "runnable s \<longleftrightarrow> run_transmit s \<or> run_intr s \<or> run_status s \<or> run_reset s"

definition fifo_quiet :: "'a sc_fifo \<Rightarrow> bool" where
  "fifo_quiet q \<longleftrightarrow> num_read q = 0 \<and> written q = []"

text \<open>Nothing is left to do at the current time.\<close>

definition spi_settled :: "'p spi \<Rightarrow> bool" where
  "spi_settled s \<longleftrightarrow> \<not> runnable s \<and> transmission_event s = None \<and> possible_intr_event s = None \<and>
     status_event s = None \<and> \<not> zero_wait (transmit_at s) \<and> fifo_quiet (rx_fifo s) \<and> fifo_quiet (tx_fifo s)"

definition shifting :: "'p spi \<Rightarrow> bool" where
  "shifting s = (case transmit_at s of Wait_shift _ _ _ \<Rightarrow> True | _ \<Rightarrow> False)"

text \<open>
  One step. Runnable processes run in any order, and accesses come between them; the predicate
  \<open>allowed\<close> restricts the states in which the reset is handled.
\<close>

inductive spi_step :: "'p transport \<Rightarrow> ('p spi \<Rightarrow> bool) \<Rightarrow> 'p spi \<Rightarrow> 'p spi \<Rightarrow> bool"
  for peri :: "'p transport" and allowed :: "'p spi \<Rightarrow> bool" where
  access: "spi_b_transport s p d = Inr (s', p', d') \<Longrightarrow> spi_step peri allowed s s'"
| transmit: "run_transmit s \<Longrightarrow> transmit_resume peri s = Inr s' \<Longrightarrow> spi_step peri allowed s s'"
| intr: "run_intr s \<Longrightarrow> spi_step peri allowed s (update_intr (s\<lparr>run_intr := False\<rparr>))"
| status: "run_status s \<Longrightarrow> spi_step peri allowed s (update_status_reg (s\<lparr>run_status := False\<rparr>))"
| reset: "run_reset s \<Longrightarrow> allowed s \<Longrightarrow> spi_step peri allowed s (handle_reset (s\<lparr>run_reset := False\<rparr>))"
| delta: "\<not> runnable s \<Longrightarrow> spi_step peri allowed s (spi_delta rst s)"
| elapse: "spi_settled s \<Longrightarrow> shifting s \<Longrightarrow> spi_step peri allowed s (s\<lparr>run_transmit := True\<rparr>)"

inductive spi_reachable :: "'p transport \<Rightarrow> ('p spi \<Rightarrow> bool) \<Rightarrow> 'p spi \<Rightarrow> bool"
  for peri :: "'p transport" and allowed :: "'p spi \<Rightarrow> bool" where
  start: "spi_elaborated s0 \<Longrightarrow> spi_initialize peri s0 = Inr s \<Longrightarrow> spi_reachable peri allowed s"
| step: "spi_reachable peri allowed s \<Longrightarrow> spi_step peri allowed s t \<Longrightarrow> spi_reachable peri allowed t"

text \<open>\<open>DummyPeripheral::b_transport\<close> of the test.\<close>

definition dummy_peripheral :: "unit transport" where
  "dummy_peripheral u p delay =
     bindR (ptr_load p 2) (\<lambda>bs.
     bindR (ptr_store p (le_bytes 2 ((le_word bs :: u16) OR 0xF000))) (\<lambda>q.
     Inr (u, q\<lparr>response_status := TLM_OK_RESPONSE\<rparr>, delay)))"

section \<open>What the registers should show\<close>

text \<open>
  The status word for given fill levels and activity, and the two level bits of the raw
  interrupt status.
\<close>

definition status_word :: "nat \<Rightarrow> nat \<Rightarrow> bool \<Rightarrow> u16" where
  "status_word rx tx busy = (if rx = FIFO_SIZE then 0x8 else 0) OR (if rx = 0 then 0 else 0x4) OR
     (if tx = FIFO_SIZE then 0 else 0x2) OR (if tx = 0 then 0x1 else 0) OR
     (if busy \<or> tx \<noteq> 0 then 0x10 else 0)"

definition level_bits :: "nat \<Rightarrow> nat \<Rightarrow> u16" where
  "level_bits rx tx = (if tx \<le> FIFO_SIZE div 2 then 0x8 else 0) OR (if FIFO_SIZE div 2 \<le> rx then 0x4 else 0)"

definition status_shown :: "'p spi \<Rightarrow> bool" where
  "status_shown s \<longleftrightarrow> reg_sr s AND 0x1f =
     status_word (length (contents (rx_fifo s))) (length (contents (tx_fifo s))) (is_transmitting s)"

definition intr_shown :: "'p spi \<Rightarrow> bool" where
  "intr_shown s \<longleftrightarrow>
     reg_ris s AND 0xc = level_bits (length (contents (rx_fifo s))) (length (contents (tx_fifo s))) \<and>
     reg_mis s = reg_ris s AND (reg_imsc s AND 0xf) \<and> (intr s \<longleftrightarrow> reg_mis s \<noteq> 0)"

section \<open>The invariant\<close>

text \<open>
  Work that is pending: values written to the receive channel are announced by the thread after
  its delta wait, values written to the transmit channel by two events; an idle thread with
  something to send has been notified.
\<close>

definition spi_invar :: "'p spi \<Rightarrow> bool" where
  "spi_invar s \<longleftrightarrow> fifo_invar FIFO_SIZE (rx_fifo s) \<and> fifo_invar FIFO_SIZE (tx_fifo s) \<and>
     (written (rx_fifo s) \<noteq> [] \<longrightarrow> transmit_at s = Wait_zero \<and> \<not> run_transmit s) \<and>
     (written (tx_fifo s) \<noteq> [] \<longrightarrow> transmission_event s \<noteq> None \<and> possible_intr_event s \<noteq> None) \<and>
     (transmit_at s = Wait_event \<and> reg_cr1 s AND 0x2 \<noteq> 0 \<and> contents (tx_fifo s) \<noteq> [] \<longrightarrow>
        transmission_event s \<noteq> None \<or> run_transmit s) \<and>
     (transmit_at s = Wait_event \<longrightarrow> possible_intr_event s \<noteq> None \<or> run_intr s \<or> intr_shown s)"

text \<open>The status register is right or about to be, while no reset meets data to send.\<close>

definition nothing_to_send :: "'p spi \<Rightarrow> bool" where
  "nothing_to_send s \<longleftrightarrow> readable (tx_fifo s) = []"

definition status_invar :: "'p spi \<Rightarrow> bool" where
  "status_invar s \<longleftrightarrow> (num_read (tx_fifo s) \<noteq> 0 \<longrightarrow> status_event s \<noteq> None) \<and>
     (status_event s \<noteq> None \<or> run_status s \<or> transmit_at s = Wait_zero \<or> status_shown s)"

text \<open>What the controller needs of a payload.\<close>

definition spi_ok :: "payload \<Rightarrow> bool" where
  "spi_ok p \<longleftrightarrow> address p \<le> 0xffc \<and> data_length p \<le> 2 \<and>
     (case command p of
        TLM_WRITE_COMMAND \<Rightarrow> (\<exists>b. data_ptr p = Some b \<and> 2 \<le> length b)
      | TLM_READ_COMMAND \<Rightarrow> (\<exists>b. data_ptr p = Some b \<and> unat (data_length p) \<le> length b)
      | TLM_IGNORE_COMMAND \<Rightarrow> True)"

section \<open>Lemmas\<close>

lemma status_bits:
  fixes sr :: u16
  shows "update_status_reg s = s\<lparr>reg_sr := reg_sr (update_status_reg s)\<rparr>"
    and "num_free (tx_fifo s) \<le> 8 \<Longrightarrow> reg_sr (update_status_reg s) AND 0x1f =
      status_word (num_available (rx_fifo s)) (8 - num_free (tx_fifo s)) (is_transmitting s)"
  by (auto simp: update_status_reg_def Let_def status_word_def FIFO_SIZE_def word_ao_dist
      word_bw_assocs)

lemma intr_bits:
  "reg_ris (update_intr s) AND 0xc = level_bits (num_available (rx_fifo s)) (num_available (tx_fifo s))"
  by (auto simp: update_intr_def Let_def level_bits_def FIFO_SIZE_def word_ao_dist word_bw_assocs)

declare notify_delta_def [simp]

lemma update_status_sel [simp]:
  "reg_cr0 (update_status_reg s) = reg_cr0 s" "reg_cr1 (update_status_reg s) = reg_cr1 s"
  "reg_cpsr (update_status_reg s) = reg_cpsr s" "reset_in (update_status_reg s) = reset_in s"
  "reg_imsc (update_status_reg s) = reg_imsc s" "reg_ris (update_status_reg s) = reg_ris s"
  "reg_mis (update_status_reg s) = reg_mis s" "intr (update_status_reg s) = intr s"
  "rx_fifo (update_status_reg s) = rx_fifo s" "tx_fifo (update_status_reg s) = tx_fifo s"
  "transmission_event (update_status_reg s) = transmission_event s"
  "possible_intr_event (update_status_reg s) = possible_intr_event s"
  "status_event (update_status_reg s) = status_event s"
  "is_transmitting (update_status_reg s) = is_transmitting s"
  "transmit_at (update_status_reg s) = transmit_at s" "peri_state (update_status_reg s) = peri_state s"
  "run_transmit (update_status_reg s) = run_transmit s" "run_intr (update_status_reg s) = run_intr s"
  "run_status (update_status_reg s) = run_status s" "run_reset (update_status_reg s) = run_reset s"
  by (simp_all add: update_status_reg_def Let_def)

lemma update_intr_sel [simp]:
  "reg_cr0 (update_intr s) = reg_cr0 s" "reg_cr1 (update_intr s) = reg_cr1 s"
  "reg_imsc (update_intr s) = reg_imsc s" "reg_sr (update_intr s) = reg_sr s"
  "rx_fifo (update_intr s) = rx_fifo s" "tx_fifo (update_intr s) = tx_fifo s"
  "transmission_event (update_intr s) = transmission_event s"
  "possible_intr_event (update_intr s) = possible_intr_event s"
  "status_event (update_intr s) = status_event s" "is_transmitting (update_intr s) = is_transmitting s"
  "transmit_at (update_intr s) = transmit_at s" "peri_state (update_intr s) = peri_state s"
  "run_transmit (update_intr s) = run_transmit s" "run_intr (update_intr s) = run_intr s"
  "run_status (update_intr s) = run_status s" "run_reset (update_intr s) = run_reset s"
  by (simp_all add: update_intr_def Let_def)

lemma intr_shown_frame [simp]:
  "intr_shown (update_status_reg s) = intr_shown s" "intr_shown (s\<lparr>reg_cr0 := v\<rparr>) = intr_shown s"
  "intr_shown (s\<lparr>transmit_at := w\<rparr>) = intr_shown s" "intr_shown (s\<lparr>is_transmitting := b\<rparr>) = intr_shown s"
  "intr_shown (s\<lparr>run_transmit := b\<rparr>) = intr_shown s" "intr_shown (s\<lparr>run_intr := b\<rparr>) = intr_shown s"
  "intr_shown (s\<lparr>run_status := b\<rparr>) = intr_shown s" "intr_shown (s\<lparr>run_reset := b\<rparr>) = intr_shown s"
  "intr_shown (s\<lparr>status_event := e\<rparr>) = intr_shown s"
  "intr_shown (s\<lparr>possible_intr_event := e\<rparr>) = intr_shown s"
  "intr_shown (s\<lparr>transmission_event := e\<rparr>) = intr_shown s"
  by (simp_all add: intr_shown_def)

text \<open>The two updates show the state of the channels, once they have been updated.\<close>

lemma intr_shown_update:
  assumes "written (rx_fifo s) = []" and "written (tx_fifo s) = []"
  shows "intr_shown (update_intr s)"
proof -
  have "reg_mis (update_intr s) = reg_ris (update_intr s) AND (reg_imsc s AND 0xf)"
    and "intr (update_intr s) = (reg_mis (update_intr s) \<noteq> 0)"
    by (simp_all add: update_intr_def Let_def word_bw_assocs)
  with assms show ?thesis
    by (simp add: intr_shown_def intr_bits contents_def num_available_def)
qed

lemma status_shown_update:
  assumes "fifo_invar FIFO_SIZE (tx_fifo s)" and "written (rx_fifo s) = []" and "num_read (tx_fifo s) = 0"
  shows "status_shown (update_status_reg s)"
  using assms by (simp add: status_shown_def status_bits(2) contents_def num_available_def num_free_def
      fifo_invar_def FIFO_SIZE_def)

lemma write_reg_Inr: "\<exists>s' ok. write_reg off v s = Inr (s', ok)"
  by (auto simp: write_reg_def Let_def fifo_write_ok)

lemma read_reg_Inr: "\<exists>s' v. read_reg off s = Inr (s', v)"
  by (auto simp: read_reg_def fifo_read_ok)

text \<open>Changes that keep the channels and the thread keep the invariant when they are announced.\<close>

lemma spi_invar_announced:
  assumes "spi_invar s" and "rx_fifo t = rx_fifo s" "tx_fifo t = tx_fifo s"
    "transmit_at t = transmit_at s" "run_transmit t = run_transmit s"
    and "transmission_event s \<noteq> None \<longrightarrow> transmission_event t \<noteq> None"
    and "possible_intr_event s \<noteq> None \<longrightarrow> possible_intr_event t \<noteq> None"
    and "reg_cr1 t = reg_cr1 s \<or> reg_cr1 t AND 0x2 = 0 \<or> transmission_event t \<noteq> None"
    and "possible_intr_event t \<noteq> None \<or> run_intr t = run_intr s \<and> intr_shown t = intr_shown s"
  shows "spi_invar t"
  using assms unfolding spi_invar_def by metis

lemma spi_invar_receive:
  assumes "spi_invar s" and "readable (rx_fifo s) \<noteq> []"
  shows "spi_invar (s\<lparr>rx_fifo := rx_fifo s\<lparr>readable := tl (readable (rx_fifo s)),
      num_read := Suc (num_read (rx_fifo s))\<rparr>, possible_intr_event := notify_delta e,
      status_event := e'\<rparr>)"
  using assms by (cases "readable (rx_fifo s)") (simp_all add: spi_invar_def fifo_invar_def)

lemma spi_invar_send:
  assumes "spi_invar s" and "num_free (tx_fifo s) \<noteq> 0"
  shows "spi_invar (s\<lparr>reg_dr := v, tx_fifo := tx_fifo s\<lparr>written := written (tx_fifo s) @ [v]\<rparr>,
      possible_intr_event := notify_delta e, transmission_event := notify_delta e'\<rparr>)"
  using assms by (simp add: spi_invar_def fifo_invar_def num_free_def)

lemma spi_invar_sr [simp]: "spi_invar (update_status_reg s) = spi_invar s"
  by (simp add: spi_invar_def)

lemma write_reg_invar:
  assumes "write_reg off v s = Inr (s', ok)" and "spi_invar s"
  shows "spi_invar s'"
proof (cases "off = 0x08 \<and> num_free (tx_fifo s) \<noteq> 0")
  case True
  with assms(1) show ?thesis
    using spi_invar_send [OF assms(2)] by (auto simp: write_reg_def Let_def fifo_write_ok)
next
  case False
  with assms(1) show ?thesis
    by (auto simp: write_reg_def Let_def intr_shown_def split: if_splits
        intro!: spi_invar_announced [OF assms(2)])
qed

lemma read_reg_invar:
  assumes "read_reg off s = Inr (s', v)" and "spi_invar s"
  shows "spi_invar s'"
proof (cases "off = 0x08")
  case True
  with assms(1) spi_invar_receive [OF assms(2)] spi_invar_announced [OF assms(2), of s'] show ?thesis
    by (auto simp: read_reg_def fifo_read_ok num_available_def split: if_splits)
next
  case False
  then have "s' = s" using assms(1) by (simp add: read_reg_def split: if_splits)
  with assms(2) show ?thesis by simp
qed

lemma access_cases:
  assumes "spi_b_transport s p d = Inr (s', p', d')"
  obtains (none) "s' = s"
  | (wr) bs ok where "write_reg (ucast (address p)) (le_word bs) s = Inr (s', ok)"
  | (rd) v where "read_reg (ucast (address p)) s = Inr (s', v)"
  using assms
  by (auto simp: spi_b_transport_def Let_def bindR_eq_Inr split: if_splits tlm_command.splits)

lemma transmit_loop_cases:
  assumes "transmit_loop peri s = Inr t"
  obtains (idle) "readable (tx_fifo s) = [] \<or> reg_cr1 s AND 0x2 = 0"
      "t = s\<lparr>is_transmitting := False, status_event := Some Delta, transmit_at := Wait_event\<rparr>"
  | (frame) v vs st w delay where "readable (tx_fifo s) = v # vs" "reg_cr1 s AND 0x2 \<noteq> 0"
      "exchange peri v (transmission_time s) (peri_state s) = Inr (st, w, delay)"
      "t = s\<lparr>is_transmitting := True, status_event := Some Delta,
         tx_fifo := tx_fifo s\<lparr>readable := vs, num_read := Suc (num_read (tx_fifo s))\<rparr>,
         peri_state := st, transmit_at := Wait_shift w (frame_mask (bits_per_frame s)) delay\<rparr>"
proof (cases "num_available (tx_fifo s) = 0 \<or> reg_cr1 s AND 0x2 = 0")
  case True
  with assms show thesis by (intro idle) (auto simp: transmit_loop_def num_available_def)
next
  case False
  then obtain v vs where tx: "readable (tx_fifo s) = v # vs" "reg_cr1 s AND 0x2 \<noteq> 0"
    by (cases "readable (tx_fifo s)") (auto simp: num_available_def)
  let ?s = "s\<lparr>is_transmitting := True, status_event := Some Delta\<rparr>"
  have "transmission_time ?s = transmission_time s" "bits_per_frame ?s = bits_per_frame s"
    by (simp_all add: transmission_time_def bits_per_frame_def)
  with assms False tx show thesis
    by (auto simp: transmit_loop_def fifo_read_ok bindR_eq_Inr Let_def intro: frame)
qed

lemma transmit_loop_invar:
  assumes "transmit_loop peri s = Inr t" and "spi_invar (s\<lparr>transmit_at := Wait_event, run_transmit := True\<rparr>)"
    and "\<not> run_transmit s"
  shows "spi_invar t"
  using assms(1)
proof (cases rule: transmit_loop_cases)
  case idle
  with assms(2,3) show ?thesis by (elim disjE) (simp_all add: spi_invar_def contents_def)
next
  case (frame v vs st w delay)
  with assms(2,3) show ?thesis by (auto simp: spi_invar_def fifo_invar_def)
qed

lemma transmit_resume_invar:
  assumes "transmit_resume peri s = Inr t" and "spi_invar s" and "run_transmit s"
  shows "spi_invar t"
proof (cases "transmit_at s")
  case Wait_event
  let ?s = "s\<lparr>run_transmit := False\<rparr>"
  from Wait_event assms have loop: "transmit_loop peri ?s = Inr t" by (simp add: transmit_resume_def)
  have "?s\<lparr>transmit_at := Wait_event, run_transmit := True\<rparr> = s" using Wait_event assms(3) by simp
  with assms(2) transmit_loop_invar [OF loop] show ?thesis by simp
next
  case (Wait_shift w m delay)
  with assms show ?thesis
    by (auto simp: transmit_resume_def Let_def fifo_write_ok spi_invar_def fifo_invar_def num_free_def
        split: if_splits)
next
  case Wait_zero
  let ?s = "s\<lparr>run_transmit := False, status_event := Some Delta, possible_intr_event := Some Delta\<rparr>"
  from Wait_zero assms have loop: "transmit_loop peri ?s = Inr t" by (simp add: transmit_resume_def)
  from assms(2,3) have "spi_invar (?s\<lparr>transmit_at := Wait_event, run_transmit := True\<rparr>)"
    by (simp add: spi_invar_def)
  with transmit_loop_invar [OF loop] show ?thesis by simp
qed

lemma handle_reset_sel [simp]:
  "rx_fifo (handle_reset s) = drain (rx_fifo s)" "tx_fifo (handle_reset s) = drain (tx_fifo s)"
  "transmission_event (handle_reset s) = transmission_event s" "status_event (handle_reset s) = status_event s"
  "possible_intr_event (handle_reset s) = Some Delta" "reg_cr1 (handle_reset s) = 0"
  "transmit_at (handle_reset s) = transmit_at s" "run_transmit (handle_reset s) = run_transmit s"
  "run_status (handle_reset s) = run_status s" "peri_state (handle_reset s) = peri_state s"
  by (simp_all add: handle_reset_def)

lemma handle_reset_invar: "spi_invar s \<Longrightarrow> spi_invar (handle_reset s)"
  by (simp add: spi_invar_def drain_eq fifo_invar_def)

lemma spi_delta_invar: "spi_invar s \<Longrightarrow> \<not> runnable s \<Longrightarrow> spi_invar (spi_delta rst s)"
  by (auto simp: spi_invar_def spi_delta_def fifo_update_def fifo_invar_def contents_def runnable_def
      intr_shown_def)

lemma access_invar:
  assumes "spi_b_transport s p d = Inr (s', p', d')" and "spi_invar s"
  shows "spi_invar s'"
  using assms(1)
proof (cases rule: access_cases)
  case (wr bs ok)
  from write_reg_invar [OF this assms(2)] show ?thesis .
next
  case (rd v)
  from read_reg_invar [OF this assms(2)] show ?thesis .
qed (use assms(2) in simp)

lemma update_intr_invar:
  assumes "spi_invar s" shows "spi_invar (update_intr (s\<lparr>run_intr := False\<rparr>))"
proof -
  have "intr_shown (update_intr (s\<lparr>run_intr := False\<rparr>)) \<or> possible_intr_event s \<noteq> None"
    if "transmit_at s = Wait_event"
    using assms that intr_shown_update [of "s\<lparr>run_intr := False\<rparr>"]
    by (auto simp: spi_invar_def)
  with assms show ?thesis by (simp add: spi_invar_def) blast
qed

lemma spi_step_invar: "spi_step peri allowed s t \<Longrightarrow> spi_invar s \<Longrightarrow> spi_invar t"
proof (induction rule: spi_step.induct)
  case (access s p d s' p' d')
  then show ?case by (rule access_invar)
next
  case (transmit s s')
  then show ?case by (blast intro: transmit_resume_invar)
next
  case (intr s)
  then show ?case by (blast intro: update_intr_invar)
next
  case (status s)
  then show ?case by (simp add: spi_invar_def)
next
  case (reset s)
  then show ?case by (intro handle_reset_invar) (simp add: spi_invar_def)
next
  case (delta s rst)
  then show ?case by (blast intro: spi_delta_invar)
next
  case (elapse s)
  then show ?case by (auto simp: spi_invar_def spi_settled_def shifting_def fifo_quiet_def)
qed

lemma spi_initial:
  assumes "spi_elaborated s0" and "spi_initialize peri s0 = Inr s"
  shows "s = handle_reset (s0\<lparr>is_transmitting := False, status_event := Some Delta,
    transmit_at := Wait_event\<rparr>)"
  using assms
  by (simp add: spi_initialize_def spi_elaborated_def transmit_loop_def num_available_def fifo_new_def)

lemma spi_initial_invar:
  "spi_elaborated s0 \<Longrightarrow> spi_initialize peri s0 = Inr s \<Longrightarrow> spi_invar s \<and> status_invar s"
  by (frule (1) spi_initial)
    (simp add: spi_elaborated_def spi_invar_def status_invar_def drain_eq fifo_new_def fifo_invar_def contents_def)

lemma spi_reachable_invar: "spi_reachable peri allowed s \<Longrightarrow> spi_invar s"
  by (induction rule: spi_reachable.induct) (auto dest: spi_initial_invar intro: spi_step_invar)

text \<open>The status register.\<close>

lemma status_shown_frame [simp]:
  "status_shown (update_intr s) = status_shown s" "status_shown (s\<lparr>reg_cr0 := v\<rparr>) = status_shown s"
  "status_shown (s\<lparr>reg_cr1 := v\<rparr>) = status_shown s" "status_shown (s\<lparr>reg_dr := v\<rparr>) = status_shown s"
  "status_shown (s\<lparr>reg_cpsr := v\<rparr>) = status_shown s" "status_shown (s\<lparr>reg_imsc := v\<rparr>) = status_shown s"
  "status_shown (s\<lparr>reg_ris := v\<rparr>) = status_shown s" "status_shown (s\<lparr>reg_icr := v\<rparr>) = status_shown s"
  "status_shown (s\<lparr>reg_dmacr := v\<rparr>) = status_shown s"
  "status_shown (s\<lparr>run_transmit := b\<rparr>) = status_shown s" "status_shown (s\<lparr>run_intr := b\<rparr>) = status_shown s"
  "status_shown (s\<lparr>run_status := b\<rparr>) = status_shown s" "status_shown (s\<lparr>run_reset := b\<rparr>) = status_shown s"
  "status_shown (s\<lparr>possible_intr_event := e\<rparr>) = status_shown s"
  "status_shown (s\<lparr>transmission_event := e\<rparr>) = status_shown s"
  by (simp_all add: status_shown_def)

lemma status_invar_update:
  assumes "spi_invar s" and "num_read (tx_fifo s) \<noteq> 0 \<longrightarrow> status_event s \<noteq> None"
  shows "status_invar (update_status_reg s)"
  using assms status_shown_update [of s] by (auto simp: spi_invar_def status_invar_def)

lemma write_reg_status:
  assumes "write_reg off v s = Inr (s', ok)" and "spi_invar s" and "status_invar s"
  shows "status_invar s'"
proof (cases "off = 0x08 \<and> num_free (tx_fifo s) \<noteq> 0")
  case True
  with assms(1) have "s' = update_status_reg (s\<lparr>reg_dr := v,
      tx_fifo := tx_fifo s\<lparr>written := written (tx_fifo s) @ [v]\<rparr>,
      possible_intr_event := Some Delta, transmission_event := Some Delta\<rparr>)"
    by (simp add: write_reg_def Let_def fifo_write_ok)
  moreover have "status_invar \<dots>"
    using True assms(3) spi_invar_send [OF assms(2)]
    by (intro status_invar_update) (simp_all add: status_invar_def)
  ultimately show ?thesis by simp
next
  case False
  with assms show ?thesis
    by (auto simp: write_reg_def Let_def status_invar_def split: if_splits)
qed

lemma read_reg_status:
  assumes "read_reg off s = Inr (s', v)" and "status_invar s"
  shows "status_invar s'"
proof (cases "off = 0x08")
  case True
  with assms show ?thesis by (auto simp: read_reg_def fifo_read_ok status_invar_def split: if_splits)
next
  case False
  then have "s' = s" using assms(1) by (simp add: read_reg_def split: if_splits)
  with assms(2) show ?thesis by simp
qed

lemma transmit_resume_status:
  assumes "transmit_resume peri s = Inr t" and "status_invar s"
  shows "status_invar t"
  using assms
  by (cases "transmit_at s")
    (auto simp: transmit_resume_def Let_def status_invar_def bindR_eq_Inr elim!: transmit_loop_cases split: if_splits)

lemma spi_step_status:
  "spi_step peri nothing_to_send s t \<Longrightarrow> spi_invar s \<Longrightarrow> status_invar s \<Longrightarrow> status_invar t"
proof (induction rule: spi_step.induct)
  case (access s p d s' p' d')
  from access(1) show ?case
    by (cases rule: access_cases) (use access in \<open>auto intro: write_reg_status read_reg_status\<close>)
next
  case (transmit s s')
  then show ?case by (blast intro: transmit_resume_status)
next
  case (intr s)
  then show ?case by (simp add: status_invar_def)
next
  case (status s)
  then show ?case by (intro status_invar_update) (simp_all add: spi_invar_def status_invar_def)
next
  case (reset s)
  then show ?case unfolding handle_reset_def
    by (intro status_invar_update)
      (simp_all add: spi_invar_def status_invar_def drain_eq fifo_invar_def nothing_to_send_def)
next
  case (delta s rst)
  then show ?case
    by (auto simp: status_invar_def spi_delta_def runnable_def status_shown_def fifo_update_def contents_def)
next
  case (elapse s)
  then show ?case by (simp add: status_invar_def)
qed

lemma spi_reachable_status: "spi_reachable peri nothing_to_send s \<Longrightarrow> spi_invar s \<and> status_invar s"
  by (induction rule: spi_reachable.induct)
    (auto dest: spi_initial_invar intro: spi_step_invar spi_step_status)

text \<open>The bus side.\<close>

lemma spi_good_outcome:
  assumes "spi_invar s" and "spi_ok p"
  shows "good_outcome spi_invar p (spi_b_transport s p d)"
proof -
  have range: "(0xffc < address p) = False" "(2 < data_length p) = False"
    using assms(2) by (auto simp: spi_ok_def)
  show ?thesis
  proof (cases "command p")
    case TLM_WRITE_COMMAND
    then obtain b where b: "data_ptr p = Some b" "2 \<le> length b" using assms(2) by (auto simp: spi_ok_def)
    then have ld: "ptr_load p 2 = Inr (take 2 b)" by (simp add: ptr_load_def memcpy_from_def)
    obtain s' ok where w: "write_reg (ucast (address p)) (le_word (take 2 b)) s = Inr (s', ok)"
      using write_reg_Inr by blast
    show ?thesis using assms(1) TLM_WRITE_COMMAND ld w write_reg_invar [OF w assms(1)]
      by (simp add: spi_b_transport_def range)
  next
    case TLM_READ_COMMAND
    then obtain b where b: "data_ptr p = Some b" "unat (data_length p) \<le> length b"
      using assms(2) by (auto simp: spi_ok_def)
    obtain s' v where r: "read_reg (ucast (address p)) s = Inr (s', v)" using read_reg_Inr by blast
    have "data_length p \<le> 2" using assms(2) by (simp add: spi_ok_def)
    then have "min 2 (data_length p) = data_length p" "unat (data_length p) \<le> 2"
      by (simp_all add: min_absorb2 word_le_nat_alt)
    then show ?thesis using assms(1) TLM_READ_COMMAND b r read_reg_invar [OF r assms(1)]
      by (simp add: spi_b_transport_def range ptr_store_def memcpy_to_def same_attrs_def)
  next
    case TLM_IGNORE_COMMAND
    then show ?thesis using assms(1) by (simp add: spi_b_transport_def range)
  qed
qed

interpretation spi: tlm_target spi_b_transport spi_invar spi_ok
  by (rule tlm_targetI) (rule spi_good_outcome)

text \<open>A settled controller shows its state.\<close>

lemma settled_shown:
  assumes "spi_settled s"
  shows "status_invar s \<Longrightarrow> status_shown s" "spi_invar s \<Longrightarrow> transmit_at s = Wait_event \<Longrightarrow> intr_shown s"
  using assms by (auto simp: spi_settled_def runnable_def status_invar_def spi_invar_def)

end
