(* ===== verification/Spi_Link.thy ===== *)
theory Spi_Link
  imports Spi
begin

text \<open>
  What the SPI controller does for its software: the abstract link it implements, the transfer
  of a frame cycle by cycle with its exact time, its status and its interrupt.
\<close>

section \<open>The link, abstractly\<close>

text \<open>
  What the controller promises its software: words queued to be sent, at most one frame on the
  wire, answers queued to be received. A slot emptied in this delta cycle is still held. The
  events name the words that move.
\<close>

record 'p link =
  to_send :: "u16 list"
  send_held :: nat
  in_flight :: "u16 list"
  received :: "u16 list"
  recv_held :: nat
  device :: 'p

datatype link_event = Sent u16 | Started u16 u16 | Delivered u16 | Lost u16 | Received u16 | Released | Cleared

inductive link_step :: "'p transport \<Rightarrow> link_event \<Rightarrow> 'p link \<Rightarrow> 'p link \<Rightarrow> bool"
  for peri :: "'p transport" where
  send: "length (to_send l) + send_held l < FIFO_SIZE \<Longrightarrow>
    link_step peri (Sent v) l (l\<lparr>to_send := to_send l @ [v]\<rparr>)"
| start: "to_send l = v # vs \<Longrightarrow> in_flight l = [] \<Longrightarrow> n \<in> {1..16} \<Longrightarrow>
    exchange peri v delay (device l) = Inr (st, w, delay') \<Longrightarrow>
    link_step peri (Started v (w AND frame_mask n)) l
      (l\<lparr>to_send := vs, send_held := Suc (send_held l), in_flight := [w AND frame_mask n], device := st\<rparr>)"
| deliver: "in_flight l = [w] \<Longrightarrow> length (received l) + recv_held l < FIFO_SIZE \<Longrightarrow>
    link_step peri (Delivered w) l (l\<lparr>in_flight := [], received := received l @ [w]\<rparr>)"
| overrun: "in_flight l = [w] \<Longrightarrow> length (received l) + recv_held l = FIFO_SIZE \<Longrightarrow>
    link_step peri (Lost w) l (l\<lparr>in_flight := []\<rparr>)"
| receive: "received l = v # vs \<Longrightarrow>
    link_step peri (Received v) l (l\<lparr>received := vs, recv_held := Suc (recv_held l)\<rparr>)"
| release: "link_step peri Released l (l\<lparr>send_held := 0, recv_held := 0\<rparr>)"
| clear: "i \<le> length (to_send l) \<Longrightarrow> j \<le> length (received l) \<Longrightarrow>
    link_step peri Cleared l (l\<lparr>to_send := drop i (to_send l), send_held := send_held l + i,
      received := drop j (received l), recv_held := recv_held l + j\<rparr>)"

definition flight :: "transmit_wait \<Rightarrow> u16 list" where
  "flight w = (case w of Wait_shift dat msk delay \<Rightarrow> [dat AND msk] | _ \<Rightarrow> [])"

definition link_of :: "'p spi \<Rightarrow> 'p link" where
  "link_of s = \<lparr>to_send = contents (tx_fifo s), send_held = num_read (tx_fifo s),
     in_flight = flight (transmit_at s), received = contents (rx_fifo s),
     recv_held = num_read (rx_fifo s), device = peri_state s\<rparr>"

section \<open>A schedule\<close>

text \<open>
  One schedule the kernel may choose: every runnable process runs once, in a fixed order, and the
  delta cycle ends; a number of such cycles.
\<close>

definition run_others :: "'p spi \<Rightarrow> 'p spi" where
  "run_others s =
     (let s = (if run_intr s then update_intr (s\<lparr>run_intr := False\<rparr>) else s);
          s = (if run_status s then update_status_reg (s\<lparr>run_status := False\<rparr>) else s)
      in if run_reset s then handle_reset (s\<lparr>run_reset := False\<rparr>) else s)"

definition spi_cycle :: "'p transport \<Rightarrow> 'p spi \<Rightarrow> 'p spi res" where
  "spi_cycle peri s =
     bindR (if run_transmit s then transmit_resume peri s else Inr s) (\<lambda>s.
       let s = run_others s in Inr (spi_delta (reset_in s) s))"

fun spi_cycles :: "'p transport \<Rightarrow> nat \<Rightarrow> 'p spi \<Rightarrow> 'p spi res" where
  "spi_cycles peri 0 s = Inr s"
| "spi_cycles peri (Suc n) s = bindR (spi_cycle peri s) (spi_cycles peri n)"

section \<open>Refinement\<close>

lemma link_of_frame [simp]:
  "link_of (update_status_reg s) = link_of s" "link_of (update_intr s) = link_of s"
  "link_of (s\<lparr>run_transmit := b\<rparr>) = link_of s" "link_of (s\<lparr>run_intr := b\<rparr>) = link_of s"
  "link_of (s\<lparr>run_status := b\<rparr>) = link_of s" "link_of (s\<lparr>run_reset := b\<rparr>) = link_of s"
  "link_of (s\<lparr>status_event := e\<rparr>) = link_of s" "link_of (s\<lparr>possible_intr_event := e\<rparr>) = link_of s"
  "link_of (s\<lparr>is_transmitting := b\<rparr>) = link_of s"
  by (simp_all add: link_of_def)

lemma link_of_sel [simp]:
  "to_send (link_of s) = contents (tx_fifo s)" "send_held (link_of s) = num_read (tx_fifo s)"
  "in_flight (link_of s) = flight (transmit_at s)" "received (link_of s) = contents (rx_fifo s)"
  "recv_held (link_of s) = num_read (rx_fifo s)" "device (link_of s) = peri_state s"
  by (simp_all add: link_of_def)

lemma bits_per_frame_range: "bits_per_frame s \<in> {1..16}"
proof -
  have "unat (reg_cr0 s AND 0xF) \<le> unat (0xF :: u16)"
    by (intro word_le_nat_alt [THEN iffD1] word_and_le1)
  then show ?thesis by (simp add: bits_per_frame_def)
qed

lemma write_reg_link:
  assumes "write_reg off v s = Inr (s', ok)" and "spi_invar s"
  shows "link_of s' = link_of s \<or> link_step peri (Sent v) (link_of s) (link_of s')"
proof (cases "off = 0x08 \<and> num_free (tx_fifo s) \<noteq> 0")
  case True
  with assms(1) have "link_of s' = link_of s\<lparr>to_send := to_send (link_of s) @ [v]\<rparr>"
    by (auto simp: write_reg_def Let_def fifo_write_ok link_of_def contents_def)
  moreover have "length (to_send (link_of s)) + send_held (link_of s) < FIFO_SIZE"
    using True assms(2) by (auto simp: spi_invar_def fifo_invar_def num_free_def contents_def)
  ultimately show ?thesis using link_step.send by metis
next
  case False
  with assms(1) have "link_of s' = link_of s"
    by (auto simp: write_reg_def Let_def link_of_def split: if_splits)
  then show ?thesis ..
qed

lemma read_reg_link:
  assumes "read_reg off s = Inr (s', v)"
  shows "link_of s' = link_of s \<or> (\<exists>w. link_step peri (Received w) (link_of s) (link_of s'))"
proof (cases "off = 0x08 \<and> readable (rx_fifo s) \<noteq> []")
  case True
  then obtain w ws where rx: "readable (rx_fifo s) = w # ws" by (cases "readable (rx_fifo s)") auto
  with True assms have "link_of s' = link_of s\<lparr>received := ws @ written (rx_fifo s),
      recv_held := Suc (recv_held (link_of s))\<rparr>"
    by (auto simp: read_reg_def fifo_read_ok num_available_def link_of_def contents_def)
  moreover have "received (link_of s) = w # ws @ written (rx_fifo s)" using rx by (simp add: contents_def)
  ultimately show ?thesis using link_step.receive by metis
next
  case False
  with assms have "link_of s' = link_of s"
    by (auto simp: read_reg_def num_available_def link_of_def split: if_splits)
  then show ?thesis ..
qed

lemma transmit_loop_link:
  assumes "transmit_loop peri s = Inr t" and "flight (transmit_at s) = []"
  shows "link_of t = link_of s \<or> (\<exists>e. link_step peri e (link_of s) (link_of t))"
  using assms(1)
proof (cases rule: transmit_loop_cases)
  case idle
  with assms(2) have "link_of t = link_of s" by (simp add: link_of_def flight_def)
  then show ?thesis ..
next
  case (frame v vs st w delay)
  let ?n = "bits_per_frame s"
  have lk: "link_of t = link_of s\<lparr>to_send := vs @ written (tx_fifo s), send_held := Suc (send_held (link_of s)),
      in_flight := [w AND frame_mask ?n], device := st\<rparr>"
    using frame by (simp add: link_of_def contents_def flight_def)
  have "link_step peri (Started v (w AND frame_mask ?n)) (link_of s) (link_of t)"
    unfolding lk using frame assms(2) bits_per_frame_range [of s]
    by (intro link_step.start) (simp_all add: contents_def)
  then show ?thesis by blast
qed

lemma transmit_resume_link:
  assumes "transmit_resume peri s = Inr t" and "spi_invar s"
  shows "link_of t = link_of s \<or> (\<exists>e. link_step peri e (link_of s) (link_of t))"
proof (cases "transmit_at s")
  case Wait_event
  with assms(1) transmit_loop_link [of peri "s\<lparr>run_transmit := False\<rparr>" t] show ?thesis
    by (simp add: transmit_resume_def flight_def)
next
  case Wait_zero
  with assms(1) transmit_loop_link [of peri "s\<lparr>run_transmit := False, status_event := Some Delta,
      possible_intr_event := Some Delta\<rparr>" t] show ?thesis
    by (simp add: transmit_resume_def flight_def)
next
  case (Wait_shift w m delay)
  have rx: "length (received (link_of s)) + recv_held (link_of s) + num_free (rx_fifo s) = FIFO_SIZE"
    using assms(2) by (auto simp: spi_invar_def fifo_invar_def num_free_def contents_def)
  have fl: "in_flight (link_of s) = [w AND m]" using Wait_shift by (simp add: flight_def)
  show ?thesis
  proof (cases "num_free (rx_fifo s) = 0")
    case True
    with assms(1) Wait_shift have "link_of t = link_of s\<lparr>in_flight := []\<rparr>"
      by (auto simp: transmit_resume_def link_of_def flight_def)
    with link_step.overrun [OF fl] rx True show ?thesis by auto
  next
    case False
    with assms(1) Wait_shift have "link_of t = link_of s\<lparr>in_flight := [],
        received := received (link_of s) @ [w AND m]\<rparr>"
      by (auto simp: transmit_resume_def link_of_def flight_def fifo_write_ok contents_def)
    with link_step.deliver [OF fl] rx False show ?thesis by auto
  qed
qed

lemma handle_reset_link: "link_step peri Cleared (link_of s) (link_of (handle_reset s))"
proof -
  have "link_of (handle_reset s) = link_of s\<lparr>
      to_send := drop (length (readable (tx_fifo s))) (to_send (link_of s)),
      send_held := send_held (link_of s) + length (readable (tx_fifo s)),
      received := drop (length (readable (rx_fifo s))) (received (link_of s)),
      recv_held := recv_held (link_of s) + length (readable (rx_fifo s))\<rparr>"
    by (simp add: link_of_def drain_eq contents_def)
  then show ?thesis
    using link_step.clear [of "length (readable (tx_fifo s))" "link_of s" "length (readable (rx_fifo s))" peri]
    by (simp add: contents_def)
qed

lemma spi_delta_link: "link_step peri Released (link_of s) (link_of (spi_delta rst s))"
proof -
  have "link_of (spi_delta rst s) = link_of s\<lparr>send_held := 0, recv_held := 0\<rparr>"
    by (simp add: link_of_def spi_delta_def fifo_update_def contents_def)
  with link_step.release [of peri "link_of s"] show ?thesis by simp
qed

lemma spi_step_link:
  "spi_step peri allowed s t \<Longrightarrow> spi_invar s \<Longrightarrow>
    link_of t = link_of s \<or> (\<exists>e. link_step peri e (link_of s) (link_of t))"
proof (induction rule: spi_step.induct)
  case (access s p d s' p' d')
  from access(1) show ?case
    by (cases rule: access_cases) (use access(2) in \<open>auto dest: write_reg_link read_reg_link\<close>)
next
  case (transmit s s')
  from transmit_resume_link [OF transmit(2,3)] show ?case .
next
  case (reset s)
  then show ?case using handle_reset_link [of peri "s\<lparr>run_reset := False\<rparr>"] by auto
next
  case (delta s rst)
  then show ?case using spi_delta_link by blast
qed simp_all

section \<open>The transfer of a frame\<close>

lemma transmission_time_cong:
  "reg_cr0 t = reg_cr0 s \<Longrightarrow> reg_cpsr t = reg_cpsr s \<Longrightarrow> transmission_time t = transmission_time s"
  by (simp add: transmission_time_def bits_per_frame_def)

lemma frame_regs [simp]:
  "transmission_time (update_status_reg s) = transmission_time s"
  "transmission_time (s\<lparr>is_transmitting := b\<rparr>) = transmission_time s"
  "transmission_time (s\<lparr>status_event := e\<rparr>) = transmission_time s"
  "transmission_time (s\<lparr>run_transmit := b\<rparr>) = transmission_time s"
  "bits_per_frame (update_status_reg s) = bits_per_frame s"
  "bits_per_frame (s\<lparr>is_transmitting := b\<rparr>) = bits_per_frame s"
  "bits_per_frame (s\<lparr>status_event := e\<rparr>) = bits_per_frame s"
  "bits_per_frame (s\<lparr>run_transmit := b\<rparr>) = bits_per_frame s"
  by (rule transmission_time_cong; simp)+ (simp_all add: bits_per_frame_def)

text \<open>The cycle in which the woken thread takes a word, and the one that shows it is busy.\<close>

lemma cycle_starts:
  assumes "run_transmit s" "run_intr s" "\<not> run_status s" "\<not> run_reset s" "transmit_at s = Wait_event"
    and "reg_cr1 s AND 2 \<noteq> 0" "readable (tx_fifo s) = [v]" "fifo_quiet (tx_fifo s)" "fifo_quiet (rx_fifo s)"
    and "transmission_event s = None" "possible_intr_event s = None"
    and "exchange peri v (transmission_time s) (peri_state s) = Inr (st, w, delay)" "delay \<noteq> 0"
  shows "\<exists>t. spi_cycles peri 2 s = Inr t \<and> spi_settled t \<and> contents (tx_fifo t) = [] \<and>
    transmit_at t = Wait_shift w (frame_mask (bits_per_frame s)) delay \<and> rx_fifo t = rx_fifo s"
  using assms
  by (simp add: numeral_2_eq_2 spi_cycle_def run_others_def transmit_resume_def transmit_loop_def
      fifo_read_ok num_available_def Let_def)
    (simp add: spi_delta_def spi_settled_def runnable_def fifo_quiet_def fifo_update_def contents_def)

text \<open>The cycles after the end of a frame with nothing more to send.\<close>

lemma cycle_ends:
  assumes "spi_settled s" "transmit_at s = Wait_shift w m delay"
    and "contents (tx_fifo s) = []" "num_free (rx_fifo s) \<noteq> 0"
  shows "\<exists>t. spi_cycles peri 3 (s\<lparr>run_transmit := True\<rparr>) = Inr t \<and> spi_settled t \<and>
    contents (tx_fifo t) = [] \<and> contents (rx_fifo t) = contents (rx_fifo s) @ [w AND m] \<and>
    transmit_at t = Wait_event \<and> \<not> is_transmitting t"
  using assms
  by (simp add: numeral_3_eq_3 spi_cycle_def run_others_def transmit_resume_def fifo_write_ok
      spi_settled_def runnable_def fifo_quiet_def contents_def)
    (simp add: spi_delta_def spi_cycle_def run_others_def transmit_loop_def num_available_def
      fifo_update_def)

text \<open>Cycles without a reset are steps, so the invariants hold throughout.\<close>

lemma transmit_resume_frame:
  assumes "transmit_resume peri s = Inr t"
  shows "\<not> run_transmit t \<and> run_reset t = run_reset s"
  using assms
  by (cases "transmit_at s")
    (auto simp: transmit_resume_def Let_def bindR_eq_Inr elim!: transmit_loop_cases split: if_splits)

lemma spi_cycle_steps:
  assumes "spi_cycle peri s = Inr t" and "\<not> run_reset s"
  shows "(spi_step peri allowed)\<^sup>*\<^sup>* s t \<and> \<not> run_reset t"
proof -
  let ?S = "(spi_step peri allowed)\<^sup>*\<^sup>*"
  obtain u where u: "(if run_transmit s then transmit_resume peri s else Inr s) = Inr u"
    using assms(1) by (auto simp: spi_cycle_def bindR_eq_Inr)
  define v where "v = (if run_intr u then update_intr (u\<lparr>run_intr := False\<rparr>) else u)"
  define w where "w = (if run_status v then update_status_reg (v\<lparr>run_status := False\<rparr>) else v)"
  have "?S s u" "\<not> run_transmit u" "\<not> run_reset u"
    using u assms(2) transmit_resume_frame [of peri s u] spi_step.transmit [of s peri u allowed]
    by (auto split: if_splits)
  moreover have "?S u v" using spi_step.intr [of u peri allowed] by (auto simp: v_def)
  moreover have "?S v w" using spi_step.status [of v peri allowed] by (auto simp: w_def)
  moreover have "\<not> runnable w"
    using \<open>\<not> run_transmit u\<close> \<open>\<not> run_reset u\<close> by (simp add: v_def w_def runnable_def)
  moreover have "run_others u = w"
    using \<open>\<not> runnable w\<close> unfolding run_others_def Let_def v_def [symmetric] w_def [symmetric]
    by (simp add: runnable_def)
  then have "t = spi_delta (reset_in w) w" using assms(1) u by (simp add: spi_cycle_def)
  moreover have "\<not> run_reset (spi_delta (reset_in w) w)" by (simp add: spi_delta_def)
  ultimately show ?thesis using spi_step.delta [of w peri allowed] by (meson rtranclp.rtrancl_into_rtrancl rtranclp_trans)
qed

lemma spi_cycles_steps:
  "spi_cycles peri n s = Inr t \<Longrightarrow> \<not> run_reset s \<Longrightarrow> (spi_step peri allowed)\<^sup>*\<^sup>* s t \<and> \<not> run_reset t"
proof (induction n arbitrary: s)
  case 0
  then show ?case by simp
next
  case (Suc n)
  then obtain u where "spi_cycle peri s = Inr u" "spi_cycles peri n u = Inr t" by (auto simp: bindR_eq_Inr)
  with Suc spi_cycle_steps [of peri s u allowed] show ?case by (meson rtranclp_trans)
qed

lemma spi_steps_invar:
  "(spi_step peri nothing_to_send)\<^sup>*\<^sup>* s t \<Longrightarrow> spi_invar s \<Longrightarrow> status_invar s \<Longrightarrow> spi_invar t \<and> status_invar t"
  by (induction rule: rtranclp_induct) (auto intro: spi_step_invar spi_step_status)

lemma spi_steps_reachable:
  "(spi_step peri allowed)\<^sup>*\<^sup>* s t \<Longrightarrow> spi_reachable peri allowed s \<Longrightarrow> spi_reachable peri allowed t"
  by (induction rule: rtranclp_induct) (auto intro: spi_reachable.step)

text \<open>A word written to an idle, enabled controller is on the wire three cycles later.\<close>

lemma send_word:
  assumes "spi_settled s" "spi_invar s" "transmit_at s = Wait_event" "reg_cr1 s AND 2 \<noteq> 0"
    and "contents (tx_fifo s) = []"
    and "exchange peri v (transmission_time s) (peri_state s) = Inr (st, w, delay)" "delay \<noteq> 0"
  shows "\<exists>s1 s2. write_reg 0x08 v s = Inr (s1, True) \<and> spi_cycles peri 3 s1 = Inr s2 \<and> spi_settled s2 \<and>
    contents (tx_fifo s2) = [] \<and> rx_fifo s2 = rx_fifo s \<and>
    transmit_at s2 = Wait_shift w (frame_mask (bits_per_frame s)) delay"
proof -
  let ?s1 = "update_status_reg (s\<lparr>reg_dr := v, tx_fifo := tx_fifo s\<lparr>written := [v]\<rparr>,
    possible_intr_event := Some Delta, transmission_event := Some Delta\<rparr>)"
  have tx: "readable (tx_fifo s) = []" "written (tx_fifo s) = []" using assms(5) by (simp_all add: contents_def)
  have "num_free (tx_fifo s) \<noteq> 0"
    using assms(1,2) tx by (auto simp: spi_settled_def fifo_quiet_def spi_invar_def fifo_invar_def num_free_def FIFO_SIZE_def)
  then have w: "write_reg 0x08 v s = Inr (?s1, True)"
    using tx by (simp add: write_reg_def Let_def fifo_write_ok)
  let ?a = "spi_delta (reset_in ?s1) ?s1"
  have "spi_cycle peri ?s1 = Inr ?a"
    using assms(1) by (simp add: spi_cycle_def run_others_def spi_settled_def runnable_def)
  then have c3: "spi_cycles peri 3 ?s1 = spi_cycles peri 2 ?a"
    using spi_cycles.simps(2) [of peri 2 ?s1] by (simp only: numeral_3_eq_3 numeral_2_eq_2 bindR_Inr)
  have "\<exists>t. spi_cycles peri 2 ?a = Inr t \<and> spi_settled t \<and> contents (tx_fifo t) = [] \<and>
      transmit_at t = Wait_shift w (frame_mask (bits_per_frame ?a)) delay \<and> rx_fifo t = rx_fifo ?a"
  proof (rule cycle_starts)
    have "transmission_time ?a = transmission_time s" by (rule transmission_time_cong) (simp_all add: spi_delta_def)
    with assms(6) show "exchange peri v (transmission_time ?a) (peri_state ?a) = Inr (st, w, delay)"
      by (simp add: spi_delta_def)
  qed (use assms tx in \<open>simp_all add: spi_delta_def spi_settled_def runnable_def fifo_quiet_def fifo_update_def\<close>)
  moreover have "bits_per_frame ?a = bits_per_frame s" by (simp add: bits_per_frame_def spi_delta_def)
  moreover have "rx_fifo ?a = rx_fifo s"
    using assms(1) by (simp add: spi_delta_def spi_settled_def fifo_quiet_def fifo_update_def)
  ultimately show ?thesis using w c3 by (metis (no_types))
qed

text \<open>The time of a frame does not wrap.\<close>

lemma transmission_time_exact:
  "unat (transmission_time s) = bits_per_frame s *
     ((if reg_cpsr s = 0 then 2 else unat (reg_cpsr s)) * (1 + unat (drop_bit 8 (reg_cr0 s) AND 0xFF)) * 10000)"
proof -
  define c :: u32 where "c = (if reg_cpsr s > 0 then ucast (reg_cpsr s) else 2)"
  define r where "r = drop_bit 8 (reg_cr0 s) AND 0xFF"
  define b where "b = bits_per_frame s"
  have "unat r \<le> unat (0xFF :: u16)"
    unfolding r_def by (intro word_le_nat_alt [THEN iffD1] word_and_le1)
  then have r: "unat r \<le> 255" by simp
  have "unat (reg_cpsr s) < 2 ^ 16" using unsigned_less [of "reg_cpsr s", where ?'a = nat] by simp
  then have c: "unat c = (if reg_cpsr s = 0 then 2 else unat (reg_cpsr s))" "unat c \<le> 65535"
    by (auto simp: c_def unsigned_ucast_eq take_bit_nat_eq_self word_greater_zero_iff)
  have b: "b \<le> 16" using bits_per_frame_range [of s] by (simp add: b_def)
  have d: "unat (1 + ucast r :: u32) = 1 + unat r"
    using r by (simp add: unat_word_ariths unsigned_ucast_eq take_bit_nat_eq_self)
  have b1: "unat c * (1 + unat r) \<le> 65535 * 256" by (rule mult_le_mono [OF c(2)]) (use r in simp)
  have e: "unat (c * (1 + ucast r)) = unat c * (1 + unat r)"
    by (intro unat_mult_small d le_less_trans [OF b1]) simp_all
  define f :: u64 where "f = ucast (c * (1 + ucast r)) * 10000"
  have b2: "unat c * (1 + unat r) * 10000 \<le> 65535 * 256 * 10000" by (rule mult_le_mono [OF b1]) simp
  have f: "unat f = unat c * (1 + unat r) * 10000" unfolding f_def
    using e by (intro unat_mult_small le_less_trans [OF b2]) (simp_all only: unat_ucast_32_64, simp_all)
  have "unat (of_nat b :: u64) = b" using b by (simp add: unat_of_nat)
  then have "unat (of_nat b * f) = b * (unat c * (1 + unat r) * 10000)"
    by (intro unat_mult_small f le_less_trans [OF mult_le_mono [OF b b2]]) simp_all
  then show ?thesis by (simp only: transmission_time_def Let_def b_def f_def c_def [symmetric] r_def c(1))
qed

lemma transmission_time_pos: "transmission_time s \<noteq> 0"
proof
  assume "transmission_time s = 0"
  then have "bits_per_frame s *
     ((if reg_cpsr s = 0 then 2 else unat (reg_cpsr s)) * (1 + unat (drop_bit 8 (reg_cr0 s) AND 0xFF)) * 10000) = 0"
    using transmission_time_exact [of s] by simp
  then show False by (auto simp: bits_per_frame_def unat_eq_zero split: if_splits)
qed

section \<open>Examples\<close>

text \<open>The controller of the test after power-on, and after \<open>SSE\<close> has been set.\<close>

definition spi_power_on :: "unit spi" where
  "spi_power_on = \<lparr>reg_cr0 = 0, reg_cr1 = 0, reg_dr = 0, reg_sr = 0, reg_cpsr = 0, reg_imsc = 0,
     reg_ris = 0, reg_mis = 0, reg_icr = 0, reg_dmacr = 0, rx_fifo = fifo_new FIFO_SIZE,
     tx_fifo = fifo_new FIFO_SIZE, transmission_event = None, possible_intr_event = None,
     status_event = None, is_transmitting = False, intr = False, reset_in = True,
     transmit_at = Wait_event, run_transmit = False, run_intr = False, run_status = False,
     run_reset = False, peri_state = ()\<rparr>"

definition spi_enabled :: "unit spi" where
  "spi_enabled = spi_power_on\<lparr>reg_cr1 := 2, reg_sr := 3, reg_ris := 8\<rparr>"

lemma dummy_exchange: "exchange dummy_peripheral v delay st = Inr ((), v OR 0xF000, delay)"
  by (simp add: exchange_def frame_payload_def dummy_peripheral_def ptr_load_def ptr_store_def)

lemma spi_cycles_numeral:
  "spi_cycles peri (numeral k) s = bindR (spi_cycle peri s) (spi_cycles peri (pred_numeral k))"
  by (simp add: numeral_eq_Suc)

lemmas spi_eval = spi_cycles_numeral spi_power_on_def spi_cycle_def run_others_def spi_delta_def update_intr_def
  update_status_reg_def handle_reset_def drain_eq transmit_resume_def transmit_loop_def fifo_update_def
  fifo_new_def num_available_def num_free_def FIFO_SIZE_def Let_def

lemma spi_reachable_cycles:
  "spi_reachable peri allowed s \<Longrightarrow> \<not> run_reset s \<Longrightarrow> spi_cycles peri n s = Inr t \<Longrightarrow> spi_reachable peri allowed t"
  using spi_cycles_steps spi_steps_reachable by blast

lemma spi_initial_reachable: "spi_reachable dummy_peripheral allowed (spi_power_on\<lparr>reg_sr := 3, reg_ris := 8\<rparr>)"
proof -
  let ?P = dummy_peripheral
  let ?a = "handle_reset (spi_power_on\<lparr>status_event := Some Delta\<rparr>)"
  have "spi_elaborated spi_power_on" by (simp add: spi_elaborated_def spi_power_on_def)
  moreover have "spi_initialize ?P spi_power_on = Inr ?a" by (simp add: spi_initialize_def spi_eval)
  ultimately have "spi_reachable ?P allowed ?a" by (rule spi_reachable.start)
  moreover have "\<not> run_reset ?a" by (simp add: spi_eval)
  moreover have "spi_cycles ?P 2 ?a = Inr (spi_power_on\<lparr>reg_sr := 3, reg_ris := 8\<rparr>)"
    by (simp add: spi_eval)
  ultimately show ?thesis by (rule spi_reachable_cycles)
qed

lemma spi_access_reachable:
  "spi_reachable peri allowed s \<Longrightarrow> probe_access spi_b_transport cmd addr dat len s = Inr (t, r) \<Longrightarrow>
     spi_reachable peri allowed t"
  by (auto simp: probe_access_def bindR_eq_Inr intro: spi_reachable.step spi_step.access)

lemma write_reg_run_reset: "write_reg off v s = Inr (s', ok) \<Longrightarrow> run_reset s' = run_reset s"
  by (auto simp: write_reg_def Let_def bindR_eq_Inr split: if_splits)

lemma spi_enabled_reachable: "spi_reachable dummy_peripheral allowed spi_enabled"
proof -
  let ?P = dummy_peripheral
  let ?a = "spi_enabled\<lparr>transmission_event := Some Delta\<rparr>"
  have "probe_access spi_b_transport TLM_WRITE_COMMAND 4 [2, 0] 2 (spi_power_on\<lparr>reg_sr := 3, reg_ris := 8\<rparr>)
      = Inr (?a, TLM_OK_RESPONSE, Some [2, 0])"
    by (simp add: probe_access_def spi_b_transport_def ptr_load_def write_reg_def spi_enabled_def Let_def)
  from spi_access_reachable [OF spi_initial_reachable this] have "spi_reachable ?P allowed ?a" .
  moreover have "\<not> run_reset ?a" by (simp add: spi_enabled_def spi_power_on_def)
  moreover have "spi_cycles ?P 3 ?a = Inr spi_enabled" by (simp add: spi_enabled_def spi_eval)
  ultimately show ?thesis by (rule spi_reachable_cycles)
qed

text \<open>Two words written in one delta cycle: the first is on the wire, the second waits.\<close>

definition spi_loaded :: "unit spi" where
  "spi_loaded = spi_enabled\<lparr>reg_dr := 6, reg_sr := 0x12, tx_fifo := (fifo_new FIFO_SIZE)\<lparr>readable := [6]\<rparr>,
     is_transmitting := True, transmit_at := Wait_shift 0xF005 1 20000\<rparr>"

lemma spi_loaded_reachable: "spi_reachable dummy_peripheral allowed spi_loaded"
proof -
  let ?P = dummy_peripheral
  let ?w = "\<lambda>ws. spi_enabled\<lparr>reg_dr := last ws, reg_sr := 0x12, tx_fifo := (fifo_new FIFO_SIZE)\<lparr>written := ws\<rparr>,
     possible_intr_event := Some Delta, transmission_event := Some Delta\<rparr>"
  note defs = probe_access_def spi_b_transport_def ptr_load_def write_reg_def spi_enabled_def fifo_write_ok spi_eval
  have "probe_access spi_b_transport TLM_WRITE_COMMAND 8 [5, 0] 2 spi_enabled = Inr (?w [5], TLM_OK_RESPONSE, Some [5, 0])"
    by (simp add: defs)
  from spi_access_reachable [OF spi_enabled_reachable this] have "spi_reachable ?P allowed (?w [5])" .
  moreover have "probe_access spi_b_transport TLM_WRITE_COMMAND 8 [6, 0] 2 (?w [5]) =
      Inr (?w [5, 6], TLM_OK_RESPONSE, Some [6, 0])"
    by (simp add: defs)
  ultimately have "spi_reachable ?P allowed (?w [5, 6])" by (rule spi_access_reachable)
  moreover have "\<not> run_reset (?w [5, 6])" by (simp add: spi_enabled_def spi_power_on_def)
  moreover have "spi_cycles ?P 3 (?w [5, 6]) = Inr spi_loaded"
    by (simp add: spi_loaded_def spi_enabled_def fifo_read_ok dummy_exchange transmission_time_def
        bits_per_frame_def frame_mask_def spi_eval)
  ultimately show ?thesis by (rule spi_reachable_cycles)
qed

lemma spi_enabled_settled: "spi_settled spi_enabled" "transmit_at spi_enabled = Wait_event"
  by (simp_all add: spi_enabled_def spi_power_on_def spi_settled_def runnable_def fifo_quiet_def fifo_new_def)

section \<open>Properties\<close>

text \<open>
  C9: the controller implements the link. In every reachable state, for any peripheral, every
  step (an access, a run of a process in any order, a delta cycle, the passing of time) either
  leaves the link as it is or is one of its steps: a word is queued only when a slot is free,
  the thread takes the oldest word when no frame is on the wire and puts the peripheral's
  masked answer there, which ends in the receive queue, or is lost exactly when that is full.
\<close>

theorem spi_refines_link:
  assumes "spi_reachable peri allowed s" and "spi_step peri allowed s t"
  shows "link_of t = link_of s \<or> (\<exists>e. link_step peri e (link_of s) (link_of t))"
  using spi_step_link [OF assms(2) spi_reachable_invar [OF assms(1)]] .

theorem spi_refines_link_witness:
  "\<exists>e. link_step dummy_peripheral e (link_of spi_enabled) (link_of (spi_delta True spi_enabled))"
proof -
  have "spi_step dummy_peripheral (\<lambda>_. True) spi_enabled (spi_delta True spi_enabled)"
    using spi_enabled_settled(1) by (intro spi_step.delta) (simp add: spi_settled_def)
  from spi_refines_link [OF spi_enabled_reachable this]
    link_step.release [of dummy_peripheral "link_of spi_enabled"]
  show ?thesis
    by (auto simp: link_of_def spi_delta_def spi_enabled_def spi_power_on_def fifo_update_def fifo_new_def)
qed

text \<open>
  C21: the status register. In every state that is settled and was reached without a reset that
  met words waiting to be sent, a read of \<open>SR\<close> answers with the fill levels of the two queues and
  the activity of the transmitter: receive queue full, not empty, transmit queue not full, empty,
  and busy. The read changes nothing and costs 20 ns.
\<close>

theorem spi_status_correct:
  assumes "spi_reachable peri nothing_to_send s" and "spi_settled s"
  shows "spi_b_transport s (fill TLM_READ_COMMAND 0x0c (Some [0, 0]) 2) delay =
    Inr (s, (fill TLM_READ_COMMAND 0x0c (Some (le_bytes 2 (status_word (length (contents (rx_fifo s)))
      (length (contents (tx_fifo s))) (is_transmitting s)))) 2)\<lparr>response_status := TLM_OK_RESPONSE\<rparr>,
      delay + 20000)"
proof -
  have "status_shown s" using settled_shown(1) [OF assms(2)] spi_reachable_status [OF assms(1)] by blast
  then show ?thesis
    by (simp add: spi_b_transport_def read_reg_def ptr_store_def status_shown_def fill_def)
qed

theorem spi_status_correct_witness:
  "\<exists>p. spi_b_transport spi_enabled (fill TLM_READ_COMMAND 0x0c (Some [0, 0]) 2) 0 = Inr (spi_enabled, p, 20000) \<and>
     data_ptr p = Some (le_bytes 2 (3 :: u16))"
  using spi_status_correct [OF spi_enabled_reachable spi_enabled_settled(1), of 0]
  by (simp add: spi_enabled_def spi_power_on_def status_word_def contents_def fifo_new_def FIFO_SIZE_def
      fill_def)

text \<open>
  C30: the interrupt line. In every reachable state that is settled with the transmitter idle, the
  line is high iff an enabled condition holds: the transmit queue at most half full, the receive
  queue at least half full, or one of the two latched conditions.
\<close>

theorem spi_interrupt_correct:
  assumes "spi_reachable peri allowed s" and "spi_settled s" and "transmit_at s = Wait_event"
  shows "intr s \<longleftrightarrow> (level_bits (length (contents (rx_fifo s))) (length (contents (tx_fifo s))) OR
    (reg_ris s AND 0x3)) AND (reg_imsc s AND 0xf) \<noteq> 0"
proof -
  have shown: "intr_shown s"
    using settled_shown(2) [OF assms(2) spi_reachable_invar [OF assms(1)] assms(3)] .
  have "reg_ris s AND (reg_imsc s AND 0xf) = ((reg_ris s AND 0xc) OR (reg_ris s AND 0x3)) AND (reg_imsc s AND 0xf)"
  proof -
    have "(reg_ris s AND 0xc) OR (reg_ris s AND 0x3) = reg_ris s AND (0xc OR 0x3)"
      by (simp only: bit.conj_disj_distrib)
    then show ?thesis by (simp add: word_bw_assocs word_bw_lcs)
  qed
  with shown show ?thesis by (simp add: intr_shown_def)
qed

theorem spi_interrupt_correct_witness: "\<not> intr spi_enabled"
  using spi_interrupt_correct [OF spi_enabled_reachable spi_enabled_settled]
  by (simp add: spi_enabled_def spi_power_on_def)

text \<open>
  C31: the transmitter never sleeps on work. In every reachable state that is settled, enabled and
  has words to send, a frame is on the wire.
\<close>

theorem spi_never_stuck:
  assumes "spi_reachable peri allowed s" and "spi_settled s" and "reg_cr1 s AND 0x2 \<noteq> 0"
    and "contents (tx_fifo s) \<noteq> []"
  shows "shifting s"
proof -
  have "transmit_at s \<noteq> Wait_event"
    using spi_reachable_invar [OF assms(1)] assms(2-4) by (auto simp: spi_invar_def spi_settled_def runnable_def)
  with assms(2) show ?thesis by (cases "transmit_at s") (simp_all add: shifting_def spi_settled_def)
qed

theorem spi_never_stuck_witness: "shifting spi_loaded"
  by (rule spi_never_stuck [OF spi_loaded_reachable [of "\<lambda>_. True"]])
    (simp_all add: spi_loaded_def spi_enabled_def spi_power_on_def spi_settled_def runnable_def
      fifo_quiet_def fifo_new_def contents_def)

text \<open>
  C15: the transfer of a frame. A word written to the data register of an idle, enabled controller
  is, three delta cycles later, on the wire with the peripheral's answer \<open>w\<close>; the time handed to
  the peripheral is the number of bits times the prescaler times one plus the clock rate, in
  units of 10 ns, without wrap-around; three delta cycles after the frame has ended the answer,
  cut to the word size, is the newest word of the receive queue, and status register and
  interrupt line show it.
\<close>

theorem spi_frame_transfer:
  assumes "spi_reachable peri nothing_to_send s" and "spi_settled s" and "transmit_at s = Wait_event"
    and "reg_cr1 s AND 0x2 \<noteq> 0" and "contents (tx_fifo s) = []" and "length (contents (rx_fifo s)) < FIFO_SIZE"
    and "exchange peri v (transmission_time s) (peri_state s) = Inr (st, w, delay)" and "delay \<noteq> 0"
  shows "unat (transmission_time s) = bits_per_frame s *
      ((if reg_cpsr s = 0 then 2 else unat (reg_cpsr s)) * (1 + unat (drop_bit 8 (reg_cr0 s) AND 0xFF)) * 10000) \<and>
    (\<exists>s1 s2 s3. probe_write spi_b_transport 0x08 (le_bytes 2 v) 2 s = Inr (s1, TLM_OK_RESPONSE, Some (le_bytes 2 v)) \<and>
      spi_cycles peri 3 s1 = Inr s2 \<and> spi_settled s2 \<and>
      transmit_at s2 = Wait_shift w (frame_mask (bits_per_frame s)) delay \<and>
      spi_cycles peri 3 (s2\<lparr>run_transmit := True\<rparr>) = Inr s3 \<and> spi_settled s3 \<and> transmit_at s3 = Wait_event \<and>
      contents (rx_fifo s3) = contents (rx_fifo s) @ [w AND frame_mask (bits_per_frame s)] \<and>
      status_shown s3 \<and> intr_shown s3)"
proof -
  note inv = spi_reachable_status [OF assms(1)]
  obtain s1 s2 where s1: "write_reg 0x08 v s = Inr (s1, True)" and s2: "spi_cycles peri 3 s1 = Inr s2" "spi_settled s2"
    "contents (tx_fifo s2) = []" "rx_fifo s2 = rx_fifo s" "transmit_at s2 = Wait_shift w (frame_mask (bits_per_frame s)) delay"
    using send_word [OF assms(2) conjunct1 [OF inv] assms(3-5,7,8)] by blast
  have w: "probe_write spi_b_transport 0x08 (le_bytes 2 v) 2 s = Inr (s1, TLM_OK_RESPONSE, Some (le_bytes 2 v))"
    using s1 by (simp add: probe_write_def probe_access_def spi_b_transport_def ptr_load_def Let_def)
  have "num_free (rx_fifo s2) \<noteq> 0"
    using assms(2,6) inv s2(4)
    by (auto simp: spi_settled_def fifo_quiet_def spi_invar_def fifo_invar_def num_free_def contents_def)
  from cycle_ends [OF s2(2,5,3) this] obtain s3 where s3: "spi_cycles peri 3 (s2\<lparr>run_transmit := True\<rparr>) = Inr s3"
    "spi_settled s3" "contents (rx_fifo s3) = contents (rx_fifo s) @ [w AND frame_mask (bits_per_frame s)]"
    "transmit_at s3 = Wait_event" using s2(4) by auto
  have "\<not> run_reset s" using assms(2) by (simp add: spi_settled_def runnable_def)
  have r1: "spi_reachable peri nothing_to_send s1"
    using spi_access_reachable [OF assms(1)] w by (auto simp: probe_write_def)
  moreover have "\<not> run_reset s1" using \<open>\<not> run_reset s\<close> write_reg_run_reset [OF s1] by simp
  ultimately have "spi_reachable peri nothing_to_send s2" using s2(1) by (rule spi_reachable_cycles)
  moreover have "spi_step peri nothing_to_send s2 (s2\<lparr>run_transmit := True\<rparr>)"
    using s2(2,5) by (intro spi_step.elapse) (simp_all add: shifting_def)
  ultimately have "spi_reachable peri nothing_to_send (s2\<lparr>run_transmit := True\<rparr>)" by (rule spi_reachable.step)
  moreover have "\<not> run_reset (s2\<lparr>run_transmit := True\<rparr>)" using s2(2) by (simp add: spi_settled_def runnable_def)
  ultimately have "spi_reachable peri nothing_to_send s3" using s3(1) by (rule spi_reachable_cycles)
  from settled_shown [OF s3(2)] spi_reachable_status [OF this] s3(4) have "status_shown s3" "intr_shown s3" by auto
  with w s2 s3 transmission_time_exact [of s] show ?thesis by blast
qed

theorem spi_frame_transfer_witness:
  "\<exists>s1 s2 s3. probe_write spi_b_transport 0x08 (le_bytes 2 (5 :: u16)) 2 spi_enabled =
      Inr (s1, TLM_OK_RESPONSE, Some (le_bytes 2 (5 :: u16))) \<and>
     spi_cycles dummy_peripheral 3 s1 = Inr s2 \<and>
     spi_cycles dummy_peripheral 3 (s2\<lparr>run_transmit := True\<rparr>) = Inr s3 \<and> contents (rx_fifo s3) = [1]"
proof -
  have "contents (tx_fifo spi_enabled) = []" "contents (rx_fifo spi_enabled) = []" "reg_cr1 spi_enabled AND 0x2 \<noteq> 0"
    "bits_per_frame spi_enabled = 1"
    by (simp_all add: spi_enabled_def spi_power_on_def contents_def fifo_new_def bits_per_frame_def)
  with spi_frame_transfer [OF spi_enabled_reachable spi_enabled_settled _ _ _ dummy_exchange transmission_time_pos, of 5]
  show ?thesis by (auto simp: frame_mask_def FIFO_SIZE_def)
qed

text \<open>
  C32: the data register. A write is accepted and queues its word when a slot is free; otherwise it
  is answered with a generic error and queues nothing. A read delivers the oldest word that has
  arrived, cut to the current word size; when there is none it answers with zero and latches the
  first interrupt condition. Neither faults.
\<close>

theorem spi_data_register:
  assumes "spi_reachable peri allowed s"
  shows "(\<exists>s' r. probe_write spi_b_transport 0x08 (le_bytes 2 v) 2 s = Inr (s', r, Some (le_bytes 2 (v :: u16))) \<and>
      (if length (contents (tx_fifo s)) + num_read (tx_fifo s) < FIFO_SIZE
       then r = TLM_OK_RESPONSE \<and> link_of s' = link_of s\<lparr>to_send := contents (tx_fifo s) @ [v]\<rparr>
       else r = TLM_GENERIC_ERROR_RESPONSE \<and> s' = s\<lparr>reg_dr := v\<rparr>)) \<and>
    (\<exists>s' w. probe_read spi_b_transport 0x08 [0, 0] 2 s = Inr (s', TLM_OK_RESPONSE, Some (le_bytes 2 w)) \<and>
      (case readable (rx_fifo s) of
         [] \<Rightarrow> w = 0 \<and> link_of s' = link_of s \<and> reg_ris s' = reg_ris s OR 1
       | x # xs \<Rightarrow> w = x AND frame_mask (bits_per_frame s) \<and>
           link_of s' = link_of s\<lparr>received := xs @ written (rx_fifo s), recv_held := Suc (num_read (rx_fifo s))\<rparr>))"
proof
  have "(num_free (tx_fifo s) \<noteq> 0) = (length (contents (tx_fifo s)) + num_read (tx_fifo s) < FIFO_SIZE)"
    using spi_reachable_invar [OF assms] by (auto simp: spi_invar_def fifo_invar_def num_free_def contents_def)
  then show "\<exists>s' r. probe_write spi_b_transport 0x08 (le_bytes 2 v) 2 s = Inr (s', r, Some (le_bytes 2 v)) \<and>
      (if length (contents (tx_fifo s)) + num_read (tx_fifo s) < FIFO_SIZE
       then r = TLM_OK_RESPONSE \<and> link_of s' = link_of s\<lparr>to_send := contents (tx_fifo s) @ [v]\<rparr>
       else r = TLM_GENERIC_ERROR_RESPONSE \<and> s' = s\<lparr>reg_dr := v\<rparr>)"
    by (auto simp: probe_write_def probe_access_def spi_b_transport_def ptr_load_def write_reg_def Let_def
        fifo_write_ok link_of_def contents_def)
next
  have "ptr_store (fill TLM_READ_COMMAND 8 (Some [0, 0]) 2) (le_bytes 2 w) =
      Inr (fill TLM_READ_COMMAND 8 (Some (le_bytes 2 w)) 2)" for w :: u16
    by (simp add: ptr_store_def fill_def)
  then show "\<exists>s' w. probe_read spi_b_transport 0x08 [0, 0] 2 s = Inr (s', TLM_OK_RESPONSE, Some (le_bytes 2 w)) \<and>
      (case readable (rx_fifo s) of
         [] \<Rightarrow> w = 0 \<and> link_of s' = link_of s \<and> reg_ris s' = reg_ris s OR 1
       | x # xs \<Rightarrow> w = x AND frame_mask (bits_per_frame s) \<and>
           link_of s' = link_of s\<lparr>received := xs @ written (rx_fifo s), recv_held := Suc (num_read (rx_fifo s))\<rparr>)"
    by (cases "readable (rx_fifo s)")
      (simp_all add: probe_read_def probe_access_def spi_b_transport_def read_reg_def num_available_def
        fifo_read_ok link_of_def contents_def)
qed

theorem spi_data_register_witness:
  "\<exists>s' w. probe_read spi_b_transport 0x08 [0, 0] 2 spi_enabled = Inr (s', TLM_OK_RESPONSE, Some (le_bytes 2 (w :: u16))) \<and>
     w = 0 \<and> reg_ris s' = 9"
proof -
  have "readable (rx_fifo spi_enabled) = []" "reg_ris spi_enabled = 8"
    by (simp_all add: spi_enabled_def spi_power_on_def fifo_new_def)
  with spi_data_register [OF spi_enabled_reachable [of "\<lambda>_. True"], of 0] show ?thesis by auto
qed

text \<open>
  A reset that meets queued words leaves a stale status. The words are discarded, but the slots
  they held become free only in the update phase, after the status has been computed, and no
  event announces that: once settled, the queue is empty and the register still says busy and
  not empty.
\<close>

lemma spi_reset_leaves_busy:
  assumes "spi_invar s" and "spi_settled s" and "transmit_at s = Wait_event" and "contents (tx_fifo s) \<noteq> []"
  shows "\<exists>t. spi_cycles peri 2 (handle_reset s) = Inr t \<and> spi_settled t \<and>
    contents (tx_fifo t) = [] \<and> \<not> is_transmitting t \<and> reg_sr t AND 0x11 = 0x10"
proof -
  let ?r = "handle_reset s"
  have "num_free (drain (tx_fifo s)) \<noteq> FIFO_SIZE"
    using assms(1,2,4)
    by (auto simp: drain_eq num_free_def contents_def spi_settled_def fifo_quiet_def spi_invar_def
        fifo_invar_def FIFO_SIZE_def neq_Nil_conv)
  then have "reg_sr ?r AND 0x11 = 0x10"
    unfolding handle_reset_def
    by (simp add: update_status_reg_def FIFO_SIZE_def word_ao_dist word_bw_assocs)
  moreover have "\<not> is_transmitting ?r" by (simp add: handle_reset_def)
  moreover have "run_intr ?r = False" "run_status ?r = False" "run_reset ?r = False" "run_transmit ?r = False"
    "transmission_event ?r = None" "status_event ?r = None"
    using assms(2) by (simp_all add: handle_reset_def spi_settled_def runnable_def)
  ultimately show ?thesis using assms(2,3)
    by (simp add: spi_cycles_numeral spi_cycle_def run_others_def spi_delta_def Let_def)
      (simp add: spi_settled_def runnable_def fifo_quiet_def fifo_update_def contents_def drain_eq)
qed

text \<open>Writes ignore the upper part of the address: 256 bytes further on is the same register.\<close>

lemma spi_write_alias:
  "write_reg (ucast (a + 0x100 :: u64)) v s = write_reg (ucast a) v s"
proof -
  have "unat (ucast (a + 0x100) :: u8) = unat (ucast a :: u8)"
    by (simp add: unsigned_ucast_eq take_bit_eq_mod unat_word_ariths mod_mod_cancel)
  then have "(ucast (a + 0x100) :: u8) = ucast a" by (simp add: word_unat_eq_iff)
  then show ?thesis by simp
qed

end
