(* ===== verification/Spi_Types.thy ===== *)
theory Spi_Types
  imports Spi_Link
begin

text \<open>
  The types of the SPI controller's registers: the fields of each register after the manual of the
  PL022 that \<open>components/spi_tlm/spi.cpp\<close> masks for, kept by every step of the controller, and what
  follows for the values a bus master reads and for the time of a frame.
\<close>

section \<open>Fields of a register\<close>

text \<open>A value whose bits lie within a mask.\<close>

definition fits :: "u16 \<Rightarrow> u16 \<Rightarrow> bool" where
  "fits m x \<longleftrightarrow> x AND m = x"

definition spi_typed :: "'p spi \<Rightarrow> bool" where
  "spi_typed s \<longleftrightarrow> fits 0xf (reg_cr1 s) \<and> fits 0x1f (reg_sr s) \<and> fits 0xfe (reg_cpsr s) \<and>
     fits 0xf (reg_imsc s) \<and> fits 0xf (reg_ris s) \<and> fits 0xf (reg_mis s) \<and> fits 0x3 (reg_icr s) \<and>
     fits 0x3 (reg_dmacr s)"

text \<open>The registers as a bus master sees them, the data register apart.\<close>

definition spi_register :: "u16 \<Rightarrow> 'p spi \<Rightarrow> u16 option" where
  "spi_register offset s =
     map_of [(0x00, reg_cr0 s), (0x04, reg_cr1 s), (0x0c, reg_sr s), (0x10, reg_cpsr s), (0x14, reg_imsc s),
       (0x18, reg_ris s), (0x1c, reg_mis s), (0x24, reg_dmacr s)] offset"

section \<open>Lemmas\<close>

lemma fits_bits: "fits m x \<longleftrightarrow> (\<forall>n. bit x n \<longrightarrow> bit m n)"
  unfolding fits_def by (metis bit_and_iff bit_eqI)

lemma fits_or [simp]: "fits m (x OR y) \<longleftrightarrow> fits m x \<and> fits m y"
  by (auto simp: fits_bits bit_simps)

lemma fits_and [simp]: "fits m x \<Longrightarrow> fits m (x AND y)" "fits m y \<Longrightarrow> fits m (x AND y)"
  by (auto simp: fits_bits bit_simps)

lemma fits_consts [simp]: "fits m 0" "fits m 1 \<longleftrightarrow> bit m 0"
    "fits (numeral a) (numeral b) \<longleftrightarrow> numeral b AND numeral a = (numeral b :: u16)"
  by (simp_all add: fits_def one_and_eq odd_iff_mod_2_eq_one bit_0)

lemma fits_if [simp]: "fits m (if b then x else y) \<longleftrightarrow> (if b then fits m x else fits m y)"
  by simp

lemma fits_le: "fits m x \<Longrightarrow> x \<le> m"
  by (metis fits_def word_and_le1)

lemma update_status_typed: "spi_typed s \<Longrightarrow> spi_typed (update_status_reg s)"
  by (simp add: spi_typed_def update_status_reg_def Let_def)

lemma update_intr_typed: "spi_typed s \<Longrightarrow> spi_typed (update_intr s)"
  by (simp add: spi_typed_def update_intr_def Let_def)

lemma handle_reset_typed: "spi_typed (handle_reset s)"
  unfolding handle_reset_def by (rule update_status_typed) (simp add: spi_typed_def)

lemma transmit_loop_typed: "transmit_loop peri s = Inr t \<Longrightarrow> spi_typed s \<Longrightarrow> spi_typed t"
  by (auto simp: transmit_loop_def Let_def bindR_eq_Inr spi_typed_def split: if_splits)

lemma transmit_resume_typed: "transmit_resume peri s = Inr t \<Longrightarrow> spi_typed s \<Longrightarrow> spi_typed t"
  by (auto simp: transmit_resume_def Let_def bindR_eq_Inr split: transmit_wait.splits if_splits
      dest!: transmit_loop_typed)
    (simp_all add: spi_typed_def)

lemma write_reg_typed: "write_reg offset v s = Inr (t, ok) \<Longrightarrow> spi_typed s \<Longrightarrow> spi_typed t"
  by (auto simp: write_reg_def Let_def bindR_eq_Inr intro!: update_status_typed split: if_splits)
    (simp_all add: spi_typed_def)

lemma read_reg_typed: "read_reg offset s = Inr (t, v) \<Longrightarrow> spi_typed s \<Longrightarrow> spi_typed t"
  by (auto simp: read_reg_def bindR_eq_Inr split: if_splits)
    (simp_all add: spi_typed_def)

lemma spi_transport_typed: "spi_b_transport s p d = Inr (t, p', d') \<Longrightarrow> spi_typed s \<Longrightarrow> spi_typed t"
  by (auto simp: spi_b_transport_def Let_def bindR_eq_Inr split: if_splits tlm_command.splits
      intro: write_reg_typed read_reg_typed)

lemma spi_delta_typed: "spi_typed s \<Longrightarrow> spi_typed (spi_delta rst s)"
  by (simp add: spi_typed_def spi_delta_def)

lemma spi_step_typed: "spi_step peri allowed s t \<Longrightarrow> spi_typed s \<Longrightarrow> spi_typed t"
proof (induction rule: spi_step.induct)
  case (access s p d s' p' d')
  then show ?case by (rule spi_transport_typed)
next
  case (transmit s s')
  then show ?case using transmit_resume_typed by blast
next
  case (intr s)
  then show ?case by (intro update_intr_typed) (simp add: spi_typed_def)
next
  case (status s)
  then show ?case by (intro update_status_typed) (simp add: spi_typed_def)
qed (simp_all add: handle_reset_typed spi_delta_typed, simp add: spi_typed_def)

lemma spi_reachable_typed: "spi_reachable peri allowed s \<Longrightarrow> spi_typed s"
proof (induction rule: spi_reachable.induct)
  case (start s0 s)
  then show ?case by (auto simp: spi_initialize_def bindR_eq_Inr handle_reset_typed)
next
  case (step s t)
  then show ?case by (blast intro: spi_step_typed)
qed

text \<open>A typed register is read as it is: the masks of \<open>read_reg\<close> take nothing away.\<close>

lemma fits_trans: "fits m x \<Longrightarrow> fits n m \<Longrightarrow> fits n x"
  by (simp add: fits_bits)

lemma typed_masks:
  assumes "spi_typed s"
  shows "reg_sr s AND 0x1f = reg_sr s" "reg_cpsr s AND 0xff = reg_cpsr s" "reg_imsc s AND 0xf = reg_imsc s"
    "reg_ris s AND 0xf = reg_ris s" "reg_mis s AND 0xf = reg_mis s" "reg_dmacr s AND 0x3 = reg_dmacr s"
proof -
  have "fits 0xfe (reg_cpsr s)" using assms by (simp add: spi_typed_def)
  then have "fits 0xff (reg_cpsr s)" by (rule fits_trans) simp
  then show "reg_cpsr s AND 0xff = reg_cpsr s" by (simp add: fits_def)
qed (use assms in \<open>simp_all add: spi_typed_def fits_def\<close>)

lemma typed_read:
  assumes "spi_typed s" and "spi_register offset s = Some v"
  shows "read_reg offset s = Inr (s, v)"
  using assms(2) typed_masks [OF assms(1)]
  by (simp add: spi_register_def split: if_splits) (simp_all add: read_reg_def)

text \<open>The frame takes from one bit at 50 MHz to 16 bits at the slowest clock.\<close>

lemma frame_time_bounds:
  assumes "spi_typed s"
  shows "20000 \<le> transmission_time s \<and> transmission_time s \<le> 10403840000"
proof -
  have cpsr: "unat (reg_cpsr s) \<le> 254" and scr: "unat (drop_bit 8 (reg_cr0 s) AND 0xFF) \<le> 255"
    using fits_le [of "0xfe" "reg_cpsr s"] fits_le [of "0xff" "drop_bit 8 (reg_cr0 s) AND 0xFF"] assms
    by (simp_all add: spi_typed_def word_le_nat_alt)
  have n: "1 \<le> bits_per_frame s" "bits_per_frame s \<le> 16"
    using fits_le [of "0xf" "reg_cr0 s AND 0xf"] by (simp_all add: bits_per_frame_def word_le_nat_alt)
  define c :: nat where "c = (if reg_cpsr s > 0 then unat (reg_cpsr s) else 2)"
  define k where "k = 1 + unat (drop_bit 8 (reg_cr0 s) AND 0xFF)"
  define t where "t = bits_per_frame s * (c * k * 10000)"
  have "reg_cpsr s \<noteq> 1" using assms by (auto simp: spi_typed_def bit_0)
  then have "unat (reg_cpsr s) \<noteq> 1" by (metis unat_1 word_unat_eq_iff)
  then have c: "2 \<le> c" "c \<le> 254" and k: "1 \<le> k" "k \<le> 256"
    using cpsr scr by (auto simp: c_def k_def word_less_nat_alt)
  have ck: "2 \<le> c * k" "c * k \<le> 65024"
    using mult_le_mono [OF c(1) k(1)] mult_le_mono [OF c(2) k(2)] by simp_all
  have t: "20000 \<le> t" "t \<le> 10403840000"
    using mult_le_mono [OF n(1) mult_le_mono1 [OF ck(1), of 10000]] mult_le_mono [OF n(2) mult_le_mono1 [OF ck(2), of 10000]]
    by (simp_all add: t_def)
  have "(if reg_cpsr s > 0 then ucast (reg_cpsr s) else 2 :: u32) = of_nat c"
    "1 + ucast (drop_bit 8 (reg_cr0 s) AND 0xFF) = (of_nat k :: u32)"
    by (simp_all add: c_def k_def)
  then have "transmission_time s = of_nat (bits_per_frame s) * (ucast (of_nat (c * k) :: u32) * 10000)"
    unfolding transmission_time_def Let_def by (simp only: of_nat_mult)
  also have "(ucast (of_nat (c * k) :: u32) :: u64) = of_nat (c * k)"
    using ck by (simp add: unsigned_of_nat take_bit_nat_eq_self del: of_nat_mult)
  finally have "transmission_time s = of_nat t" by (simp add: t_def)
  with t show ?thesis by (simp add: word_le_nat_alt unat_of_nat take_bit_nat_eq_self)
qed

section \<open>Property\<close>

text \<open>
  C23: the registers are well-typed. In every reachable state of the controller, for any
  peripheral and any interleaving of accesses, processes, resets and time, each register holds
  only bits of its fields, so that a read returns the register as it is; the clock prescaler is
  even, and the time of a frame lies between 20 ns and 10.4 ms, so that a frame never takes
  zero time and its computation in 32 bits does not wrap.
\<close>

theorem spi_registers_typed:
  assumes "spi_reachable peri allowed s"
  shows "spi_typed s \<and> (\<forall>offset v. spi_register offset s = Some v \<longrightarrow> read_reg offset s = Inr (s, v)) \<and>
    20000 \<le> transmission_time s \<and> transmission_time s \<le> 10403840000"
  using spi_reachable_typed [OF assms] by (simp add: typed_read frame_time_bounds)

theorem spi_registers_typed_witness:
  "spi_typed spi_enabled \<and> 20000 \<le> transmission_time spi_enabled"
  using spi_registers_typed [OF spi_enabled_reachable [of "\<lambda>_. True"]] by blast

end
