(* ===== verification/Spi_Words.thy ===== *)
theory Spi_Words
  imports Spi_Link "HOL-Library.Sublist"
begin

text \<open>
  The order of the words, seen from outside the SPI controller: the data written to and read from
  its data register on the bus, and the words the peripheral is handed and answers. The histories
  below record these in every interleaving of \<open>Spi\<close>, with nothing assumed of the queues between.
\<close>

section \<open>Histories\<close>

text \<open>A peripheral that keeps a record of the words it was handed and of its answers.\<close>

type_synonym 'p recorded = "'p \<times> (u16 \<times> u16) list"

definition payload_word :: "payload \<Rightarrow> u16" where
  "payload_word p = (case data_ptr p of None \<Rightarrow> 0 | Some b \<Rightarrow> le_word (take 2 b))"

definition recording :: "'p transport \<Rightarrow> 'p recorded transport" where
  "recording peri = (\<lambda>(st, hist) p delay. bindR (peri st p delay) (\<lambda>(st', q, delay').
     Inr ((st', hist @ [(payload_word p, payload_word q)]), q, delay')))"

text \<open>
  What a history tells: a word written and accepted, a word read out (a read of an empty queue is
  not one), a frame that met a full receive queue, and a reset. The bus uses 16-bit accesses.
\<close>

datatype spi_event = Written u16 | Read_out u16 | Overrun | Reset_taken

definition bus_events :: "'p spi \<Rightarrow> payload \<Rightarrow> payload \<Rightarrow> spi_event list" where
  "bus_events s p p' = (case command p of
     TLM_WRITE_COMMAND \<Rightarrow>
       if ucast (address p) = (0x08 :: u8) \<and> response_status p' = TLM_OK_RESPONSE then [Written (payload_word p)] else []
   | TLM_READ_COMMAND \<Rightarrow>
       if address p = 0x08 \<and> readable (rx_fifo s) \<noteq> [] then [Read_out (payload_word p')] else []
   | _ \<Rightarrow> [])"

inductive spi_observe :: "'p transport \<Rightarrow> 'p recorded spi \<Rightarrow> spi_event list \<Rightarrow> 'p recorded spi \<Rightarrow> bool"
  for peri :: "'p transport" where
  access: "spi_b_transport s p d = Inr (s', p', d') \<Longrightarrow> data_length p = 2 \<Longrightarrow>
    spi_observe peri s (bus_events s p p') s'"
| transmit: "run_transmit s \<Longrightarrow> transmit_resume (recording peri) s = Inr s' \<Longrightarrow>
    spi_observe peri s (if shifting s \<and> num_free (rx_fifo s) = 0 then [Overrun] else []) s'"
| intr: "run_intr s \<Longrightarrow> spi_observe peri s [] (update_intr (s\<lparr>run_intr := False\<rparr>))"
| status: "run_status s \<Longrightarrow> spi_observe peri s [] (update_status_reg (s\<lparr>run_status := False\<rparr>))"
| reset: "run_reset s \<Longrightarrow> spi_observe peri s [Reset_taken] (handle_reset (s\<lparr>run_reset := False\<rparr>))"
| delta: "\<not> runnable s \<Longrightarrow> spi_observe peri s [] (spi_delta rst s)"
| elapse: "spi_settled s \<Longrightarrow> shifting s \<Longrightarrow> spi_observe peri s [] (s\<lparr>run_transmit := True\<rparr>)"

text \<open>A history in which the software keeps the word size.\<close>

inductive spi_history :: "'p transport \<Rightarrow> 'p recorded spi \<Rightarrow> spi_event list \<Rightarrow> 'p recorded spi \<Rightarrow> bool"
  for peri :: "'p transport" and s :: "'p recorded spi" where
  start: "spi_history peri s [] s"
| step: "spi_history peri s es t \<Longrightarrow> spi_observe peri t e u \<Longrightarrow> bits_per_frame u = bits_per_frame t \<Longrightarrow>
    spi_history peri s (es @ e) u"

definition written_words :: "spi_event list \<Rightarrow> u16 list" where
  "written_words es = concat (map (\<lambda>e. case e of Written v \<Rightarrow> [v] | _ \<Rightarrow> []) es)"

definition read_words :: "spi_event list \<Rightarrow> u16 list" where
  "read_words es = concat (map (\<lambda>e. case e of Read_out v \<Rightarrow> [v] | _ \<Rightarrow> []) es)"



section \<open>Lemmas\<close>

lemma event_words [simp]:
  "written_words [] = []" "read_words [] = []"
  "written_words (es @ fs) = written_words es @ written_words fs" "read_words (es @ fs) = read_words es @ read_words fs"
  "written_words [Written v] = [v]" "written_words [Read_out v] = []" "written_words [Overrun] = []" "written_words [Reset_taken] = []"
  "read_words [Written v] = []" "read_words [Read_out v] = [v]" "read_words [Overrun] = []" "read_words [Reset_taken] = []"
  by (simp_all add: written_words_def read_words_def)

text \<open>The observed steps are the steps of \<open>Spi\<close>.\<close>

lemma spi_observe_step: "spi_observe peri s e t \<Longrightarrow> spi_step (recording peri) (\<lambda>_. True) s t"
  by (induction rule: spi_observe.induct) (auto intro: spi_step.intros)














text \<open>The word size is kept: a step that keeps it leaves only words of that size.\<close>

lemma masked_twice [simp]: "(w AND m) AND m = (w AND m :: u16)"
  by (simp add: word_bw_assocs)





section \<open>Property\<close>




end
