(* ===== verification/Spi_Settle.thy ===== *)
theory Spi_Settle
  imports Spi_Link
begin

text \<open>
  The end of delta cycles of the SPI controller: left alone by the bus, in whatever order the kernel
  runs its processes, it comes to rest, so simulation time can advance.
\<close>

section \<open>The kernel at one time\<close>

text \<open>A peripheral that answers and does not cancel the time of a frame.\<close>

definition prompt_device :: "'p transport \<Rightarrow> bool" where
  "prompt_device peri \<longleftrightarrow> (\<forall>v delay st. delay \<noteq> 0 \<longrightarrow>
     (\<exists>st' w delay'. exchange peri v delay st = Inr (st', w, delay') \<and> delay' \<noteq> 0))"

definition no_zero_shift :: "'p spi \<Rightarrow> bool" where
  "no_zero_shift s \<longleftrightarrow> (case transmit_at s of Wait_shift _ _ delay \<Rightarrow> delay \<noteq> 0 | _ \<Rightarrow> True)"

text \<open>
  Until the controller has settled: a runnable process runs, in any order, and when there is none
  the delta cycle ends, with the reset input as it is.
\<close>

inductive kernel_step :: "'p transport \<Rightarrow> 'p spi \<Rightarrow> 'p spi \<Rightarrow> bool"
  for peri :: "'p transport" where
  transmit: "run_transmit s \<Longrightarrow> transmit_resume peri s = Inr t \<Longrightarrow> kernel_step peri s t"
| intr: "run_intr s \<Longrightarrow> kernel_step peri s (update_intr (s\<lparr>run_intr := False\<rparr>))"
| status: "run_status s \<Longrightarrow> kernel_step peri s (update_status_reg (s\<lparr>run_status := False\<rparr>))"
| reset: "run_reset s \<Longrightarrow> kernel_step peri s (handle_reset (s\<lparr>run_reset := False\<rparr>))"
| delta: "\<not> runnable s \<Longrightarrow> \<not> spi_settled s \<Longrightarrow> kernel_step peri s (spi_delta (reset_in s) s)"

section \<open>The thread returns\<close>

lemma transmit_loop_returns:
  assumes "prompt_device peri"
  shows "\<exists>t. transmit_loop peri s = Inr t \<and> no_zero_shift t \<and> transmit_at t \<noteq> Wait_zero \<and>
    run_transmit t = run_transmit s \<and> transmission_event t = transmission_event s"
proof (cases "num_available (tx_fifo s) = 0 \<or> reg_cr1 s AND 0x2 = 0")
  case True
  then show ?thesis by (auto simp: transmit_loop_def no_zero_shift_def)
next
  case False
  let ?s = "s\<lparr>is_transmitting := True, status_event := Some Delta\<rparr>"
  obtain st w delay where "exchange peri (hd (readable (tx_fifo s))) (transmission_time ?s) (peri_state ?s)
      = Inr (st, w, delay)" "delay \<noteq> 0"
    using assms transmission_time_pos [of ?s] unfolding prompt_device_def by blast
  with False show ?thesis by (auto simp: transmit_loop_def fifo_read_ok no_zero_shift_def)
qed

lemma transmit_resume_returns:
  assumes "prompt_device peri" and "no_zero_shift s"
  shows "\<exists>t. transmit_resume peri s = Inr t \<and> no_zero_shift t \<and> transmission_event t = transmission_event s \<and>
    (transmit_at s = Wait_event \<or> transmit_at s = Wait_zero \<longrightarrow> transmit_at t \<noteq> Wait_zero)"
proof (cases "transmit_at s")
  case Wait_event
  with transmit_loop_returns [OF assms(1), of "s\<lparr>run_transmit := False\<rparr>"] show ?thesis
    by (auto simp: transmit_resume_def)
next
  case Wait_zero
  with transmit_loop_returns [OF assms(1), of "s\<lparr>run_transmit := False, status_event := Some Delta,
      possible_intr_event := Some Delta\<rparr>"] show ?thesis
    by (auto simp: transmit_resume_def)
next
  case (Wait_shift w m delay)
  then show ?thesis by (simp add: transmit_resume_def Let_def fifo_write_ok no_zero_shift_def)
qed

lemma spi_reachable_no_zero_shift:
  assumes "spi_reachable peri allowed s" and "prompt_device peri"
  shows "no_zero_shift s"
  using assms(1)
proof (induction rule: spi_reachable.induct)
  case (start s0 s)
  then show ?case
    using transmit_loop_returns [OF assms(2), of s0] by (auto simp: spi_initialize_def bindR_eq_Inr no_zero_shift_def)
next
  case (step s t)
  have moved: "no_zero_shift t" if "transmit_at t = transmit_at s" for t using that step(3) by (simp add: no_zero_shift_def)
  from step(2) show ?case
  proof (cases rule: spi_step.cases)
    case (access p d p' d')
    from access show ?thesis
      by (cases rule: access_cases)
        (use step(3) in \<open>auto simp: write_reg_def read_reg_def Let_def bindR_eq_Inr intro: moved split: if_splits\<close>)
  next
    case transmit
    with transmit_resume_returns [OF assms(2) step(3)] show ?thesis by auto
  qed (simp_all add: moved spi_delta_def)
qed

section \<open>The rank\<close>

text \<open>
  The processes that are still to run in this delta cycle, and the cycles: in the first anything may
  be pending; in the second no process waits for the past; in the third only the two processes
  that display the state are left.
\<close>

definition runs_left :: "'p spi \<Rightarrow> nat" where
  "runs_left s = of_bool (run_transmit s) + of_bool (run_intr s) + of_bool (run_status s) + of_bool (run_reset s)"

definition second_cycle :: "'p spi \<Rightarrow> bool" where
  "second_cycle s \<longleftrightarrow> \<not> run_reset s \<and> transmission_event s = None \<and> (transmit_at s = Wait_zero \<longrightarrow> run_transmit s) \<and>
     (run_transmit s \<longrightarrow> transmit_at s = Wait_event \<or> transmit_at s = Wait_zero)"

definition third_cycle :: "'p spi \<Rightarrow> bool" where
  "third_cycle s \<longleftrightarrow> \<not> run_reset s \<and> \<not> run_transmit s \<and> transmission_event s = None \<and> possible_intr_event s = None \<and>
     status_event s = None \<and> \<not> zero_wait (transmit_at s) \<and> fifo_quiet (rx_fifo s) \<and> fifo_quiet (tx_fifo s)"

definition settle_rank :: "'p spi \<Rightarrow> nat" where
  "settle_rank s = (if third_cycle s then 0 else if second_cycle s then 3 else 7) + runs_left s"

lemma third_second: "third_cycle s \<Longrightarrow> second_cycle s"
  by (auto simp: third_cycle_def second_cycle_def)

lemma third_settled: "third_cycle s \<Longrightarrow> \<not> runnable s \<Longrightarrow> spi_settled s"
  by (simp add: third_cycle_def spi_settled_def)

lemma settle_rank_bound: "settle_rank s \<le> 11"
  by (simp add: settle_rank_def runs_left_def)

lemma process_rank:
  assumes "runs_left t < runs_left s" and "third_cycle s \<Longrightarrow> third_cycle t" and "second_cycle s \<Longrightarrow> second_cycle t"
  shows "settle_rank t < settle_rank s"
  using assms by (auto simp: settle_rank_def)

lemma transmit_flags:
  assumes "transmit_resume peri s = Inr t"
  shows "\<not> run_transmit t \<and> run_intr t = run_intr s \<and> run_status t = run_status s \<and> run_reset t = run_reset s"
  using assms
  by (cases "transmit_at s")
    (auto simp: transmit_resume_def Let_def bindR_eq_Inr elim!: transmit_loop_cases split: if_splits)

lemma kernel_step_rank:
  assumes "prompt_device peri" and "no_zero_shift s" and "kernel_step peri s t"
  shows "no_zero_shift t \<and> settle_rank t < settle_rank s"
  using assms(3)
proof (cases rule: kernel_step.cases)
  case transmit
  have t: "no_zero_shift t" "transmission_event t = transmission_event s"
    "transmit_at s = Wait_event \<or> transmit_at s = Wait_zero \<longrightarrow> transmit_at t \<noteq> Wait_zero"
    using transmit_resume_returns [OF assms(1,2)] transmit(2) by auto
  moreover have "settle_rank t < settle_rank s"
    using transmit(1) t transmit_flags [OF transmit(2)]
    by (intro process_rank) (auto simp: runs_left_def third_cycle_def second_cycle_def)
  ultimately show ?thesis by simp
next
  case delta
  have "no_zero_shift t" using delta(1) assms(2) by (simp add: no_zero_shift_def spi_delta_def)
  moreover have "settle_rank t < settle_rank s"
  proof (cases "second_cycle s")
    case True
    then have "third_cycle t"
      using delta assms(2)
      by (auto simp: third_cycle_def second_cycle_def spi_delta_def runnable_def fifo_quiet_def fifo_update_def no_zero_shift_def
          split: transmit_wait.splits elim!: zero_wait.elims)
    moreover have "\<not> third_cycle s" using delta third_settled by blast
    ultimately show ?thesis using True by (simp add: settle_rank_def runs_left_def third_cycle_def)
  next
    case False
    have "second_cycle t"
      using delta(1) assms(2) by (auto simp: second_cycle_def spi_delta_def no_zero_shift_def elim!: zero_wait.elims)
    moreover from this have "\<not> run_reset t" by (simp add: second_cycle_def)
    ultimately show ?thesis using False third_second by (auto simp: settle_rank_def runs_left_def)
  qed
  ultimately show ?thesis by simp
next
  case reset
  then show ?thesis
    using assms(2)
    by (auto intro!: process_rank simp: runs_left_def third_cycle_def second_cycle_def no_zero_shift_def handle_reset_def)
qed (use assms(2) in \<open>auto intro!: process_rank simp: runs_left_def third_cycle_def second_cycle_def no_zero_shift_def\<close>)

lemma kernel_steps_rank:
  assumes "prompt_device peri"
  shows "(kernel_step peri ^^ n) s t \<Longrightarrow> no_zero_shift s \<Longrightarrow> no_zero_shift t \<and> settle_rank t + n \<le> settle_rank s"
proof (induction n arbitrary: t)
  case (Suc n)
  then obtain u where u: "(kernel_step peri ^^ n) s u" "kernel_step peri u t" by auto
  with Suc kernel_step_rank [OF assms, of u t] show ?case by fastforce
qed simp

lemma kernel_step_possible:
  assumes "prompt_device peri" and "no_zero_shift s" and "\<not> spi_settled s"
  shows "\<exists>t. kernel_step peri s t"
proof (cases "runnable s")
  case True
  then show ?thesis using transmit_resume_returns [OF assms(1,2)] by (auto simp: runnable_def intro: kernel_step.intros)
qed (use assms(3) in \<open>blast intro: kernel_step.delta\<close>)

section \<open>Property\<close>

text \<open>
  C22: delta cycles end. With a peripheral that answers and does not cancel the time of a frame,
  from every reachable state and in every order in which the kernel runs the processes, without
  new accesses there are at most eleven runs of processes and ends of delta cycles at the current
  time; none of them faults, and where there are no more, the controller has settled.
\<close>

theorem spi_settles:
  assumes "prompt_device peri" and "spi_reachable peri allowed s"
  shows "(\<forall>n t. (kernel_step peri ^^ n) s t \<longrightarrow> n \<le> 11) \<and>
    (\<forall>t. (kernel_step peri)\<^sup>*\<^sup>* s t \<longrightarrow> spi_settled t \<or> (\<exists>u. kernel_step peri t u)) \<and>
    (\<exists>t. (kernel_step peri)\<^sup>*\<^sup>* s t \<and> spi_settled t)"
proof -
  note z = spi_reachable_no_zero_shift [OF assms(2,1)]
  have bound: "n \<le> 11" if "(kernel_step peri ^^ n) s t" for n t
    using kernel_steps_rank [OF assms(1) that z] settle_rank_bound [of s] by simp
  have progress: "spi_settled t \<or> (\<exists>u. kernel_step peri t u)" if "(kernel_step peri)\<^sup>*\<^sup>* s t" for t
    using that kernel_steps_rank [OF assms(1) _ z] kernel_step_possible [OF assms(1)] by (metis rtranclp_imp_relpowp)
  have "\<exists>t. (kernel_step peri ^^ n) s t \<and> \<not> spi_settled t" if "\<nexists>t. (kernel_step peri)\<^sup>*\<^sup>* s t \<and> spi_settled t" for n
  proof (induction n)
    case 0
    then show ?case using that by auto
  next
    case (Suc n)
    then obtain t u where "(kernel_step peri ^^ n) s t" "kernel_step peri t u" using progress by (meson relpowp_imp_rtranclp)
    then have "(kernel_step peri ^^ Suc n) s u" by (rule relpowp_Suc_I)
    with that show ?case by (meson relpowp_imp_rtranclp)
  qed
  with bound progress show ?thesis by (metis Suc_n_not_le_n)
qed

lemma dummy_prompt: "prompt_device dummy_peripheral"
  by (simp add: prompt_device_def dummy_exchange)

theorem spi_settles_witness:
  "\<exists>t. (kernel_step dummy_peripheral)\<^sup>*\<^sup>* (spi_loaded\<lparr>run_transmit := True\<rparr>) t \<and> spi_settled t"
proof -
  have "spi_step dummy_peripheral (\<lambda>_. True) spi_loaded (spi_loaded\<lparr>run_transmit := True\<rparr>)"
    by (rule spi_step.elapse)
      (simp_all add: spi_loaded_def spi_enabled_def spi_power_on_def spi_settled_def runnable_def fifo_quiet_def fifo_new_def
        shifting_def)
  from spi_settles [OF dummy_prompt spi_reachable.step [OF spi_loaded_reachable this]] show ?thesis by blast
qed

end
