(* ===== verification/Eval_Demo.thy ===== *)
theory Eval_Demo
  imports Cpu_Eval
begin

text \<open>
  \<open>fw/timer_irq_riscv\<close> on \<open>platforms/riscv_cpu_eval\<close> with the two CPU backends: the program, the core, the
  timer and the bridge between them as one system. What the core itself does is a parameter: when a
  machine timer interrupt is pending in it, what taking it does to it, and how it changes while it
  executes instructions.
\<close>

section \<open>The system\<close>

text \<open>\<open>ed_levels\<close> are the values the timer's signal has had, which starts low.\<close>

record ('c, 'u, 't) eval_demo =
  ed_cpu :: 'c
  ed_fw :: "('u, 't) cpu_eval timer_fw"
  ed_levels :: "bool list"
  ed_main :: main_point

definition eval_boot :: "('c, 's) cpu_base \<Rightarrow> sc_time \<Rightarrow> 'u \<Rightarrow> 't \<Rightarrow> ('c, 'u, 't) eval_demo" where
  "eval_boot B gq u t = \<lparr>ed_cpu = snd (cb_construct B gq), ed_fw = \<lparr>tf_bus = cpu_eval_new u t, tf_mie = 0, tf_mstatus = 0,
     tf_mtvec = False, fired = 0\<rparr>, ed_levels = [False], ed_main = Booting\<rparr>"

definition eval_bus :: "('c, 's) cpu_base \<Rightarrow> 'u transport \<Rightarrow> 't transport \<Rightarrow> ('u, 't) cpu_eval transport" where
  "eval_bus B U T = cpu_eval_b_transport (cb_has_unified_bus B) U T"

text \<open>
  The steps: the program up to its loop, the handler when the core has the interrupt pending and
  enabled, the program after its loop, a new value of the timer's signal with the bridge it
  triggers, a change of the timer by itself, and instructions of the core.
\<close>

inductive eval_step :: "('c, 's) cpu_base \<Rightarrow> ('c \<Rightarrow> bool) \<Rightarrow> ('c \<Rightarrow> 'c) \<Rightarrow> ('c \<Rightarrow> 'c \<Rightarrow> bool) \<Rightarrow> 'u transport \<Rightarrow> 't transport \<Rightarrow>
    ('c, 'u, 't) eval_demo \<Rightarrow> ('c, 'u, 't) eval_demo \<Rightarrow> bool"
  for B pending taken exec U T where
  initialise: "ed_main s = Booting \<Longrightarrow> tf_main_init (eval_bus B U T) (ed_fw s) = Inr f \<Longrightarrow>
    eval_step B pending taken exec U T s (s\<lparr>ed_fw := f, ed_main := Waiting\<rparr>)"
| trap: "pending (ed_cpu s) \<Longrightarrow> tf_mtvec (ed_fw s) \<Longrightarrow> bit (tf_mie (ed_fw s)) 7 \<Longrightarrow> bit (tf_mstatus (ed_fw s)) 3 \<Longrightarrow>
    tf_trap_handler (eval_bus B U T) (ed_fw s) = Inr f \<Longrightarrow>
    eval_step B pending taken exec U T s (s\<lparr>ed_fw := f, ed_cpu := taken (ed_cpu s)\<rparr>)"
| leave: "ed_main s = Waiting \<Longrightarrow> tf_main_end (eval_bus B U T) (ed_fw s) = Inr f \<Longrightarrow>
    eval_step B pending taken exec U T s (s\<lparr>ed_fw := f, ed_main := Parked\<rparr>)"
| drive: "timer_irq_signal (cb_raise_irq B) (last (ed_levels s)) [level] (ed_cpu s) = Inr c \<Longrightarrow>
    eval_step B pending taken exec U T s (s\<lparr>ed_cpu := c, ed_levels := ed_levels s @ [level]\<rparr>)"
| tick: "eval_step B pending taken exec U T s (s\<lparr>ed_fw := (ed_fw s)\<lparr>tf_bus := (tf_bus (ed_fw s))\<lparr>ev_timer := t\<rparr>\<rparr>\<rparr>)"
| instr: "exec (ed_cpu s) c \<Longrightarrow> eval_step B pending taken exec U T s (s\<lparr>ed_cpu := c\<rparr>)"

text \<open>What the program has sent when its handler has run \<open>k\<close> times before it was parked and \<open>m\<close> times after.\<close>

definition sent_by :: "main_point \<Rightarrow> nat \<Rightarrow> nat \<Rightarrow> string" where
  "sent_by at k m = (if at = Booting then [] else line ''Hello from RISC-V'' @ concat (replicate k (line ''TIMER IRQ''))) @
     (if at = Parked then line ''done'' @ concat (replicate m (line ''TIMER IRQ'')) else [])"


section \<open>The core's side\<close>






definition bremen_demo :: "(((nat \<Rightarrow> bool) \<times> u32) riscv_vp_cpu, unit) cpu_base" where
  "bremen_demo = vp_backend bit_iss (\<lambda>_. False, 0)"


section \<open>Lemmas\<close>




lemma sent_by_more:
  "at \<noteq> Booting \<Longrightarrow> at \<noteq> Parked \<Longrightarrow> sent_by at (Suc k) m = sent_by at k m @ line ''TIMER IRQ''"
  "sent_by Parked k (Suc m) = sent_by Parked k m @ line ''TIMER IRQ''"
  by (simp_all add: sent_by_def flip: replicate_append_same)

text \<open>The effect of the program's parts.\<close>

lemma eval_puts:
  assumes "uart_sends U out"
  obtains u where "tf_puts (eval_bus B U T) str f = Inr (f\<lparr>tf_bus := (tf_bus f)\<lparr>ev_uart := u\<rparr>\<rparr>)"
    and "out u = out (ev_uart (tf_bus f)) @ ascii str"
proof (rule eval_uart_sends [OF assms, of "cb_has_unified_bus B" T str "tf_bus f"])
  fix u
  assume "write_uart (cpu_eval_b_transport (cb_has_unified_bus B) U T) UART_TX str (tf_bus f) = Inr ((tf_bus f)\<lparr>ev_uart := u\<rparr>)"
    and "out u = out (ev_uart (tf_bus f)) @ ascii str"
  then show thesis by (intro that) (simp_all add: tf_puts_def eval_bus_def)
qed

lemma eval_init:
  assumes "uart_sends U out" and "tf_main_init (eval_bus B U T) f = Inr g"
  shows "out (ev_uart (tf_bus g)) = out (ev_uart (tf_bus f)) @ ascii (line ''Hello from RISC-V'') \<and> fired g = fired f \<and>
    tf_mtvec g \<and> bit (tf_mie g) 7 \<and> bit (tf_mstatus g) 3"
proof -
  obtain u where u: "tf_puts (eval_bus B U T) (line ''Hello from RISC-V'') f = Inr (f\<lparr>tf_bus := (tf_bus f)\<lparr>ev_uart := u\<rparr>\<rparr>)"
    "out u = out (ev_uart (tf_bus f)) @ ascii (line ''Hello from RISC-V'')"
    by (rule eval_puts [OF assms(1)])
  with assms(2) show ?thesis
    by (auto simp: tf_main_init_def Let_def bindR_eq_Inr eval_bus_def cpu_eval_accesses MIE_MTIE_def MSTATUS_MIE_def bit_simps)
qed

lemma eval_init_runs:
  assumes "uart_sends U out" and "\<And>t. \<exists>t'. write32 T 0 1 t = Inr t'"
  shows "\<exists>g. tf_main_init (eval_bus B U T) f = Inr g"
proof -
  obtain u where u: "tf_puts (eval_bus B U T) (line ''Hello from RISC-V'') f = Inr (f\<lparr>tf_bus := (tf_bus f)\<lparr>ev_uart := u\<rparr>\<rparr>)"
    by (rule eval_puts [OF assms(1)])
  obtain t' where "write32 T 0 1 (ev_timer (tf_bus f)) = Inr t'" using assms(2) by blast
  with u show ?thesis by (simp add: tf_main_init_def Let_def eval_bus_def cpu_eval_accesses)
qed

lemma eval_handler:
  assumes "uart_sends U out"
  obtains u where "tf_trap_handler (eval_bus B U T) f = Inr (f\<lparr>tf_bus := (tf_bus f)\<lparr>ev_uart := u\<rparr>, fired := 1\<rparr>)"
    and "out u = out (ev_uart (tf_bus f)) @ ascii (line ''TIMER IRQ'')"
proof (rule eval_puts [OF assms, of B T "line ''TIMER IRQ''" f])
  fix u
  assume "tf_puts (eval_bus B U T) (line ''TIMER IRQ'') f = Inr (f\<lparr>tf_bus := (tf_bus f)\<lparr>ev_uart := u\<rparr>\<rparr>)"
    and "out u = out (ev_uart (tf_bus f)) @ ascii (line ''TIMER IRQ'')"
  then show thesis by (intro that [of u]) (simp_all add: tf_trap_handler_def)
qed

text \<open>The invariant of the program, for any backend.\<close>

definition eval_inv :: "('u \<Rightarrow> u8 list) \<Rightarrow> 'u \<Rightarrow> ('c, 'u, 't) eval_demo \<Rightarrow> nat \<Rightarrow> nat \<Rightarrow> bool" where
  "eval_inv out u s k m \<longleftrightarrow>
     out (ev_uart (tf_bus (ed_fw s))) = out u @ ascii (sent_by (ed_main s) k m) \<and>
     (fired (ed_fw s) \<noteq> 0 \<longleftrightarrow> 0 < k) \<and> (ed_main s \<noteq> Parked \<longrightarrow> m = 0) \<and> (ed_main s = Parked \<longrightarrow> 0 < k) \<and>
     (if ed_main s = Booting then k = 0 \<and> tf_mie (ed_fw s) = 0
      else tf_mtvec (ed_fw s) \<and> bit (tf_mie (ed_fw s)) 7 \<and> bit (tf_mstatus (ed_fw s)) 3) \<and> ed_levels s \<noteq> []"

lemma eval_inv_boot: "eval_inv out u (eval_boot B gq u t) 0 0"
  by (simp add: eval_inv_def eval_boot_def sent_by_def ascii_def cpu_eval_new_def)

text \<open>A step keeps it; the handler runs once more exactly when the interrupt is taken.\<close>

lemma eval_step_inv:
  assumes "uart_sends U out" and "eval_step B pending taken exec U T s t" and "eval_inv out u s k m"
  shows "(\<exists>k' m'. eval_inv out u t k' m' \<and> k' + m' = Suc (k + m) \<and> pending (ed_cpu s) \<and>
      ed_cpu t = taken (ed_cpu s) \<and> ed_levels t = ed_levels s) \<or>
    eval_inv out u t k m \<and>
      (ed_cpu t = ed_cpu s \<and> ed_levels t = ed_levels s \<or> exec (ed_cpu s) (ed_cpu t) \<and> ed_levels t = ed_levels s \<or>
       (\<exists>l. timer_irq_signal (cb_raise_irq B) (last (ed_levels s)) [l] (ed_cpu s) = Inr (ed_cpu t) \<and>
         ed_levels t = ed_levels s @ [l]))"
  using assms(2)
proof (cases rule: eval_step.cases)
  case (initialise f)
  with eval_init [OF assms(1) initialise(3)] assms(3) have "eval_inv out u t k m" by (simp add: eval_inv_def sent_by_def ascii_def)
  with initialise show ?thesis by simp
next
  case (trap f)
  obtain v where v: "f = (ed_fw s)\<lparr>tf_bus := (tf_bus (ed_fw s))\<lparr>ev_uart := v\<rparr>, fired := 1\<rparr>"
    "out v = out (ev_uart (tf_bus (ed_fw s))) @ ascii (line ''TIMER IRQ'')"
    by (rule eval_handler [OF assms(1), of B T "ed_fw s"]) (use trap in simp)
  have "ed_main s \<noteq> Booting" using trap assms(3) by (auto simp: eval_inv_def)
  then consider "ed_main s = Parked" | "ed_main s = Waiting" by (cases "ed_main s") auto
  then have "\<exists>k' m'. eval_inv out u t k' m' \<and> k' + m' = Suc (k + m)"
  proof cases
    case 1
    then have "eval_inv out u t k (Suc m)" using trap v assms(3) by (simp add: eval_inv_def sent_by_more ascii_append)
    then show ?thesis by force
  next
    case 2
    then have "eval_inv out u t (Suc k) m" using trap v assms(3) by (simp add: eval_inv_def sent_by_more ascii_append)
    then show ?thesis by force
  qed
  with trap show ?thesis by auto
next
  case (leave f)
  obtain v where v: "tf_puts (eval_bus B U T) (line ''done'') (ed_fw s) = Inr ((ed_fw s)\<lparr>tf_bus := (tf_bus (ed_fw s))\<lparr>ev_uart := v\<rparr>\<rparr>)"
    "out v = out (ev_uart (tf_bus (ed_fw s))) @ ascii (line ''done'')"
    by (rule eval_puts [OF assms(1)])
  have "eval_inv out u t k m"
    using leave v assms(3) by (auto simp: tf_main_end_def eval_inv_def sent_by_def ascii_append split: if_splits)
  with leave show ?thesis by simp
qed (use assms(3) in \<open>auto simp: eval_inv_def\<close>)





section \<open>Properties\<close>

text \<open>
  C38: the timer demo on the Bremen backend never takes its interrupt. The wrapper does not override
  \<open>raise_irq\<close>, so whatever the timer's signal does and in every interleaving, with an ISS whose
  instructions do not make the timer interrupt pending by themselves, none becomes pending: the
  program has sent at most its greeting and stays in its loop.
\<close>

theorem eval_demo_bremen_waits:
  assumes "uart_sends U out" and "\<And>c c'. exec c c' \<Longrightarrow> pending c' = pending c" and "\<not> pending (vp_new iss)"
    and "(eval_step (vp_backend ops iss) pending taken exec U T)\<^sup>*\<^sup>* (eval_boot (vp_backend ops iss) gq u t) s"
  shows "ed_main s \<noteq> Parked \<and> out (ev_uart (tf_bus (ed_fw s))) = out u @ ascii (sent_by (ed_main s) 0 0)"
proof -
  have "eval_inv out u s 0 0 \<and> \<not> pending (ed_cpu s)"
    using assms(4)
  proof (induction rule: rtranclp_induct)
    case base
    then show ?case using assms(3) eval_inv_boot [of out u "vp_backend ops iss"] by (simp add: eval_boot_def vp_backend_def vp_construct_def)
  next
    case (step s t)
    have "ed_cpu t = ed_cpu s" if "timer_irq_signal (cb_raise_irq (vp_backend ops iss)) old [l] (ed_cpu s) = Inr (ed_cpu t)" for old l
      using that by (auto simp: vp_backend_def cpu_base_raise_irq_def on_timer_irq_def split: if_splits)
    with eval_step_inv [OF assms(1) step(2) conjunct1 [OF step(3)]] step(3) assms(2) show ?case by metis
  qed
  then show ?thesis by (auto simp: eval_inv_def)
qed

theorem eval_demo_bremen_waits_witness:
  "\<exists>s. (eval_step bremen_demo (\<lambda>c. fst (vp_iss c) 7) id (\<lambda>c c'. c' = c) uart_sink word_sink)\<^sup>*\<^sup>*
       (eval_boot bremen_demo 10000 [] []) s \<and>
     ed_main s = Waiting \<and> ed_levels s = [False, True] \<and> ev_uart (tf_bus (ed_fw s)) = ascii (line ''Hello from RISC-V'')"
proof -
  let ?step = "eval_step bremen_demo (\<lambda>c. fst (vp_iss c) 7) id (\<lambda>c c'. c' = c) uart_sink word_sink"
  let ?s0 = "eval_boot bremen_demo 10000 [] []"
  obtain f where f: "tf_main_init (eval_bus bremen_demo uart_sink word_sink) (ed_fw ?s0) = Inr f"
    using eval_init_runs [OF uart_sink_sends, of word_sink bremen_demo "ed_fw ?s0"] by (auto simp: word_sink_write)
  let ?s1 = "?s0\<lparr>ed_fw := f, ed_main := Waiting\<rparr>"
  have 1: "?step ?s0 ?s1" by (rule eval_step.initialise [OF _ f]) (simp add: eval_boot_def)
  let ?s2 = "?s1\<lparr>ed_cpu := ed_cpu ?s1, ed_levels := ed_levels ?s1 @ [True]\<rparr>"
  have 2: "?step ?s1 ?s2"
    by (rule eval_step.drive) (simp add: eval_boot_def bremen_demo_def vp_backend_def cpu_base_raise_irq_def on_timer_irq_def)
  have run: "?step\<^sup>*\<^sup>* ?s0 ?s2"
    by (rule converse_rtranclp_into_rtranclp [where r = ?step, OF 1 r_into_rtranclp [where r = ?step, OF 2]])
  have "ev_uart (tf_bus (ed_fw ?s2)) = ascii (line ''Hello from RISC-V'')"
    using eval_demo_bremen_waits [OF uart_sink_sends _ _ run [unfolded bremen_demo_def]]
    by (simp add: vp_new_def sent_by_def)
  with run show ?thesis by (intro exI [of _ ?s2]) (simp add: eval_boot_def)
qed



end
