(* ===== verification/Unit_Tests.thy ===== *)
theory Unit_Tests
  imports Memory_Map Clint_Tlm Plic_Tlm Cpu_Models
begin

text \<open>
  The unit tests of the repository (\<open>components/*/tests\<close>) run against the models, with the CPUs they
  mock: each returns its exit code. Between two waits the processes of the components run as
  the kernel would run them; where two processes are due in one delta cycle, the test is run for
  both orders.
\<close>

section \<open>Test support\<close>

definition CDC_CHECK :: "bool \<Rightarrow> nat \<Rightarrow> nat" where
  "CDC_CHECK cond failures = (if cond then failures else Suc failures)"

definition probe_debug :: "'s debug_transport \<Rightarrow> tlm_command \<Rightarrow> u64 \<Rightarrow> u8 list \<Rightarrow> u32 \<Rightarrow> 's \<Rightarrow>
    ('s \<times> u32 \<times> u8 list option) res" where
  "probe_debug dbg cmd addr dat len s = bindR (dbg s (fill cmd addr (Some dat) len)) (\<lambda>(s, p, n). Inr (s, n, data_ptr p))"

text \<open>Accesses with a variable of 4 or 8 bytes as the buffer.\<close>

definition write_u32 :: "'s transport \<Rightarrow> u64 \<Rightarrow> u32 \<Rightarrow> 's \<Rightarrow> ('s \<times> tlm_response) res" where
  "write_u32 bt addr v s = bindR (probe_write bt addr (le_bytes 4 v) 4 s) (\<lambda>(s, r, _). Inr (s, r))"

definition read_u32 :: "'s transport \<Rightarrow> u64 \<Rightarrow> u32 \<Rightarrow> 's \<Rightarrow> ('s \<times> tlm_response \<times> u32) res" where
  "read_u32 bt addr v s = bindR (probe_read bt addr (le_bytes 4 v) 4 s) (\<lambda>(s, r, b).
     Inr (s, r, case b of None \<Rightarrow> v | Some bs \<Rightarrow> le_word bs))"

definition test_exit :: "nat \<Rightarrow> int" where
  "test_exit failures = (if failures = 0 then 0 else 1)"

section \<open>The tests\<close>

definition memory_test :: "int res" where
  "memory_test =
     (let ram = memory_new 0x100 False 10000; rom = memory_new 0x100 True 10000; bt = memory_b_transport; pattern = 0xCAFEBABE
      in bindR (write_u32 bt 0x10 pattern ram) (\<lambda>(ram, r1).
         bindR (read_u32 bt 0x10 0 ram) (\<lambda>(ram, r2, rb).
         let f = CDC_CHECK (rb = pattern) (CDC_CHECK (r2 = TLM_OK_RESPONSE) (CDC_CHECK (r1 = TLM_OK_RESPONSE) 0))
         in bindR (read_u32 bt 0x100 rb ram) (\<lambda>(ram, r3, rb).
            let f = CDC_CHECK (r3 = TLM_ADDRESS_ERROR_RESPONSE) f
            in bindR (write_u32 bt 0x0 pattern rom) (\<lambda>(rom, r4).
               bindR (read_u32 bt 0x0 rb rom) (\<lambda>(rom, r5, rb).
               let f = CDC_CHECK (r5 = TLM_OK_RESPONSE) (CDC_CHECK (r4 = TLM_COMMAND_ERROR_RESPONSE) f);
                   dbg_val = 0x12345678 :: u32
               in bindR (probe_debug memory_transport_dbg TLM_WRITE_COMMAND 0x20 (le_bytes 4 dbg_val) 4 ram) (\<lambda>(ram, n1, _).
                  bindR (probe_debug memory_transport_dbg TLM_READ_COMMAND 0x20 (le_bytes 4 (0 :: u32)) 4 ram) (\<lambda>(ram, n2, b).
                  Inr (test_exit (CDC_CHECK (map_option le_word b = Some dbg_val) (CDC_CHECK (n2 = 4) (CDC_CHECK (n1 = 4) f))))))))))))"

text \<open>The test of the router, with its two memories as the targets.\<close>

definition router_test :: "int res" where
  "router_test =
     (let m = memory_new 0x100 False 10000
      in bindR (add_targets (bus_router_new 2 1) [(0x1000, 0x100), (0x2000, 0x100)]) (\<lambda>(bus, socks).
         let bt = bank_b_transport bus; a = 0x11111111; b = 0x22222222
         in bindR (write_u32 bt 0x1004 a [m, m]) (\<lambda>(ms, r1).
            bindR (write_u32 bt 0x2008 b ms) (\<lambda>(ms, r2).
            bindR (read_u32 bt 0x1004 0 ms) (\<lambda>(ms, r3, v3).
            bindR (read_u32 bt 0x2008 v3 ms) (\<lambda>(ms, r4, v4).
            bindR (read_u32 bt 0x1000 0xDEADBEEF ms) (\<lambda>(ms, r5, v5).
            bindR (read_u32 bt 0x2004 0xDEADBEEF ms) (\<lambda>(ms, r6, v6).
            bindR (read_u32 bt 0x3000 v6 ms) (\<lambda>(ms, r7, v7).
            let ok = TLM_OK_RESPONSE; f = CDC_CHECK (r2 = ok) (CDC_CHECK (r1 = ok) 0);
                f = CDC_CHECK (v3 = a) (CDC_CHECK (r3 = ok) f); f = CDC_CHECK (v4 = b) (CDC_CHECK (r4 = ok) f);
                f = CDC_CHECK (v5 = 0) (CDC_CHECK (r5 = ok) f); f = CDC_CHECK (v6 = 0) (CDC_CHECK (r6 = ok) f)
            in Inr (test_exit (CDC_CHECK (r7 = TLM_ADDRESS_ERROR_RESPONSE) f)))))))))))"

text \<open>The CPU that counts the calls of the CLINT.\<close>

record counting_cpu =
  timer_asserts :: int
  timer_deasserts :: int
  sw_asserts :: int

definition counting_set_irq :: "nat \<Rightarrow> bool \<Rightarrow> counting_cpu \<Rightarrow> counting_cpu" where
  "counting_set_irq cause level c =
     (if cause = 7
      then if level then c\<lparr>timer_asserts := timer_asserts c + 1\<rparr> else c\<lparr>timer_deasserts := timer_deasserts c + 1\<rparr>
      else if cause = 3 \<and> level then c\<lparr>sw_asserts := sw_asserts c + 1\<rparr> else c)"

text \<open>
  \<open>wait(t)\<close>: the timer process runs whenever its notification is due before the end of the wait.
  Fuel bounds the wake-ups; \<open>None\<close> is a wait that does not end within it.
\<close>

fun clint_wait :: "nat \<Rightarrow> sc_time \<Rightarrow> sc_time \<Rightarrow> clint \<Rightarrow> clint option" where
  "clint_wait 0 now until c = None"
| "clint_wait (Suc n) now until c =
     (case cmp_event c of
        None \<Rightarrow> Some c
      | Some Delta \<Rightarrow> clint_wait n now until (timer_proc now c)
      | Some (Timed w) \<Rightarrow> if w < until then clint_wait n w until (timer_proc w c) else Some c)"

definition clint_test :: "nat \<Rightarrow> int res option" where
  "clint_test fuel =
     (let cpu = (\<lambda>c. replay counting_set_irq (clint_cpu c) \<lparr>timer_asserts = 0, timer_deasserts = 0, sw_asserts = 0\<rparr>);
          us = (1000000 :: sc_time); cmp = 100 :: u64
      in case probe_write (clint_b_transport 0) 0x4000 (le_bytes 8 cmp) 8 clint_new of Inl e \<Rightarrow> Some (Inl e)
         | Inr (c, r1, _) \<Rightarrow> (case clint_wait fuel 0 (50 * us) c of None \<Rightarrow> None
         | Some c \<Rightarrow> let f = CDC_CHECK (timer_asserts (cpu c) = 0) (CDC_CHECK (r1 = TLM_OK_RESPONSE) 0)
             in (case clint_wait fuel (50 * us) (150 * us) c of None \<Rightarrow> None
         | Some c \<Rightarrow> Some (
             bindR (probe_read (clint_b_transport (150 * us)) 0xBFF8 (le_bytes 8 (0 :: u64)) 8 c) (\<lambda>(c, r2, t).
             bindR (write_u32 (clint_b_transport (150 * us)) 0x0 1 c) (\<lambda>(c', r3).
             let f = CDC_CHECK (timer_asserts (cpu c) \<ge> 1) f; f = CDC_CHECK (r2 = TLM_OK_RESPONSE) f;
                 f = CDC_CHECK (case t of None \<Rightarrow> False | Some bs \<Rightarrow> (le_word bs :: u64) \<ge> cmp) f;
                 f = CDC_CHECK (r3 = TLM_OK_RESPONSE) f
             in Inr (test_exit (CDC_CHECK (sw_asserts (cpu c') = 1) f))))))))"

text \<open>
  \<open>wait(SC_ZERO_TIME)\<close> in the test of the PLIC: what is left of the current delta cycle, the update of
  the source line, and of the next delta cycle what runs before the test. A change of the line
  makes both the PLIC's method and the test due; \<open>method_first\<close> says which the kernel runs first.
\<close>

definition plic_wait :: "bool \<Rightarrow> bool \<Rightarrow> plic \<times> bool \<Rightarrow> (plic \<times> bool) res" where
  "plic_wait method_first src s =
     (case s of (c, due) \<Rightarrow>
        bindR (if due then on_sources c else Inr c) (\<lambda>c.
        let changed = (irq_in c \<noteq> [src]); c = c\<lparr>irq_in := [src]\<rparr>
        in if changed \<and> method_first then bindR (on_sources c) (\<lambda>c. Inr (c, False)) else Inr (c, changed)))"

definition plic_test :: "bool \<Rightarrow> int res" where
  "plic_test method_first =
     (let bt = plic_b_transport; cpu = (\<lambda>c. mock_meip (replay mock_set_irq (plic_cpu c) \<lparr>mock_meip = False\<rparr>));
          wait = plic_wait method_first
      in bindR (write_u32 bt 0x4 1 (plic_new 1)) (\<lambda>(c, _).
         bindR (write_u32 bt 0x2000 (push_bit 1 1) c) (\<lambda>(c, _).
         bindR (write_u32 bt 0x200000 0 c) (\<lambda>(c, _).
         bindR (wait False (c, False)) (\<lambda>(c, due).
         let f = CDC_CHECK (cpu c = False) 0
         in bindR (wait True (c, due)) (\<lambda>(c, due).
            let f = CDC_CHECK (cpu c = True) f
            in bindR (read_u32 bt 0x200004 0 c) (\<lambda>(c, r, cid).
               let f = CDC_CHECK (cid = 1) (CDC_CHECK (r = TLM_OK_RESPONSE) f)
               in bindR (wait True (c, due)) (\<lambda>(c, due).
                  let f = CDC_CHECK (cpu c = False) f
                  in bindR (wait False (c, due)) (\<lambda>(c, due).
                     bindR (write_u32 bt 0x200004 1 c) (\<lambda>(c, _).
                     bindR (wait False (c, due)) (\<lambda>(c, due).
                     Inr (test_exit (CDC_CHECK (cpu c = False) f)))))))))))))"

section \<open>Lemmas\<close>

lemma read_u32_memory:
  "read_u32 memory_b_transport a v m =
     (if unat a + 4 \<le> memory_size m then Inr (m, TLM_OK_RESPONSE, le_word (take 4 (drop (unat a) (mem_data m))))
      else Inr (m, TLM_ADDRESS_ERROR_RESPONSE, v))"
  by (simp add: read_u32_def memory_probe_read)

lemma write_u32_memory:
  assumes "unat a + 4 \<le> memory_size m"
  shows "write_u32 memory_b_transport a v m =
    (if mem_read_only m then Inr (m, TLM_COMMAND_ERROR_RESPONSE)
     else Inr (m\<lparr>mem_data := take (unat a) (mem_data m) @ le_bytes 4 v @ drop (unat a + 4) (mem_data m)\<rparr>, TLM_OK_RESPONSE))"
  using assms
  by (simp add: write_u32_def probe_write_def probe_access_def memory_b_transport_def Let_def ptr_load_def memcpy_from_def
      memcpy_to_def memory_size_def)

lemma memory_test_passes: "memory_test = Inr 0"
  by (simp add: memory_test_def read_u32_memory write_u32_memory memory_new_def memory_size_def CDC_CHECK_def test_exit_def
      probe_debug_def memory_transport_dbg_def Let_def memcpy_from_def memcpy_to_def ptr_load_def ptr_store_def)

text \<open>The map of the router's test, with its two regions.\<close>

definition test_map :: bus_router where
  "test_map = \<lparr>ranges = [\<lparr>range_base = 0x1000, range_size = 0x100\<rparr>, \<lparr>range_base = 0x2000, range_size = 0x100\<rparr>],
     n_sockets = 2, n_extra_ports = 0\<rparr>"

lemma test_map_built: "add_targets (bus_router_new 2 1) [(0x1000, 0x100), (0x2000, 0x100)] = Inr (test_map, [0, 1])"
  by (simp add: add_target_def bus_router_new_def test_map_def)

lemma test_map_accesses:
  "decode test_map a = 0 \<Longrightarrow> read_u32 (bank_b_transport test_map) a v [m0, m1] =
     bindR (read_u32 memory_b_transport (a - 0x1000) v m0) (\<lambda>(m, r, v). Inr ([m, m1], r, v))"
  "decode test_map a = 1 \<Longrightarrow> read_u32 (bank_b_transport test_map) a v [m0, m1] =
     bindR (read_u32 memory_b_transport (a - 0x2000) v m1) (\<lambda>(m, r, v). Inr ([m0, m], r, v))"
  "decode test_map a = -1 \<Longrightarrow> read_u32 (bank_b_transport test_map) a v ms = Inr (ms, TLM_ADDRESS_ERROR_RESPONSE, v)"
  "decode test_map a = 0 \<Longrightarrow> write_u32 (bank_b_transport test_map) a v [m0, m1] =
     bindR (write_u32 memory_b_transport (a - 0x1000) v m0) (\<lambda>(m, r). Inr ([m, m1], r))"
  "decode test_map a = 1 \<Longrightarrow> write_u32 (bank_b_transport test_map) a v [m0, m1] =
     bindR (write_u32 memory_b_transport (a - 0x2000) v m1) (\<lambda>(m, r). Inr ([m0, m], r))"
  by (simp_all add: read_u32_def write_u32_def probe_read_def probe_write_def probe_access_def bank_b_transport_def
      router_b_transport_def bank_targets_def numeral_2_eq_2 call_socket_def on_part_def nth_memory_def test_map_def Let_def bindR_def fill_def empty_payload_def
      split: sum.splits prod.splits)

lemma test_map_decode:
  "decode test_map 0x1004 = 0" "decode test_map 0x1000 = 0" "decode test_map 0x2008 = 1" "decode test_map 0x2004 = 1"
  "decode test_map 0x3000 = -1"
  by (simp_all add: decode_def test_map_def contains_def)

lemma le_word_zeros: "le_word (replicate n 0) = 0"
  by (induction n) simp_all

lemma router_test_passes: "router_test = Inr 0"
  by (simp add: router_test_def test_map_built test_map_accesses test_map_decode read_u32_memory write_u32_memory
      memory_new_def memory_size_def CDC_CHECK_def test_exit_def Let_def le_word_zeros del: add_targets.simps One_nat_def)

text \<open>Four rounds of fuel are enough: the compare value costs the timer process two wake-ups.\<close>

lemma clint_wait_numeral [simp]:
  "clint_wait (numeral k) now until c =
     (case cmp_event c of None \<Rightarrow> Some c
      | Some Delta \<Rightarrow> clint_wait (pred_numeral k) now until (timer_proc now c)
      | Some (Timed w) \<Rightarrow> if w < until then clint_wait (pred_numeral k) w until (timer_proc w c) else Some c)"
  by (simp add: numeral_eq_Suc)

lemma clint_test_accesses:
  "probe_write (clint_b_transport now) 0x4000 (le_bytes 8 v) 8 c =
     Inr (c\<lparr>mtimecmp := v, cmp_event := Some Delta\<rparr>, TLM_OK_RESPONSE, Some (le_bytes 8 v))"
  "probe_read (clint_b_transport now) 0xBFF8 (le_bytes 8 (0 :: u64)) 8 c =
     Inr (c, TLM_OK_RESPONSE, Some (le_bytes 8 (now_mtime now)))"
  "write_u32 (clint_b_transport now) 0 1 c = Inr (clint_set_irq kCauseSoftware True (c\<lparr>msip := 1\<rparr>), TLM_OK_RESPONSE)"
  by (simp_all add: write_u32_def probe_write_def probe_read_def probe_access_def clint_b_transport_def reg_defs Let_def ptr_load_def
      ptr_store_def slice_read_def slice_write_def memcpy_from_def memcpy_to_def notify_delta_def)

lemma clint_test_wakes:
  "timer_proc 0 (clint_new\<lparr>mtimecmp := 100, cmp_event := Some Delta\<rparr>) =
     \<lparr>mtimecmp = 100, msip = 0, cmp_event = Some (Timed 100000000), clint_cpu = [(7, False)]\<rparr>"
  "timer_proc 100000000 \<lparr>mtimecmp = 100, msip = 0, cmp_event = Some (Timed 100000000), clint_cpu = [(7, False)]\<rparr> =
     \<lparr>mtimecmp = 100, msip = 0, cmp_event = None, clint_cpu = [(7, False), (7, True)]\<rparr>"
  by (simp_all add: timer_proc_def reschedule_def clint_new_def clint_set_irq_def now_mtime_def kScaler_def kCauseTimer_def
      notify_after_def notify_delta_def notify_at_def Let_def)

lemma clint_test_passes: "clint_test 4 = Some (Inr 0)"
proof -
  have "le_word (le_bytes 8 (150 :: u64)) = (150 :: u64)" by (rule le_word_le_bytes_full) simp
  then show ?thesis
    by (simp add: clint_test_def clint_test_accesses clint_test_wakes replay_def counting_set_irq_def now_mtime_def kScaler_def
        clint_set_irq_def kCauseSoftware_def CDC_CHECK_def test_exit_def Let_def del: le_bytes.simps)
qed

lemma plic_u32:
  "plic_access addr False v c = Inr (Some (c', v')) \<Longrightarrow> write_u32 plic_b_transport addr v c = Inr (c', TLM_OK_RESPONSE)"
  "plic_access addr True 0 c = Inr (Some (c', w)) \<Longrightarrow> read_u32 plic_b_transport addr u c = Inr (c', TLM_OK_RESPONSE, w)"
  using plic_transport_access [of "fill TLM_WRITE_COMMAND addr (Some (le_bytes 4 v)) 4"]
    plic_transport_access [of "fill TLM_READ_COMMAND addr (Some (le_bytes 4 u)) 4"]
  by (simp_all add: read_u32_def write_u32_def probe_read_def probe_write_def probe_access_def)

text \<open>The PLIC of the test: its one source, and what has been told to the CPU.\<close>

definition plic_at :: "u32 \<Rightarrow> u32 \<Rightarrow> bool \<Rightarrow> bool \<Rightarrow> irq_log \<Rightarrow> plic" where
  "plic_at pr en cl l calls = \<lparr>num_sources = 1, priority = [0, pr], claimed = [False, cl], enable = en, threshold = 0,
     irq_in = [l], plic_cpu = calls\<rparr>"

lemma plic_at_wf: "plic_wf (plic_at pr en cl l calls)"
  by (simp add: plic_wf_def plic_at_def)

lemma plic_at_candidate: "any_candidate (plic_at pr en cl l calls) \<longleftrightarrow> l \<and> bit en 1 \<and> \<not> cl \<and> pr > 0"
  by (auto simp: plic_at_def any_candidate_def source_ids_def candidate_def)

lemma plic_at_update: "update_meip (plic_at pr en cl l calls) =
    Inr (plic_at pr en cl l (calls @ [(11, l \<and> bit en 1 \<and> \<not> cl \<and> pr > 0)]))"
  by (simp add: update_meip_eq [OF plic_at_wf] plic_at_candidate plic_set_irq_def kCauseExternal_def)
    (simp add: plic_at_def)

lemma plic_at_sel [simp]:
  "irq_in (plic_at pr en cl l calls) = [l]" "plic_cpu (plic_at pr en cl l calls) = calls"
  "(plic_at pr en cl l calls)\<lparr>irq_in := [l']\<rparr> = plic_at pr en cl l' calls"
  "(plic_at pr en cl l calls)\<lparr>enable := en'\<rparr> = plic_at pr en' cl l calls"
  "(plic_at pr en cl l calls)\<lparr>threshold := 0\<rparr> = plic_at pr en cl l calls"
  "(plic_at pr en cl l calls)\<lparr>priority := [0, pr']\<rparr> = plic_at pr' en cl l calls"
  "(plic_at pr en cl l calls)\<lparr>claimed := [False, cl']\<rparr> = plic_at pr en cl' l calls"
  "num_sources (plic_at pr en cl l calls) = 1" "priority (plic_at pr en cl l calls) = [0, pr]"
  "claimed (plic_at pr en cl l calls) = [False, cl]"
  by (simp_all add: plic_at_def)

lemma plic_at_writes:
  "write_u32 plic_b_transport 0x4 v (plic_at pr en cl l calls) =
     Inr (plic_at v en cl l (calls @ [(11, l \<and> bit en 1 \<and> \<not> cl \<and> v > 0)]), TLM_OK_RESPONSE)"
  "write_u32 plic_b_transport 0x2000 v (plic_at pr en cl l calls) =
     Inr (plic_at pr v cl l (calls @ [(11, l \<and> bit v 1 \<and> \<not> cl \<and> pr > 0)]), TLM_OK_RESPONSE)"
  "write_u32 plic_b_transport 0x200000 0 (plic_at pr en cl l calls) =
     Inr (plic_at pr en cl l (calls @ [(11, l \<and> bit en 1 \<and> \<not> cl \<and> pr > 0)]), TLM_OK_RESPONSE)"
  "write_u32 plic_b_transport 0x200004 1 (plic_at pr en cl l calls) =
     Inr (plic_at pr en False l (calls @ [(11, l \<and> bit en 1 \<and> pr > 0)]), TLM_OK_RESPONSE)"
  by (rule plic_u32(1), simp add: plic_access_def kPriorityBase_def kPending_def kEnable_def kThreshold_def kClaim_def
      plic_at_update vec_put_def)+

lemma plic_at_claim:
  assumes "l" and "bit en 1" and "\<not> cl" and "pr > 0"
  shows "read_u32 plic_b_transport 0x200004 v (plic_at pr en cl l calls) =
    Inr (plic_at pr en True l (calls @ [(11, False)]), TLM_OK_RESPONSE, 1)"
proof (rule plic_u32(2))
  have "do_claim (plic_at pr en cl l calls) = Inr (plic_at pr en True l (calls @ [(11, False)]), 1)"
    using assms by (simp add: do_claim_def source_ids_def eligible_def bit_iff_odd_drop_bit and_one_eq odd_iff_mod_2_eq_one plic_at_update vec_put_def vec_at_def) (simp add: plic_at_def)
  then show "plic_access 0x200004 True 0 (plic_at pr en cl l calls) =
      Inr (Some (plic_at pr en True l (calls @ [(11, False)]), 1))"
    by (simp add: plic_access_def kPriorityBase_def kPending_def kEnable_def kThreshold_def kClaim_def)
qed

lemma plic_test_runs:
  "plic_test True = Inr 0" "plic_test False = Inr 1"
proof -
  have new: "plic_new 1 = plic_at 0 0 False False []" by (simp add: plic_new_def plic_at_def) (simp add: numeral_2_eq_2)
  show "plic_test True = Inr 0" "plic_test False = Inr 1"
    by (simp_all add: plic_test_def new plic_at_writes plic_at_claim plic_wait_def on_sources_def plic_at_update replay_def mock_set_irq_def
        bit_numeral_rec CDC_CHECK_def test_exit_def Let_def)
qed

section \<open>Property\<close>

text \<open>
  The unit tests of the memory, the router and the CLINT pass. That of the PLIC passes when the
  kernel runs the PLIC's method before the test in the delta cycle that makes both due, and fails
  when it runs them in the other order, which SystemC leaves open.
\<close>

lemma unit_tests_pass:
  "memory_test = Inr 0 \<and> router_test = Inr 0 \<and> clint_test 4 = Some (Inr 0) \<and> plic_test True = Inr 0 \<and> plic_test False = Inr 1"
  by (intro conjI memory_test_passes router_test_passes clint_test_passes plic_test_runs)

end
