(* ===== verification/Watchdog.thy ===== *)
theory Watchdog
  imports Systemc
begin

text \<open>
  \<open>components/wdt_tlm\<close>: the SP805 watchdog and its functional test. The record is the class
  \<open>watchdog\<close> with its event and the values it has driven on its two outputs; the definitions are
  its member functions, with \<open>wdt_tick\<close> one round of \<open>counter_thread\<close>. \<open>wdt_step\<close> interleaves bus
  accesses, ticks and activations of \<open>drive_outputs\<close>; \<open>wdt_testbench\<close> is \<open>Testbench::run\<close>.
  The messages printed on the console are not part of the model.
\<close>

section \<open>The module\<close>

definition WDOG_LOAD :: u32 where [reg_defs]: "WDOG_LOAD = 0x000"
definition WDOG_VALUE :: u32 where [reg_defs]: "WDOG_VALUE = 0x004"
definition WDOG_CONTROL :: u32 where [reg_defs]: "WDOG_CONTROL = 0x008"
definition WDOG_INTCLR :: u32 where [reg_defs]: "WDOG_INTCLR = 0x00C"
definition WDOG_RIS :: u32 where [reg_defs]: "WDOG_RIS = 0x010"
definition WDOG_MIS :: u32 where [reg_defs]: "WDOG_MIS = 0x014"
definition WDOG_LOCK :: u32 where [reg_defs]: "WDOG_LOCK = 0xC00"

text \<open>The identification registers and their values.\<close>

definition wdog_ids :: "(u32 \<times> u32) list" where
  "wdog_ids = [(0xFE0, 0x05), (0xFE4, 0x18), (0xFE8, 0x14), (0xFEC, 0x00),
     (0xFF0, 0x0D), (0xFF4, 0xF0), (0xFF8, 0x05), (0xFFC, 0xB1)]"

definition CTRL_INTEN :: u32 where [reg_defs]: "CTRL_INTEN = 1"
definition CTRL_RESEN :: u32 where [reg_defs]: "CTRL_RESEN = 2"
definition CONTROL_WRITABLE_MASK :: u32 where [reg_defs]: "CONTROL_WRITABLE_MASK = CTRL_INTEN OR CTRL_RESEN"
definition RIS_ASSERTED :: u32 where [reg_defs]: "RIS_ASSERTED = 1"
definition LOCK_UNLOCK_VALUE :: u32 where [reg_defs]: "LOCK_UNLOCK_VALUE = 0x1ACCE551"

record watchdog =
  m_load :: u32
  m_counter :: u32
  m_control :: u32
  m_ris :: u32
  m_mis :: u32
  m_locked :: bool
  m_reset_asserted :: bool
  m_irq_level :: bool
  m_reset_level :: bool
  m_output_changed :: sc_event
  wdt_irq :: bool
  reset_o :: bool

definition watchdog_new :: watchdog where
  "watchdog_new = \<lparr>m_load = 0xFFFFFFFF, m_counter = 0xFFFFFFFF, m_control = 0, m_ris = 0,
     m_mis = 0, m_locked = False, m_reset_asserted = False, m_irq_level = False,
     m_reset_level = False, m_output_changed = None, wdt_irq = False, reset_o = False\<rparr>"

definition interrupt_enabled :: "watchdog \<Rightarrow> bool" where
  "interrupt_enabled w \<longleftrightarrow> m_control w AND CTRL_INTEN \<noteq> 0"

definition reset_enabled :: "watchdog \<Rightarrow> bool" where
  "reset_enabled w \<longleftrightarrow> m_control w AND CTRL_RESEN \<noteq> 0"

definition reload_counter :: "watchdog \<Rightarrow> watchdog" where
  "reload_counter w = w\<lparr>m_counter := m_load w\<rparr>"

definition update_outputs :: "watchdog \<Rightarrow> watchdog" where
  "update_outputs w =
     (let mis = (if m_ris w AND RIS_ASSERTED \<noteq> 0 \<and> interrupt_enabled w then RIS_ASSERTED else 0)
      in w\<lparr>m_mis := mis, m_irq_level := (mis AND RIS_ASSERTED \<noteq> 0),
           m_reset_level := m_reset_asserted w,
           m_output_changed := notify_delta (m_output_changed w)\<rparr>)"

definition clear_interrupt :: "watchdog \<Rightarrow> watchdog" where
  "clear_interrupt w = update_outputs (reload_counter (w\<lparr>m_ris := 0\<rparr>))"

definition handle_timeout :: "watchdog \<Rightarrow> watchdog" where
  "handle_timeout w =
     (if m_ris w AND RIS_ASSERTED \<noteq> 0
      then if reset_enabled w then update_outputs (w\<lparr>m_reset_asserted := True\<rparr>)
           else reload_counter w
      else reload_counter (update_outputs (w\<lparr>m_ris := RIS_ASSERTED\<rparr>)))"

definition drive_outputs :: "watchdog \<Rightarrow> watchdog" where
  "drive_outputs w = w\<lparr>wdt_irq := m_irq_level w, reset_o := m_reset_level w\<rparr>"

text \<open>One round of the loop of \<open>counter_thread\<close>, after its \<open>wait(m_tick_period)\<close>.\<close>

definition wdt_tick :: "watchdog \<Rightarrow> watchdog" where
  "wdt_tick w =
     (if \<not> interrupt_enabled w \<or> m_reset_asserted w then w
      else if m_counter w = 0 then handle_timeout w
      else w\<lparr>m_counter := m_counter w - 1\<rparr>)"

definition wdt_read_reg :: "u32 \<Rightarrow> watchdog \<Rightarrow> watchdog \<times> u32" where
  "wdt_read_reg addr w =
     (let w = update_outputs w
      in (w, if addr = WDOG_LOAD then m_load w
             else if addr = WDOG_VALUE then m_counter w
             else if addr = WDOG_CONTROL then m_control w
             else if addr = WDOG_INTCLR then 0
             else if addr = WDOG_RIS then m_ris w AND RIS_ASSERTED
             else if addr = WDOG_MIS then m_mis w AND RIS_ASSERTED
             else if addr = WDOG_LOCK then (if m_locked w then 1 else 0)
             else case map_of wdog_ids addr of Some v \<Rightarrow> v | None \<Rightarrow> 0))"

definition wdt_write_reg :: "u32 \<Rightarrow> u32 \<Rightarrow> watchdog \<Rightarrow> watchdog" where
  "wdt_write_reg addr dat w =
     (if addr = WDOG_LOCK then w\<lparr>m_locked := (dat \<noteq> LOCK_UNLOCK_VALUE)\<rparr>
      else if m_locked w then w
      else if addr = WDOG_LOAD then reload_counter (w\<lparr>m_load := dat\<rparr>)
      else if addr = WDOG_CONTROL
      then let was_enabled = interrupt_enabled w;
               w = w\<lparr>m_control := dat AND CONTROL_WRITABLE_MASK\<rparr>;
               w = (if \<not> was_enabled \<and> interrupt_enabled w \<and> \<not> m_reset_asserted w
                    then reload_counter w else w)
           in update_outputs w
      else if addr = WDOG_INTCLR then clear_interrupt w
      else w)"

definition load_u32_le :: "payload \<Rightarrow> u32 res" where
  [simp]: "load_u32_le p = bindR (ptr_load p 4) (\<lambda>bs. Inr (le_word bs))"

definition store_u32_le :: "payload \<Rightarrow> u32 \<Rightarrow> payload res" where
  [simp]: "store_u32_le p v = ptr_store p (le_bytes 4 v)"

definition wdt_b_transport :: "watchdog transport" where
  "wdt_b_transport w p delay =
     (let respond = (\<lambda>r w q. Inr (w, q\<lparr>response_status := r\<rparr>, delay))
      in if byte_enable_ptr p \<noteq> None then respond TLM_BYTE_ENABLE_ERROR_RESPONSE w p
         else if data_length p < 4 then respond TLM_BURST_ERROR_RESPONSE w p
         else let addr = ucast (address p AND 0xFFF)
         in if data_ptr p = None then respond TLM_GENERIC_ERROR_RESPONSE w p
         else case command p of
           TLM_READ_COMMAND \<Rightarrow>
             (let (w', v) = wdt_read_reg addr w
              in bindR (store_u32_le p v) (respond TLM_OK_RESPONSE w'))
         | TLM_WRITE_COMMAND \<Rightarrow>
             bindR (load_u32_le p) (\<lambda>v. respond TLM_OK_RESPONSE (wdt_write_reg addr v w) p)
         | TLM_IGNORE_COMMAND \<Rightarrow> respond TLM_COMMAND_ERROR_RESPONSE w p)"

text \<open>The activation of \<open>drive_outputs\<close> that a pending notification causes.\<close>

definition wdt_deliver :: "watchdog \<Rightarrow> watchdog" where
  "wdt_deliver w = (if m_output_changed w = None then w
     else drive_outputs (w\<lparr>m_output_changed := None\<rparr>))"

section \<open>The module in a simulation\<close>

inductive wdt_step :: "watchdog \<Rightarrow> watchdog \<Rightarrow> bool" where
  access: "wdt_b_transport w p d = Inr (w', p', d') \<Longrightarrow> wdt_step w w'"
| tick: "wdt_step w (wdt_tick w)"
| deliver: "m_output_changed w \<noteq> None \<Longrightarrow> wdt_step w (wdt_deliver w)"

inductive wdt_steps :: "watchdog \<Rightarrow> watchdog \<Rightarrow> bool" for w where
  refl: "wdt_steps w w"
| step: "wdt_steps w v \<Longrightarrow> wdt_step v u \<Longrightarrow> wdt_steps w u"

text \<open>What holds in every state: register ranges, and outputs that follow the registers.\<close>

definition wdt_invar :: "watchdog \<Rightarrow> bool" where
  "wdt_invar w \<longleftrightarrow> m_ris w \<in> {0, 1} \<and> m_control w AND 3 = m_control w \<and> m_counter w \<le> m_load w \<and>
     m_mis w = (if m_ris w = 1 \<and> interrupt_enabled w then 1 else 0) \<and>
     m_irq_level w = (m_mis w = 1) \<and> m_reset_level w = m_reset_asserted w \<and>
     (m_output_changed w = None \<longrightarrow> wdt_irq w = m_irq_level w \<and> reset_o w = m_reset_level w)"

text \<open>What the lock protects.\<close>

definition wdt_config :: "watchdog \<Rightarrow> u32 \<times> u32 \<times> u32 \<times> u32 \<times> bool \<times> bool" where
  "wdt_config w = (m_load w, m_counter w, m_control w, m_ris w, m_reset_asserted w, m_locked w)"

text \<open>The write that opens the lock.\<close>

definition unlocks :: "payload \<Rightarrow> bool" where
  "unlocks p \<longleftrightarrow> command p = TLM_WRITE_COMMAND \<and> address p AND 0xFFF = 0xC00 \<and>
     (case data_ptr p of None \<Rightarrow> False | Some b \<Rightarrow> le_word (take 4 b) = LOCK_UNLOCK_VALUE)"

section \<open>Lemmas\<close>

text \<open>
  What each member function does to the fields the others leave alone; the selectors of the
  updated record are computed by \<open>wdt_simps\<close>.
\<close>

lemmas wdt_simps = update_outputs_def reload_counter_def clear_interrupt_def handle_timeout_def
  drive_outputs_def Let_def interrupt_enabled_def reset_enabled_def

lemma control_mask: "(x AND CONTROL_WRITABLE_MASK) AND 3 = x AND CONTROL_WRITABLE_MASK"
  by (simp add: reg_defs and.assoc)

lemma update_outputs_invar:
  assumes "m_ris w \<in> {0, 1}" "m_control w AND 3 = m_control w" "m_counter w \<le> m_load w"
  shows "wdt_invar (update_outputs w)"
  using assms
  by (auto simp: wdt_invar_def update_outputs_def interrupt_enabled_def Let_def reg_defs notify_delta_def)

lemma wdt_tick_invar: "wdt_invar w \<Longrightarrow> wdt_invar (wdt_tick w)"
proof -
  assume a: "wdt_invar w"
  have dec: "m_counter w - 1 \<le> m_load w" if "m_counter w \<noteq> 0"
    using that a unat_minus_one [of "m_counter w"]
    by (auto simp: wdt_invar_def word_le_nat_alt)
  have timeout: "wdt_invar (handle_timeout w)"
    using a update_outputs_invar [of "w\<lparr>m_reset_asserted := True\<rparr>"]
      update_outputs_invar [of "w\<lparr>m_ris := RIS_ASSERTED\<rparr>"]
    by (auto simp: handle_timeout_def reload_counter_def wdt_invar_def interrupt_enabled_def
        update_outputs_def Let_def reg_defs)
  show ?thesis
    using a dec timeout
    by (auto simp: wdt_tick_def wdt_invar_def interrupt_enabled_def)
qed

lemma wdt_write_reg_invar: "wdt_invar w \<Longrightarrow> wdt_invar (wdt_write_reg addr dat w)"
  by (auto simp: wdt_write_reg_def clear_interrupt_def reload_counter_def Let_def control_mask
      intro!: update_outputs_invar)
    (auto simp: wdt_invar_def interrupt_enabled_def)

lemma wdt_read_reg_invar: "wdt_invar w \<Longrightarrow> wdt_invar (fst (wdt_read_reg addr w))"
  unfolding wdt_read_reg_def Let_def fst_conv
  by (rule update_outputs_invar) (simp_all add: wdt_invar_def)

lemma wdt_transport_invar:
  assumes "wdt_b_transport w p d = Inr (w', p', d')" and "wdt_invar w"
  shows "wdt_invar w'"
  using assms wdt_write_reg_invar [of w] wdt_read_reg_invar [of w]
  by (auto simp: wdt_b_transport_def Let_def bindR_eq_Inr
      split: if_splits tlm_command.splits prod.splits) (metis fst_conv)

lemma wdt_step_invar: "wdt_step w v \<Longrightarrow> wdt_invar w \<Longrightarrow> wdt_invar v"
proof (induction rule: wdt_step.induct)
  case (access w p d w' p' d')
  then show ?case by (rule wdt_transport_invar)
next
  case (tick w)
  then show ?case by (rule wdt_tick_invar)
next
  case (deliver w)
  then show ?case by (auto simp: wdt_deliver_def drive_outputs_def wdt_invar_def interrupt_enabled_def)
qed

lemma wdt_steps_invar: "wdt_steps w v \<Longrightarrow> wdt_invar w \<Longrightarrow> wdt_invar v"
  by (induction rule: wdt_steps.induct) (auto intro: wdt_step_invar)

lemma watchdog_new_invar: "wdt_invar watchdog_new"
  by (simp add: watchdog_new_def wdt_invar_def interrupt_enabled_def)

lemma wdt_good_outcome:
  assumes "wdt_invar w" and "wf_payload p"
  shows "good_outcome wdt_invar p (wdt_b_transport w p d)"
proof (cases "data_ptr p")
  case None
  then show ?thesis using assms by (simp add: wdt_b_transport_def Let_def)
next
  case (Some b)
  then have len: "length b = unat (data_length p)" using assms(2) by (simp add: wf_payload_def)
  have "4 \<le> length b" if "\<not> data_length p < 4"
    using that len by (simp add: word_less_nat_alt)
  then show ?thesis
    using Some assms wdt_write_reg_invar [OF assms(1)] wdt_read_reg_invar [OF assms(1)]
    by (auto simp: wdt_b_transport_def Let_def ptr_store_def ptr_load_def memcpy_to_def
        memcpy_from_def same_attrs_def split: tlm_command.splits prod.splits) (metis fst_conv)
qed

interpretation wdt: tlm_target wdt_b_transport wdt_invar wf_payload
  by (rule tlm_targetI) (rule wdt_good_outcome)

text \<open>Counting down: as long as the counter does not pass zero, nothing else changes.\<close>

lemma wdt_countdown:
  assumes "interrupt_enabled w" and "\<not> m_reset_asserted w" and "k \<le> unat (m_counter w)"
  shows "(wdt_tick ^^ k) w = w\<lparr>m_counter := m_counter w - of_nat k\<rparr>"
  using assms(3)
proof (induction k)
  case 0
  then show ?case by simp
next
  case (Suc k)
  have "unat (m_counter w) < 2 ^ 32" using unsigned_less [of "m_counter w", where ?'a = nat] by simp
  with Suc.prems have "unat (of_nat k :: u32) = k" by (simp add: unat_of_nat)
  with Suc.prems have "m_counter w \<noteq> of_nat k" by auto
  moreover have "m_counter w - of_nat k - 1 = m_counter w - (1 + of_nat k)" by simp
  ultimately show ?case
    using Suc assms(1,2) by (simp add: wdt_tick_def interrupt_enabled_def)
qed

text \<open>The tick after the counter has run down is the timeout.\<close>

lemma wdt_expire:
  assumes "interrupt_enabled w" and "\<not> m_reset_asserted w"
  shows "(wdt_tick ^^ Suc (unat (m_counter w))) w = handle_timeout (w\<lparr>m_counter := 0\<rparr>)"
proof -
  have "(wdt_tick ^^ unat (m_counter w)) w = w\<lparr>m_counter := 0\<rparr>"
    using wdt_countdown [OF assms order_refl] by simp
  then show ?thesis using assms by (simp add: wdt_tick_def interrupt_enabled_def)
qed

text \<open>The state after the first timeout.\<close>

definition wdt_interrupted :: "watchdog \<Rightarrow> watchdog" where
  "wdt_interrupted w = reload_counter (update_outputs (w\<lparr>m_counter := 0, m_ris := RIS_ASSERTED\<rparr>))"

lemma wdt_first_timeout:
  assumes "interrupt_enabled w" "\<not> m_reset_asserted w" "m_ris w = 0"
  shows "(wdt_tick ^^ Suc (unat (m_counter w))) w = wdt_interrupted w"
  using wdt_expire [OF assms(1,2)] assms(3)
  by (simp add: handle_timeout_def wdt_interrupted_def)

lemma wdt_interrupted_sel [simp]:
  "m_load (wdt_interrupted w) = m_load w" "m_counter (wdt_interrupted w) = m_load w"
  "m_ris (wdt_interrupted w) = 1" "m_control (wdt_interrupted w) = m_control w"
  "m_reset_asserted (wdt_interrupted w) = m_reset_asserted w" "m_locked (wdt_interrupted w) = m_locked w"
  "interrupt_enabled (wdt_interrupted w) = interrupt_enabled w"
  "reset_enabled (wdt_interrupted w) = reset_enabled w"
  "m_irq_level (wdt_interrupted w) = interrupt_enabled w"
  by (simp_all add: wdt_interrupted_def wdt_simps reg_defs)

text \<open>No reset before both countdowns are over.\<close>

lemma wdt_ticks_before_reset:
  assumes "interrupt_enabled w" "\<not> m_reset_asserted w" "m_ris w = 0"
    and "k < Suc (unat (m_counter w)) + Suc (unat (m_load w))"
  shows "\<not> m_reset_asserted ((wdt_tick ^^ k) w) \<and> m_control ((wdt_tick ^^ k) w) = m_control w \<and>
    m_load ((wdt_tick ^^ k) w) = m_load w \<and> m_locked ((wdt_tick ^^ k) w) = m_locked w"
proof (cases "k \<le> unat (m_counter w)")
  case True
  then show ?thesis using wdt_countdown [OF assms(1,2)] assms(2) by simp
next
  case False
  define j where "j = k - Suc (unat (m_counter w))"
  have k: "k = j + Suc (unat (m_counter w))" and j: "j \<le> unat (m_load w)"
    using False assms(4) by (simp_all add: j_def)
  have "(wdt_tick ^^ k) w = (wdt_tick ^^ j) (wdt_interrupted w)"
    using wdt_first_timeout [OF assms(1-3)] by (simp only: k funpow_add comp_apply)
  also have "\<dots> = (wdt_interrupted w)\<lparr>m_counter := m_load w - of_nat j\<rparr>"
    using wdt_countdown [of "wdt_interrupted w" j] assms(1,2) j by simp
  finally show ?thesis using assms(2) by simp
qed

text \<open>Servicing the watchdog: the write to \<open>WdogIntClr\<close>.\<close>

definition wdt_kick :: "watchdog \<Rightarrow> watchdog" where
  "wdt_kick w = wdt_write_reg WDOG_INTCLR 0 w"

definition wdt_round :: "nat \<Rightarrow> watchdog \<Rightarrow> watchdog" where
  "wdt_round k w = wdt_kick ((wdt_tick ^^ k) w)"

lemma wdt_kick_sel:
  assumes "\<not> m_locked w"
  shows "m_ris (wdt_kick w) = 0" "m_counter (wdt_kick w) = m_load w" "m_load (wdt_kick w) = m_load w"
    "m_control (wdt_kick w) = m_control w" "m_reset_asserted (wdt_kick w) = m_reset_asserted w"
    "m_locked (wdt_kick w) = m_locked w"
  using assms by (simp_all add: wdt_kick_def wdt_write_reg_def wdt_simps reg_defs)

text \<open>A reset is never withdrawn.\<close>

lemma wdt_write_reg_reset: "m_reset_asserted (wdt_write_reg addr dat w) = m_reset_asserted w"
  by (simp add: wdt_write_reg_def wdt_simps)

lemma wdt_transport_reset:
  assumes "wdt_b_transport w p d = Inr (w', p', d')"
  shows "m_reset_asserted w' = m_reset_asserted w"
proof -
  have r: "m_reset_asserted (fst (wdt_read_reg addr w)) = m_reset_asserted w" for addr
    by (simp only: wdt_read_reg_def Let_def fst_conv) (simp add: update_outputs_def Let_def)
  show ?thesis
    using assms r
    by (auto simp: wdt_b_transport_def Let_def bindR_eq_Inr wdt_write_reg_reset
        split: if_splits tlm_command.splits prod.splits) (metis fst_conv)+
qed

lemma wdt_steps_reset: "wdt_steps w v \<Longrightarrow> m_reset_asserted w \<Longrightarrow> m_reset_asserted v"
proof (induction rule: wdt_steps.induct)
  case (step v u)
  from step.hyps(2) step.IH [OF step.prems] show ?case
    by (cases rule: wdt_step.cases)
      (auto dest: wdt_transport_reset simp: wdt_tick_def wdt_deliver_def drive_outputs_def)
qed simp

text \<open>While locked, an access that is not the unlocking one leaves the configuration.\<close>

lemma wdt_addr_lock: "ucast (a AND 0xFFF) = WDOG_LOCK \<longleftrightarrow> (a :: u64) AND 0xFFF = 0xC00"
proof -
  have "a AND 0xFFF \<le> 0xFFF" by (rule word_and_le1)
  then have "unat (a AND 0xFFF) < 2 ^ 32" by (simp add: word_le_nat_alt)
  then have "unat (ucast (a AND 0xFFF) :: u32) = unat (a AND 0xFFF)"
    by (simp add: unsigned_ucast_eq take_bit_nat_eq_self)
  then show ?thesis by (auto simp: reg_defs word_unat_eq_iff)
qed

lemma wdt_locked_access:
  assumes "m_locked w" and "\<not> unlocks p" and "wdt_b_transport w p d = Inr (w', p', d')"
  shows "wdt_config w' = wdt_config w"
proof -
  have r: "wdt_config (fst (wdt_read_reg addr w)) = wdt_config w" for addr
    by (simp only: wdt_read_reg_def Let_def fst_conv) (simp add: wdt_config_def update_outputs_def Let_def)
  have "wdt_config (wdt_write_reg (ucast (address p AND 0xFFF)) (le_word bs) w) = wdt_config w"
    if "command p = TLM_WRITE_COMMAND" "ptr_load p 4 = Inr bs" for bs
    using that assms(1,2)
    by (auto simp: wdt_write_reg_def wdt_addr_lock unlocks_def ptr_load_eq_Inr wdt_config_def)
  with assms(3) r show ?thesis
    by (auto simp: wdt_b_transport_def Let_def bindR_eq_Inr
        split: if_splits tlm_command.splits prod.splits) (metis fst_conv)
qed

lemma wdt_locked_run:
  assumes "wdt_invar w" and "m_locked w" and "\<forall>p \<in> set ps. wf_payload p \<and> \<not> unlocks p"
  shows "\<exists>w' rs. run_transport wdt_b_transport ps w = Inr (w', rs) \<and> wdt_config w' = wdt_config w"
  using assms
proof (induction ps arbitrary: w)
  case Nil
  then show ?case by simp
next
  case (Cons p ps)
  then obtain w1 p' d' where step: "wdt_b_transport w p 0 = Inr (w1, p', d')" "wdt_invar w1"
    by (metis list.set_intros(1) wdt.transportE)
  then have cfg: "wdt_config w1 = wdt_config w"
    using Cons.prems wdt_locked_access by (metis list.set_intros(1))
  then have "m_locked w1" using Cons.prems(2) by (simp add: wdt_config_def)
  with Cons.IH [of w1] Cons.prems(3) step cfg show ?case by auto
qed

section \<open>The functional test\<close>

text \<open>
  \<open>Testbench\<close> of \<open>test.cpp\<close>. Its accesses end with \<open>wait(delay)\<close>; the watchdog adds no delay, so
  this is one delta cycle, in which a pending \<open>drive_outputs\<close> runs. While it waits for ticks the
  counter thread runs as often.
\<close>

record wdt_tb =
  tb_dut :: watchdog
  tb_errors :: u32

definition tb_delta :: "wdt_tb \<Rightarrow> wdt_tb" where
  "tb_delta tb = tb\<lparr>tb_dut := wdt_deliver (tb_dut tb)\<rparr>"

definition tb_fail :: "bool \<Rightarrow> wdt_tb \<Rightarrow> wdt_tb" where
  "tb_fail bad tb = (if bad then tb\<lparr>tb_errors := tb_errors tb + 1\<rparr> else tb)"

definition tb_wait_ticks :: "nat \<Rightarrow> wdt_tb \<Rightarrow> wdt_tb res" where
  "tb_wait_ticks n tb = Inr (tb\<lparr>tb_dut := ((\<lambda>w. wdt_deliver (wdt_tick w)) ^^ n) (wdt_deliver (tb_dut tb))\<rparr>)"

definition tb_settle_outputs :: "wdt_tb \<Rightarrow> wdt_tb res" where
  "tb_settle_outputs tb = Inr (tb_delta (tb_delta tb))"

definition tb_read32 :: "u32 \<Rightarrow> wdt_tb \<Rightarrow> (wdt_tb \<times> u32) res" where
  "tb_read32 addr tb =
     bindR (wdt_b_transport (tb_dut tb) (fill TLM_READ_COMMAND (ucast addr) (Some [0, 0, 0, 0]) 4) 0)
       (\<lambda>(w, p, d). bindR (ptr_load p 4) (\<lambda>bs.
          Inr (tb_fail (response_status p \<noteq> TLM_OK_RESPONSE) (tb_delta (tb\<lparr>tb_dut := w\<rparr>)), le_word bs)))"

definition tb_write32 :: "u32 \<Rightarrow> u32 \<Rightarrow> wdt_tb \<Rightarrow> wdt_tb res" where
  "tb_write32 addr dat tb =
     bindR (wdt_b_transport (tb_dut tb) (fill TLM_WRITE_COMMAND (ucast addr) (Some (le_bytes 4 dat)) 4) 0)
       (\<lambda>(w, p, d).
          Inr (tb_fail (response_status p \<noteq> TLM_OK_RESPONSE) (tb_delta (tb\<lparr>tb_dut := w\<rparr>))))"

text \<open>\<open>expect_eq\<close> on the value of a register, \<open>expect_signal\<close> on the two outputs.\<close>

definition tb_expect_eq :: "u32 \<Rightarrow> u32 \<Rightarrow> wdt_tb \<Rightarrow> wdt_tb res" where
  "tb_expect_eq addr expected tb =
     bindR (tb_read32 addr tb) (\<lambda>(tb, actual). Inr (tb_fail (actual \<noteq> expected) tb))"

definition tb_expect_irq :: "bool \<Rightarrow> wdt_tb \<Rightarrow> wdt_tb res" where
  "tb_expect_irq expected tb = Inr (tb_fail (wdt_irq (tb_dut tb) \<noteq> expected) tb)"

definition tb_expect_reset :: "bool \<Rightarrow> wdt_tb \<Rightarrow> wdt_tb res" where
  "tb_expect_reset expected tb = Inr (tb_fail (reset_o (tb_dut tb) \<noteq> expected) tb)"

fun tb_seq :: "(wdt_tb \<Rightarrow> wdt_tb res) list \<Rightarrow> wdt_tb \<Rightarrow> wdt_tb res" where
  "tb_seq [] tb = Inr tb"
| "tb_seq (f # fs) tb = bindR (f tb) (tb_seq fs)"

definition wdt_test1 :: "wdt_tb \<Rightarrow> wdt_tb res" where
  "wdt_test1 = tb_seq
    [tb_write32 WDOG_LOAD 5, tb_write32 WDOG_CONTROL CTRL_INTEN, tb_wait_ticks 6, tb_settle_outputs,
     tb_expect_irq True, tb_expect_reset False, tb_expect_eq WDOG_RIS 1, tb_expect_eq WDOG_MIS 1]"

definition wdt_test2 :: "wdt_tb \<Rightarrow> wdt_tb res" where
  "wdt_test2 = tb_seq
    [tb_write32 WDOG_INTCLR 0xABCD1234, tb_settle_outputs, tb_expect_irq False,
     tb_expect_eq WDOG_RIS 0, tb_expect_eq WDOG_MIS 0, tb_expect_eq WDOG_VALUE 5]"

definition wdt_test3 :: "wdt_tb \<Rightarrow> wdt_tb res" where
  "wdt_test3 = tb_seq
    [tb_wait_ticks 6, tb_settle_outputs, tb_expect_irq True, tb_expect_reset False,
     tb_expect_eq WDOG_RIS 1, tb_expect_eq WDOG_MIS 1,
     tb_write32 WDOG_CONTROL (CTRL_INTEN OR CTRL_RESEN), tb_settle_outputs,
     tb_expect_irq True, tb_expect_reset False, tb_expect_eq WDOG_RIS 1, tb_expect_eq WDOG_MIS 1,
     tb_wait_ticks 6, tb_settle_outputs, tb_expect_reset True,
     (\<lambda>tb. bindR (tb_read32 WDOG_VALUE tb) (\<lambda>(tb, stopped_value).
        tb_seq [tb_wait_ticks 2, tb_settle_outputs, tb_expect_eq WDOG_VALUE stopped_value] tb))]"

definition wdt_test4 :: "wdt_tb \<Rightarrow> wdt_tb res" where
  "wdt_test4 = tb_seq
    [tb_write32 WDOG_LOAD 0x22, tb_expect_eq WDOG_LOAD 0x22, tb_write32 WDOG_LOCK 0,
     tb_expect_eq WDOG_LOCK 1, tb_write32 WDOG_LOAD 0x12345678, tb_expect_eq WDOG_LOAD 0x22,
     tb_write32 WDOG_LOCK LOCK_UNLOCK_VALUE, tb_expect_eq WDOG_LOCK 0,
     tb_write32 WDOG_LOAD 0x12345678, tb_expect_eq WDOG_LOAD 0x12345678]"

definition wdt_test5 :: "wdt_tb \<Rightarrow> wdt_tb res" where
  "wdt_test5 = tb_seq (map (\<lambda>(addr, v). tb_expect_eq addr v) wdog_ids)"

definition wdt_testbench :: "wdt_tb res" where
  "wdt_testbench = tb_seq [wdt_test1, wdt_test2, wdt_test3, wdt_test4, wdt_test5]
     (tb_delta \<lparr>tb_dut = watchdog_new, tb_errors = 0\<rparr>)"

lemma tb_addr: "ucast (ucast (a :: u32) AND (0xFFF :: u64)) = a AND (0xFFF :: u32)"
  by (rule bit_word_eqI) (auto simp: bit_simps)

text \<open>The test's accesses never fail; they are register accesses followed by a delta cycle.\<close>

lemma tb_write32_eq: "tb_write32 addr dat tb =
    Inr (tb\<lparr>tb_dut := wdt_deliver (wdt_write_reg (addr AND 0xFFF) dat (tb_dut tb))\<rparr>)"
  by (simp add: tb_write32_def wdt_b_transport_def Let_def ptr_load_def tb_addr tb_fail_def tb_delta_def)

lemma tb_read32_eq: "tb_read32 addr tb =
    Inr (tb\<lparr>tb_dut := wdt_deliver (update_outputs (tb_dut tb))\<rparr>,
      snd (wdt_read_reg (addr AND 0xFFF) (tb_dut tb)))"
proof -
  have "fst (wdt_read_reg a w) = update_outputs w" for a w
    by (simp only: wdt_read_reg_def Let_def fst_conv)
  then show ?thesis
    by (simp add: tb_read32_def wdt_b_transport_def Let_def ptr_load_def ptr_store_def tb_addr
        tb_fail_def tb_delta_def case_prod_beta)
qed

lemma tb_expect_eq_eq: "tb_expect_eq addr v tb =
    (if snd (wdt_read_reg (addr AND 0xFFF) (tb_dut tb)) = v
     then Inr (tb\<lparr>tb_dut := wdt_deliver (update_outputs (tb_dut tb))\<rparr>)
     else Inr (tb\<lparr>tb_dut := wdt_deliver (update_outputs (tb_dut tb)), tb_errors := tb_errors tb + 1\<rparr>))"
  by (simp add: tb_expect_eq_def tb_read32_eq tb_fail_def)

lemma tb_wait_eqs:
  "tb_wait_ticks 6 tb = bindR (tb_wait_ticks 3 tb) (tb_wait_ticks 3)"
  "tb_wait_ticks 3 tb = Inr (tb\<lparr>tb_dut := wdt_deliver (wdt_tick (wdt_deliver (wdt_tick (wdt_deliver (wdt_tick
     (wdt_deliver (tb_dut tb)))))))\<rparr>)"
  "tb_wait_ticks 2 tb = Inr (tb\<lparr>tb_dut := wdt_deliver (wdt_tick (wdt_deliver (wdt_tick
     (wdt_deliver (tb_dut tb)))))\<rparr>)"
proof -
  have "wdt_deliver (wdt_deliver w) = wdt_deliver w" for w by (simp add: wdt_deliver_def drive_outputs_def)
  then show "tb_wait_ticks 6 tb = bindR (tb_wait_ticks 3 tb) (tb_wait_ticks 3)"
    by (simp add: tb_wait_ticks_def eval_nat_numeral)
qed (simp_all add: tb_wait_ticks_def eval_nat_numeral)

lemmas tb_eval = tb_write32_eq tb_read32_eq tb_expect_eq_eq tb_expect_irq_def tb_expect_reset_def
  tb_wait_eqs tb_settle_outputs_def tb_delta_def tb_fail_def wdt_write_reg_def wdt_read_reg_def
  wdt_deliver_def wdt_tick_def wdt_simps notify_delta_def

text \<open>The states of the watchdog between the tests.\<close>

definition wdt_after1 :: watchdog where
  "wdt_after1 = watchdog_new\<lparr>m_load := 5, m_counter := 5, m_control := 1, m_ris := 1, m_mis := 1,
     m_irq_level := True, wdt_irq := True\<rparr>"

definition wdt_after2 :: watchdog where
  "wdt_after2 = watchdog_new\<lparr>m_load := 5, m_counter := 5, m_control := 1\<rparr>"

definition wdt_after3 :: watchdog where
  "wdt_after3 = wdt_after1\<lparr>m_counter := 0, m_control := 3, m_reset_asserted := True,
     m_reset_level := True, reset_o := True\<rparr>"

definition wdt_after4 :: watchdog where
  "wdt_after4 = wdt_after3\<lparr>m_load := 0x12345678, m_counter := 0x12345678\<rparr>"

lemmas wdt_after = watchdog_new_def wdt_after1_def wdt_after2_def wdt_after3_def wdt_after4_def

lemma wdt_test1_ok: "wdt_test1 \<lparr>tb_dut = watchdog_new, tb_errors = 0\<rparr>
    = Inr \<lparr>tb_dut = wdt_after1, tb_errors = 0\<rparr>"
  by (simp add: wdt_test1_def wdt_after tb_eval reg_defs)

lemma wdt_test2_ok: "wdt_test2 \<lparr>tb_dut = wdt_after1, tb_errors = 0\<rparr>
    = Inr \<lparr>tb_dut = wdt_after2, tb_errors = 0\<rparr>"
  by (simp add: wdt_test2_def wdt_after tb_eval reg_defs)

lemma wdt_test3_ok: "wdt_test3 \<lparr>tb_dut = wdt_after2, tb_errors = 0\<rparr>
    = Inr \<lparr>tb_dut = wdt_after3, tb_errors = 0\<rparr>"
  by (simp add: wdt_test3_def wdt_after tb_eval reg_defs)

lemma wdt_test4_ok: "wdt_test4 \<lparr>tb_dut = wdt_after3, tb_errors = 0\<rparr>
    = Inr \<lparr>tb_dut = wdt_after4, tb_errors = 0\<rparr>"
  by (simp add: wdt_test4_def wdt_after tb_eval reg_defs)

lemma wdt_test5_ok: "wdt_test5 \<lparr>tb_dut = wdt_after4, tb_errors = 0\<rparr>
    = Inr \<lparr>tb_dut = wdt_after4, tb_errors = 0\<rparr>"
  by (simp add: wdt_test5_def wdog_ids_def wdt_after tb_eval reg_defs)

section \<open>Properties\<close>

text \<open>
  C11: the two-stage timeout. An enabled watchdog with no interrupt pending and no reset asserted
  raises the raw interrupt exactly at the tick after its counter has run down, and not before;
  it then counts down once more from the load value and, when reset is enabled and nobody clears
  the interrupt, asserts the reset exactly at the tick after that, and not before.
\<close>

theorem wdt_two_stage_timeout:
  assumes "interrupt_enabled w" and "reset_enabled w" and "\<not> m_reset_asserted w" and "m_ris w = 0"
  defines "first \<equiv> Suc (unat (m_counter w))" and "second \<equiv> Suc (unat (m_load w))"
  shows "(\<forall>k < first. m_ris ((wdt_tick ^^ k) w) = 0) \<and>
    m_ris ((wdt_tick ^^ first) w) = 1 \<and> m_irq_level ((wdt_tick ^^ first) w) \<and>
    (\<forall>k < first + second. \<not> m_reset_asserted ((wdt_tick ^^ k) w)) \<and>
    m_reset_asserted ((wdt_tick ^^ (first + second)) w) \<and>
    m_reset_level ((wdt_tick ^^ (first + second)) w)"
proof -
  note hyps = assms(1,3,4)
  have "m_ris ((wdt_tick ^^ k) w) = 0" if "k < first" for k
    using wdt_countdown [OF hyps(1,2), of k] that assms(4) by (simp add: first_def)
  moreover have int: "(wdt_tick ^^ first) w = wdt_interrupted w"
    unfolding first_def by (rule wdt_first_timeout [OF hyps])
  moreover have "\<not> m_reset_asserted ((wdt_tick ^^ k) w)" if "k < first + second" for k
    using wdt_ticks_before_reset [OF hyps, of k] that by (simp add: first_def second_def)
  moreover have "(wdt_tick ^^ (second + first)) w = (wdt_tick ^^ second) (wdt_interrupted w)"
    by (simp only: funpow_add comp_apply int)
  then have "(wdt_tick ^^ (first + second)) w = handle_timeout ((wdt_interrupted w)\<lparr>m_counter := 0\<rparr>)"
    using wdt_expire [of "wdt_interrupted w"] hyps by (simp add: second_def add.commute)
  moreover have "reset_enabled ((wdt_interrupted w)\<lparr>m_counter := 0\<rparr>)"
    using assms(2) wdt_interrupted_sel(8) by (simp add: reset_enabled_def)
  ultimately show ?thesis
    using hyps by (simp add: handle_timeout_def update_outputs_def Let_def reg_defs)
qed

theorem wdt_two_stage_timeout_witness:
  "\<not> m_reset_asserted ((wdt_tick ^^ 11) (wdt_after2\<lparr>m_control := 3\<rparr>)) \<and>
   m_reset_asserted ((wdt_tick ^^ 12) (wdt_after2\<lparr>m_control := 3\<rparr>))"
proof -
  have "interrupt_enabled (wdt_after2\<lparr>m_control := 3\<rparr>)" "reset_enabled (wdt_after2\<lparr>m_control := 3\<rparr>)"
    "\<not> m_reset_asserted (wdt_after2\<lparr>m_control := 3\<rparr>)" "m_ris (wdt_after2\<lparr>m_control := 3\<rparr>) = 0"
    by (simp_all add: wdt_after interrupt_enabled_def reset_enabled_def reg_defs)
  from wdt_two_stage_timeout [OF this] show ?thesis
    by (simp add: wdt_after del: funpow.simps)
qed

text \<open>
  C26: a serviced watchdog never resets. However often the system lets the enabled, unlocked
  watchdog count, if every time it writes \<open>WdogIntClr\<close> before the two countdowns from the load
  value are over, the reset is never asserted, neither at the end nor in any round.
\<close>

theorem wdt_serviced_never_resets:
  assumes "interrupt_enabled w" and "\<not> m_reset_asserted w" and "m_ris w = 0" and "\<not> m_locked w"
    and "m_counter w = m_load w" and "\<forall>k \<in> set ks. k < 2 * Suc (unat (m_load w))"
  shows "\<not> m_reset_asserted (fold wdt_round ks w) \<and>
    (\<forall>j < 2 * Suc (unat (m_load w)). \<not> m_reset_asserted ((wdt_tick ^^ j) (fold wdt_round ks w)))"
  using assms
proof (induction ks arbitrary: w)
  case Nil
  then show ?case using wdt_ticks_before_reset [of w] by simp
next
  case (Cons k ks)
  let ?v = "(wdt_tick ^^ k) w"
  have v: "\<not> m_reset_asserted ?v" "m_control ?v = m_control w" "m_load ?v = m_load w" "\<not> m_locked ?v"
    using wdt_ticks_before_reset [of w k] Cons.prems by simp_all
  note sel = wdt_kick_sel [OF v(4)]
  have "interrupt_enabled (wdt_round k w)"
    using Cons.prems(1) sel(4) v(2) by (simp add: wdt_round_def interrupt_enabled_def)
  with Cons.IH [of "wdt_round k w"] Cons.prems sel v show ?case by (simp add: wdt_round_def)
qed

theorem wdt_serviced_never_resets_witness:
  "\<not> m_reset_asserted (fold wdt_round [11, 11, 3] (wdt_after2\<lparr>m_control := 3\<rparr>))"
  using wdt_serviced_never_resets [of "wdt_after2\<lparr>m_control := 3\<rparr>" "[11, 11, 3]"]
  by (simp add: wdt_after interrupt_enabled_def reg_defs)

text \<open>
  The lock. While the watchdog is locked, no sequence of well-formed bus accesses changes
  its load value, counter, control, interrupt or reset state or opens the lock, unless one of
  them writes the key to \<open>WdogLock\<close>; every sequence is answered to its end.
\<close>

lemma wdt_lock_protects:
  assumes "wdt_invar w" and "m_locked w" and "\<forall>p \<in> set ps. wf_payload p \<and> \<not> unlocks p"
  shows "\<exists>w' rs. run_transport wdt_b_transport ps w = Inr (w', rs) \<and> length rs = length ps \<and>
    m_load w' = m_load w \<and> m_counter w' = m_counter w \<and> m_control w' = m_control w \<and>
    m_ris w' = m_ris w \<and> m_reset_asserted w' = m_reset_asserted w \<and> m_locked w'"
proof -
  from wdt_locked_run [OF assms] obtain w' rs
    where r: "run_transport wdt_b_transport ps w = Inr (w', rs)" "wdt_config w' = wdt_config w" by blast
  moreover have "length rs = length ps"
    using wdt.run_transport_returns [OF assms(1), of ps] assms(3) r(1) by auto
  ultimately show ?thesis using assms(2) by (auto simp: wdt_config_def)
qed

text \<open>
  The outputs are coherent. In every state reached from power-up by any interleaving of bus
  accesses, ticks and output updates, once no update is outstanding the interrupt line is high
  iff the raw interrupt is set and enabled, and the reset line iff the reset is asserted; the
  counter never exceeds the load value and only the two defined control bits are ever set.
\<close>

lemma wdt_outputs_coherent:
  assumes "wdt_steps watchdog_new w" and "m_output_changed w = None"
  shows "(wdt_irq w \<longleftrightarrow> m_ris w = 1 \<and> interrupt_enabled w) \<and> (reset_o w \<longleftrightarrow> m_reset_asserted w) \<and>
    m_counter w \<le> m_load w \<and> m_control w AND 3 = m_control w"
  using wdt_steps_invar [OF assms(1) watchdog_new_invar] assms(2)
  by (auto simp: wdt_invar_def split: if_splits)

text \<open>
  A reset is final. Once the reset is asserted, no bus access, tick or output update, in any
  number and order, withdraws it, and ticks no longer change the watchdog.
\<close>

lemma wdt_reset_final:
  assumes "m_reset_asserted w" and "wdt_steps w v"
  shows "m_reset_asserted v \<and> wdt_tick v = v"
  using wdt_steps_reset [OF assms(2,1)] by (simp add: wdt_tick_def)

text \<open>
  The functional test of the repository passes on the model: \<open>Testbench::run\<close> with its five
  tests ends with no error counted.
\<close>

lemma wdt_testbench_passes: "\<exists>tb. wdt_testbench = Inr tb \<and> tb_errors tb = 0"
proof -
  have "tb_delta \<lparr>tb_dut = watchdog_new, tb_errors = 0\<rparr> = \<lparr>tb_dut = watchdog_new, tb_errors = 0\<rparr>"
    by (simp add: tb_delta_def wdt_deliver_def watchdog_new_def)
  then show ?thesis
    by (simp add: wdt_testbench_def wdt_test1_ok wdt_test2_ok wdt_test3_ok wdt_test4_ok wdt_test5_ok)
qed

end
