(* ===== verification/Timer.thy ===== *)
theory Timer
  imports Systemc
begin

text \<open>
  \<open>components/timer_tlm/timer.h, timer.cpp\<close>: the SSE-100 timer. The thread \<open>timer_thread\<close> is a
  state machine whose control points are its four \<open>wait\<close> calls: \<open>timer_loop\<close> runs from the head of
  the loop to the next \<open>wait\<close>, \<open>timer_resume\<close> from the return of a \<open>wait\<close> to the next one. The
  events are notified immediately, so they wake the thread only when it waits for them. The
  relation \<open>timer_step\<close> interleaves bus accesses, changes of the two inputs, the passing of a
  tick period and the thread.
\<close>

section \<open>The module\<close>

definition ADDR_CTRL :: u64 where [reg_defs]: "ADDR_CTRL = 0x00"
definition ADDR_VALUE :: u64 where [reg_defs]: "ADDR_VALUE = 0x04"
definition ADDR_RELOAD :: u64 where [reg_defs]: "ADDR_RELOAD = 0x08"
definition ADDR_INTSTATUS :: u64 where [reg_defs]: "ADDR_INTSTATUS = 0x0C"

definition OPS_ENABLE :: u32 where [reg_defs]: "OPS_ENABLE = 0x1"
definition OPS_EX_EN :: u32 where [reg_defs]: "OPS_EX_EN = 0x2"
definition OPS_EX_CLK :: u32 where [reg_defs]: "OPS_EX_CLK = 0x4"
definition OPS_INTR_EN :: u32 where [reg_defs]: "OPS_INTR_EN = 0x8"

text \<open>The four \<open>wait\<close> calls, and what can end one.\<close>

datatype timer_wait = Wait_reset | Wait_disabled | Wait_ext | Wait_tick

datatype timer_wake = Prstn_posedge | Prstn_negedge | Extin_posedge | Update_reg | Intr_clear | Tick_elapsed

fun sensitive :: "timer_wait \<Rightarrow> timer_wake set" where
  "sensitive Wait_reset = {Prstn_posedge}"
| "sensitive Wait_disabled = {Update_reg, Prstn_negedge}"
| "sensitive Wait_ext = {Extin_posedge, Update_reg, Prstn_negedge, Intr_clear}"
| "sensitive Wait_tick = {Tick_elapsed, Update_reg, Prstn_negedge, Intr_clear}"

record timer =
  ctrl_reg :: u32
  value_reg :: u32
  reload_reg :: u32
  intr_status :: bool
  intr_clear_inc :: bool
  prstn :: bool
  extin :: bool
  timerint :: bool
  timer_at :: timer_wait
  woken :: bool

definition timer_reset :: "timer \<Rightarrow> timer" where
  "timer_reset t = t\<lparr>ctrl_reg := 0, value_reg := 0, reload_reg := 0, intr_status := False,
     timerint := False, timer_at := Wait_reset\<rparr>"

text \<open>From the head of the loop of \<open>timer_thread\<close> to its next \<open>wait\<close>.\<close>

definition timer_loop :: "timer \<Rightarrow> timer" where
  "timer_loop t =
     (if \<not> prstn t then timer_reset t
      else if ctrl_reg t AND OPS_ENABLE = 0 then t\<lparr>timer_at := Wait_disabled\<rparr>
      else if ctrl_reg t AND OPS_EX_CLK \<noteq> 0 then t\<lparr>timer_at := Wait_ext\<rparr>
      else t\<lparr>timer_at := Wait_tick\<rparr>)"

text \<open>The rest of the loop body after the waits of an enabled timer.\<close>

definition timer_count :: "timer \<Rightarrow> timer" where
  "timer_count t =
     (if intr_clear_inc t then t\<lparr>intr_clear_inc := False, timerint := False\<rparr>
      else if ctrl_reg t AND OPS_EX_EN \<noteq> 0 \<and> \<not> extin t then t
      else if value_reg t = 0
      then t\<lparr>value_reg := reload_reg t, intr_status := True,
             timerint := (ctrl_reg t AND OPS_INTR_EN \<noteq> 0 \<or> timerint t)\<rparr>
      else t\<lparr>value_reg := value_reg t - 1\<rparr>)"

definition timer_resume :: "timer \<Rightarrow> timer" where
  "timer_resume t =
     (let t = t\<lparr>woken := False\<rparr>
      in case timer_at t of
           Wait_reset \<Rightarrow> timer_loop t
         | Wait_disabled \<Rightarrow> timer_loop t
         | Wait_ext \<Rightarrow> timer_loop (timer_count t)
         | Wait_tick \<Rightarrow> timer_loop (timer_count t))"

text \<open>The constructor, and the thread's first run with the given inputs.\<close>

definition timer_new :: "bool \<Rightarrow> bool \<Rightarrow> timer" where
  "timer_new rst ext = timer_loop \<lparr>ctrl_reg = 0, value_reg = 0, reload_reg = 0, intr_status = False,
     intr_clear_inc = False, prstn = rst, extin = ext, timerint = False, timer_at = Wait_reset,
     woken = False\<rparr>"

text \<open>An immediate notification: it makes the thread runnable if the thread waits for it.\<close>

definition wake :: "timer_wake \<Rightarrow> timer \<Rightarrow> timer" where
  "wake e t = (if e \<in> sensitive (timer_at t) then t\<lparr>woken := True\<rparr> else t)"

definition timer_read_reg :: "u64 \<Rightarrow> timer \<Rightarrow> u32 option" where
  "timer_read_reg adr t =
     (if adr = ADDR_CTRL then Some (ctrl_reg t)
      else if adr = ADDR_VALUE then Some (value_reg t)
      else if adr = ADDR_RELOAD then Some (reload_reg t)
      else if adr = ADDR_INTSTATUS then Some (of_bool (intr_status t))
      else None)"

definition timer_write_reg :: "u64 \<Rightarrow> u32 \<Rightarrow> timer \<Rightarrow> timer option" where
  "timer_write_reg adr dat t =
     (if adr = ADDR_CTRL then Some (wake Update_reg (t\<lparr>ctrl_reg := dat AND 0xF\<rparr>))
      else if adr = ADDR_VALUE then Some (wake Update_reg (t\<lparr>value_reg := dat\<rparr>))
      else if adr = ADDR_RELOAD
      then Some (wake Update_reg (t\<lparr>reload_reg := dat, value_reg := dat\<rparr>))
      else if adr = ADDR_INTSTATUS
      then Some (if dat AND 1 \<noteq> 0
                 then wake Intr_clear (t\<lparr>intr_status := False, intr_clear_inc := True\<rparr>) else t)
      else None)"

definition timer_b_transport :: "timer transport" where
  "timer_b_transport t p delay =
     (let respond = (\<lambda>r t q. Inr (t, q\<lparr>response_status := r\<rparr>, delay))
      in if data_length p \<noteq> 4 then respond TLM_GENERIC_ERROR_RESPONSE t p
         else if byte_enable_ptr p \<noteq> None \<or> streaming_width p < data_length p
         then respond TLM_BURST_ERROR_RESPONSE t p
         else if command p = TLM_READ_COMMAND
         then (case timer_read_reg (address p) t of
                 Some v \<Rightarrow> bindR (ptr_store p (le_bytes 4 v)) (respond TLM_OK_RESPONSE t)
               | None \<Rightarrow> respond TLM_ADDRESS_ERROR_RESPONSE t p)
         else bindR (ptr_load p 4) (\<lambda>bs.
              case timer_write_reg (address p) (le_word bs) t of
                 Some t' \<Rightarrow> respond TLM_OK_RESPONSE t' p
               | None \<Rightarrow> respond TLM_ADDRESS_ERROR_RESPONSE t p))"

text \<open>New values of the two inputs, with the edges they cause.\<close>

definition timer_drive :: "bool \<Rightarrow> bool \<Rightarrow> timer \<Rightarrow> timer" where
  "timer_drive rst ext t =
     (let edges = (if rst \<and> \<not> prstn t then [Prstn_posedge] else []) @
                  (if \<not> rst \<and> prstn t then [Prstn_negedge] else []) @
                  (if ext \<and> \<not> extin t then [Extin_posedge] else [])
      in fold wake edges (t\<lparr>prstn := rst, extin := ext\<rparr>))"

text \<open>A tick period passes without another event, and the thread runs.\<close>

definition timer_tick :: "timer \<Rightarrow> timer" where
  "timer_tick t = timer_resume (wake Tick_elapsed t)"

section \<open>The module in a simulation\<close>

text \<open>
  The inputs change, and time passes, only between delta cycles, when the thread is not
  runnable; an access may also come while it is.
\<close>

inductive timer_step :: "timer \<Rightarrow> timer \<Rightarrow> bool" where
  access: "timer_b_transport t p d = Inr (t', p', d') \<Longrightarrow> timer_step t t'"
| drive: "\<not> woken t \<Longrightarrow> timer_step t (timer_drive rst ext t)"
| elapse: "\<not> woken t \<Longrightarrow> timer_at t = Wait_tick \<Longrightarrow> timer_step t (wake Tick_elapsed t)"
| run: "woken t \<Longrightarrow> timer_step t (timer_resume t)"

inductive timer_reachable :: "timer \<Rightarrow> bool" where
  start: "timer_reachable (timer_new rst ext)"
| step: "timer_reachable s \<Longrightarrow> timer_step s t \<Longrightarrow> timer_reachable t"

text \<open>Where the thread must be waiting, from the inputs and the control register.\<close>

definition expected_wait :: "timer \<Rightarrow> timer_wait" where
  "expected_wait t = (if \<not> prstn t then Wait_reset
     else if ctrl_reg t AND OPS_ENABLE = 0 then Wait_disabled
     else if ctrl_reg t AND OPS_EX_CLK \<noteq> 0 then Wait_ext else Wait_tick)"

definition timer_invar :: "timer \<Rightarrow> bool" where
  "timer_invar t \<longleftrightarrow> (woken t \<or> timer_at t = expected_wait t) \<and>
     (timer_at t = Wait_reset \<longrightarrow> prstn t = woken t)"

text \<open>What the timer needs of a payload: it does not check the data pointer.\<close>

definition timer_ok :: "payload \<Rightarrow> bool" where
  "timer_ok p \<longleftrightarrow> wf_payload p \<and> (data_length p = 4 \<longrightarrow> data_ptr p \<noteq> None)"

text \<open>A running timer between two events: enabled, clocked by its period, not gated.\<close>

definition free_running :: "timer \<Rightarrow> bool" where
  "free_running t \<longleftrightarrow> prstn t \<and> ctrl_reg t AND OPS_ENABLE \<noteq> 0 \<and> ctrl_reg t AND OPS_EX_CLK = 0 \<and>
     ctrl_reg t AND OPS_EX_EN = 0 \<and> \<not> intr_clear_inc t \<and> timer_at t = Wait_tick \<and> \<not> woken t"

section \<open>Lemmas\<close>

lemma wake_sel [simp]:
  "ctrl_reg (wake e t) = ctrl_reg t" "value_reg (wake e t) = value_reg t"
  "reload_reg (wake e t) = reload_reg t" "intr_status (wake e t) = intr_status t"
  "intr_clear_inc (wake e t) = intr_clear_inc t" "prstn (wake e t) = prstn t"
  "extin (wake e t) = extin t" "timerint (wake e t) = timerint t" "timer_at (wake e t) = timer_at t"
  "woken (wake e t) \<longleftrightarrow> woken t \<or> e \<in> sensitive (timer_at t)"
  by (simp_all add: wake_def)

lemma expected_wait_wake [simp]: "expected_wait (wake e t) = expected_wait t"
  by (simp add: expected_wait_def)

text \<open>Running to the next \<open>wait\<close> leads to the expected one.\<close>

lemma timer_loop_invar: "\<not> woken t \<Longrightarrow> timer_invar (timer_loop t)"
  by (auto simp: timer_loop_def timer_invar_def expected_wait_def timer_reset_def)

lemma timer_count_woken [simp]: "woken (timer_count t) = woken t"
  by (simp add: timer_count_def)

lemma timer_resume_invar: "timer_invar (timer_resume t)"
  by (auto simp: timer_resume_def Let_def split: timer_wait.split intro!: timer_loop_invar)

text \<open>A register update keeps the invariant when it is announced, or leaves \<open>ctrl_reg\<close> alone.\<close>

lemma wake_update_invar:
  assumes "timer_invar t" "timer_at t' = timer_at t" "woken t' = woken t" "prstn t' = prstn t"
  shows "timer_invar (wake Update_reg t')"
  using assms by (cases "timer_at t") (simp_all add: timer_invar_def expected_wait_def)

lemma wake_frame_invar:
  assumes "timer_invar t" "timer_at t' = timer_at t" "woken t' = woken t" "prstn t' = prstn t"
    "ctrl_reg t' = ctrl_reg t"
  shows "timer_invar (wake Intr_clear t')"
proof -
  have "expected_wait t' = expected_wait t" using assms by (simp add: expected_wait_def)
  with assms show ?thesis by (cases "timer_at t") (auto simp: timer_invar_def)
qed

lemma timer_write_reg_invar:
  assumes "timer_invar t" and "timer_write_reg adr dat t = Some t'"
  shows "timer_invar t'"
  using assms(2) assms(1) wake_update_invar [OF assms(1), of "t\<lparr>ctrl_reg := dat AND 0xF\<rparr>"]
    wake_update_invar [OF assms(1), of "t\<lparr>value_reg := dat\<rparr>"]
    wake_update_invar [OF assms(1), of "t\<lparr>reload_reg := dat, value_reg := dat\<rparr>"]
    wake_frame_invar [OF assms(1), of "t\<lparr>intr_status := False, intr_clear_inc := True\<rparr>"]
  by (auto simp: timer_write_reg_def split: if_splits)

lemma timer_drive_invar: "timer_invar t \<Longrightarrow> \<not> woken t \<Longrightarrow> timer_invar (timer_drive rst ext t)"
  by (cases "timer_at t")
    (auto simp: timer_drive_def timer_invar_def expected_wait_def split: if_splits)

lemma timer_transport_invar:
  assumes "timer_b_transport t p d = Inr (t', p', d')" and "timer_invar t"
  shows "timer_invar t'"
  using assms
  by (auto simp: timer_b_transport_def Let_def bindR_eq_Inr split: if_splits option.splits
      intro: timer_write_reg_invar)

lemma timer_step_invar: "timer_step s t \<Longrightarrow> timer_invar s \<Longrightarrow> timer_invar t"
proof (induction rule: timer_step.induct)
  case (access t p d t' p' d')
  then show ?case by (rule timer_transport_invar)
next
  case (drive t rst ext)
  then show ?case by (simp add: timer_drive_invar)
next
  case (elapse t)
  then show ?case by (simp add: timer_invar_def)
next
  case (run t)
  show ?case by (rule timer_resume_invar)
qed

lemma timer_reachable_invar: "timer_reachable t \<Longrightarrow> timer_invar t"
  by (induction rule: timer_reachable.induct)
    (auto simp: timer_new_def intro: timer_step_invar timer_loop_invar)

lemma timer_good_outcome:
  assumes "timer_invar t" and "timer_ok p"
  shows "good_outcome timer_invar p (timer_b_transport t p d)"
proof (cases "data_length p = 4")
  case False
  then show ?thesis using assms(1) by (simp add: timer_b_transport_def Let_def)
next
  case True
  then obtain b where b: "data_ptr p = Some b" "length b = 4"
    using assms(2) by (auto simp: timer_ok_def wf_payload_def)
  have "ptr_load p 4 = Inr b" "ptr_store p (le_bytes 4 v) = Inr (p\<lparr>data_ptr := Some (le_bytes 4 v)\<rparr>)"
    for v :: u32 using b by (simp_all add: ptr_load_def ptr_store_def)
  then show ?thesis
    using assms(1) b True timer_write_reg_invar [OF assms(1)]
    by (auto simp: timer_b_transport_def Let_def same_attrs_def split: option.split)
qed

interpretation timer: tlm_target timer_b_transport timer_invar timer_ok
  by (rule tlm_targetI) (rule timer_good_outcome)

text \<open>Word accesses through the transport.\<close>

lemma timer_write32:
  "timer_write_reg adr v t = Some t' \<Longrightarrow> write32 timer_b_transport adr v t = Inr t'"
  by (simp add: write32_def timer_b_transport_def Let_def ptr_load_def is_response_error_def)

lemma timer_read32:
  "timer_read_reg adr t = Some v \<Longrightarrow> read32 timer_b_transport adr t = Inr (t, v)"
  by (simp add: read32_def timer_b_transport_def Let_def ptr_load_def ptr_store_def is_response_error_def)

text \<open>One tick of a free-running timer.\<close>

lemma timer_tick_free:
  assumes "free_running t"
  shows "timer_tick t = (if value_reg t = 0
    then t\<lparr>value_reg := reload_reg t, intr_status := True,
           timerint := (ctrl_reg t AND OPS_INTR_EN \<noteq> 0 \<or> timerint t)\<rparr>
    else t\<lparr>value_reg := value_reg t - 1\<rparr>)"
  using assms
  by (simp add: timer_tick_def timer_resume_def timer_count_def timer_loop_def free_running_def
      wake_def Let_def)

lemma timer_tick_free_running: "free_running t \<Longrightarrow> free_running (timer_tick t)"
  by (simp add: timer_tick_free) (simp add: free_running_def)

lemma timer_ticks_free:
  assumes "free_running t"
  shows "free_running ((timer_tick ^^ k) t) \<and> ctrl_reg ((timer_tick ^^ k) t) = ctrl_reg t \<and>
    reload_reg ((timer_tick ^^ k) t) = reload_reg t"
proof (induction k)
  case 0
  with assms show ?case by simp
next
  case (Suc k)
  then have "free_running ((timer_tick ^^ k) t)" by simp
  from timer_tick_free_running [OF this] timer_tick_free [OF this] Suc show ?case by simp
qed

text \<open>The count after \<open>k\<close> ticks: down to zero, then with the period of the reload value.\<close>

definition count_after :: "nat \<Rightarrow> nat \<Rightarrow> nat \<Rightarrow> nat" where
  "count_after v r k = (if k \<le> v then v - k else r - (k - v - 1) mod (r + 1))"

lemma count_after_Suc:
  "count_after v r (Suc k) = (if count_after v r k = 0 then r else count_after v r k - 1)"
proof (cases "k < v")
  case True
  then show ?thesis by (simp add: count_after_def)
next
  case False
  define m where "m = k - v"
  show ?thesis
  proof (cases "k = v")
    case True
    then show ?thesis by (simp add: count_after_def)
  next
    case neq: False
    define x where "x = (m - 1) mod (r + 1)"
    have "0 < m" "count_after v r k = r - x" "count_after v r (Suc k) = r - m mod (r + 1)"
      using neq False by (simp_all add: count_after_def m_def x_def)
    moreover have "m mod (r + 1) = (if x = r then 0 else Suc x)"
      using \<open>0 < m\<close> mod_Suc [of "m - 1" "r + 1"] by (simp add: x_def)
    moreover have "x \<le> r" by (simp add: x_def less_Suc_eq_le [symmetric])
    ultimately show ?thesis by auto
  qed
qed

lemma timer_ticks_count:
  assumes "free_running t"
  shows "unat (value_reg ((timer_tick ^^ k) t)) =
    count_after (unat (value_reg t)) (unat (reload_reg t)) k"
proof (induction k)
  case 0
  then show ?case by (simp add: count_after_def)
next
  case (Suc k)
  let ?s = "(timer_tick ^^ k) t"
  have s: "free_running ?s" "reload_reg ?s = reload_reg t" using timer_ticks_free [OF assms] by auto
  have "unat (value_reg (timer_tick ?s)) =
      (if unat (value_reg ?s) = 0 then unat (reload_reg t) else unat (value_reg ?s) - 1)"
    using s by (auto simp: timer_tick_free unat_minus_one unat_eq_zero)
  then show ?case using Suc by (simp add: count_after_Suc)
qed

lemma timer_ticks_intr:
  assumes "free_running t"
  shows "intr_status ((timer_tick ^^ k) t) \<longleftrightarrow> intr_status t \<or> unat (value_reg t) < k"
    and "timerint ((timer_tick ^^ k) t) \<longleftrightarrow>
      timerint t \<or> ctrl_reg t AND OPS_INTR_EN \<noteq> 0 \<and> unat (value_reg t) < k"
proof (induction k)
  case 0
  show "intr_status ((timer_tick ^^ 0) t) \<longleftrightarrow> intr_status t \<or> unat (value_reg t) < 0"
    and "timerint ((timer_tick ^^ 0) t) \<longleftrightarrow>
      timerint t \<or> ctrl_reg t AND OPS_INTR_EN \<noteq> 0 \<and> unat (value_reg t) < 0" by simp_all
next
  case (Suc k)
  let ?s = "(timer_tick ^^ k) t"
  have s: "free_running ?s" "ctrl_reg ?s = ctrl_reg t" using timer_ticks_free [OF assms] by auto
  have z: "value_reg ?s = 0 \<longleftrightarrow> count_after (unat (value_reg t)) (unat (reload_reg t)) k = 0"
    using timer_ticks_count [OF assms, of k] by (simp add: unat_eq_zero [symmetric])
  have "value_reg ?s = 0 \<Longrightarrow> unat (value_reg t) < Suc k"
    and "k = unat (value_reg t) \<Longrightarrow> value_reg ?s = 0"
    unfolding z by (auto simp: count_after_def split: if_splits)
  then show "intr_status ((timer_tick ^^ Suc k) t) \<longleftrightarrow> intr_status t \<or> unat (value_reg t) < Suc k"
    and "timerint ((timer_tick ^^ Suc k) t) \<longleftrightarrow>
      timerint t \<or> ctrl_reg t AND OPS_INTR_EN \<noteq> 0 \<and> unat (value_reg t) < Suc k"
    using Suc s by (auto simp: timer_tick_free less_Suc_eq)
qed

text \<open>A free-running timer for the examples: reload and value 3, interrupt output enabled.\<close>

definition timer_demo :: timer where
  "timer_demo = \<lparr>ctrl_reg = 9, value_reg = 3, reload_reg = 3, intr_status = False,
     intr_clear_inc = False, prstn = True, extin = False, timerint = False, timer_at = Wait_tick,
     woken = False\<rparr>"

lemma timer_demo_free: "free_running timer_demo"
  by (simp add: timer_demo_def free_running_def reg_defs)

section \<open>Properties\<close>

text \<open>
  C19: the timer's period. A free-running timer (out of reset, enabled, clocked by its own period,
  not gated) with value \<open>v\<close> and reload value \<open>r\<close> holds after \<open>k\<close> undisturbed ticks the count that
  runs down from \<open>v\<close> to zero and then repeats \<open>r, r - 1, ..., 0\<close>; the interrupt status becomes set
  with tick \<open>v + 1\<close> and not before, and so does the output when it is enabled.
\<close>

theorem timer_periodic:
  assumes "free_running t"
  defines "v \<equiv> unat (value_reg t)" and "r \<equiv> unat (reload_reg t)"
  shows "unat (value_reg ((timer_tick ^^ k) t)) =
      (if k \<le> v then v - k else r - (k - v - 1) mod (r + 1)) \<and>
    (intr_status ((timer_tick ^^ k) t) \<longleftrightarrow> intr_status t \<or> v < k) \<and>
    (timerint ((timer_tick ^^ k) t) \<longleftrightarrow> timerint t \<or> ctrl_reg t AND OPS_INTR_EN \<noteq> 0 \<and> v < k)"
  using timer_ticks_count [OF assms(1), of k] timer_ticks_intr [OF assms(1), of k]
  by (simp add: v_def r_def count_after_def)

theorem timer_periodic_witness:
  "\<not> timerint ((timer_tick ^^ 3) timer_demo) \<and> timerint ((timer_tick ^^ 4) timer_demo) \<and>
   unat (value_reg ((timer_tick ^^ 9) timer_demo)) = 2"
  using timer_periodic [OF timer_demo_free, of 3] timer_periodic [OF timer_demo_free, of 4]
    timer_periodic [OF timer_demo_free, of 9]
  by (simp add: timer_demo_def reg_defs)

text \<open>
  C33: the thread never waits for the wrong thing. In every state reached by any interleaving of
  bus accesses, input changes, elapsed periods and thread runs, when the thread is not runnable
  it waits for the end of reset if the reset input is low, for a register write if the timer is
  disabled, for an external edge or a tick period, by its clock source, if it is enabled. So an
  enabled timer is never stuck.
\<close>

theorem timer_never_stuck:
  assumes "timer_reachable t" and "\<not> woken t"
  shows "timer_at t = (if \<not> prstn t then Wait_reset
     else if ctrl_reg t AND OPS_ENABLE = 0 then Wait_disabled
     else if ctrl_reg t AND OPS_EX_CLK \<noteq> 0 then Wait_ext else Wait_tick)"
proof -
  have "timer_at t = expected_wait t"
    using timer_reachable_invar [OF assms(1)] assms(2) by (auto simp: timer_invar_def)
  then show ?thesis by (simp only: expected_wait_def)
qed

theorem timer_never_stuck_witness: "timer_at (timer_new True False) = Wait_disabled"
  using timer_never_stuck [OF timer_reachable.start [of True False]]
  by (simp add: timer_new_def timer_loop_def)

text \<open>
  Reset. When the reset input goes low while the thread is not runnable and not already in
  reset, the thread becomes runnable, and its next run clears all registers and the interrupt
  output and parks it until the input rises again, in particular through ticks.
\<close>

lemma timer_reset_clears:
  fixes ext :: bool
  assumes "timer_reachable t" and "\<not> woken t" and "prstn t"
  defines "s \<equiv> timer_resume (timer_drive False ext t)"
  shows "woken (timer_drive False ext t) \<and> ctrl_reg s = 0 \<and> value_reg s = 0 \<and> reload_reg s = 0 \<and>
    \<not> intr_status s \<and> \<not> timerint s \<and> timer_at s = Wait_reset \<and> wake Tick_elapsed s = s \<and>
    wake Update_reg s = s"
proof -
  have "timer_at t \<noteq> Wait_reset"
    using timer_reachable_invar [OF assms(1)] assms(2,3) by (auto simp: timer_invar_def)
  with assms(2,3) show ?thesis
    by (cases "timer_at t")
      (auto simp: s_def timer_drive_def timer_resume_def timer_loop_def timer_reset_def timer_count_def
        wake_def Let_def)
qed

text \<open>
  The registers. Through the transport, a word written to \<open>CTRL\<close> is kept in its four defined
  bits, one written to \<open>RELOAD\<close> sets reload and current value, one written to \<open>VALUE\<close> the
  current value, each read back as long as the thread has not run; other addresses are refused
  with an address error, and other lengths with a generic error, without any change.
\<close>

lemma timer_registers:
  "\<exists>t1 t2 t3. write32 timer_b_transport ADDR_CTRL v t = Inr t1 \<and>
     read32 timer_b_transport ADDR_CTRL t1 = Inr (t1, v AND 0xF) \<and>
     write32 timer_b_transport ADDR_RELOAD v t = Inr t2 \<and>
     read32 timer_b_transport ADDR_RELOAD t2 = Inr (t2, v) \<and>
     read32 timer_b_transport ADDR_VALUE t2 = Inr (t2, v) \<and>
     write32 timer_b_transport ADDR_VALUE v t = Inr t3 \<and>
     read32 timer_b_transport ADDR_VALUE t3 = Inr (t3, v) \<and>
     read32 timer_b_transport ADDR_RELOAD t3 = Inr (t3, reload_reg t) \<and>
     probe_write timer_b_transport 0xFF (le_bytes 4 v) 4 t =
       Inr (t, TLM_ADDRESS_ERROR_RESPONSE, Some (le_bytes 4 v)) \<and>
     probe_write timer_b_transport ADDR_CTRL [0, 0] 2 t =
       Inr (t, TLM_GENERIC_ERROR_RESPONSE, Some [0, 0])"
proof -
  let ?t1 = "wake Update_reg (t\<lparr>ctrl_reg := v AND 0xF\<rparr>)"
  let ?t2 = "wake Update_reg (t\<lparr>reload_reg := v, value_reg := v\<rparr>)"
  let ?t3 = "wake Update_reg (t\<lparr>value_reg := v\<rparr>)"
  have "write32 timer_b_transport ADDR_CTRL v t = Inr ?t1"
    "write32 timer_b_transport ADDR_RELOAD v t = Inr ?t2"
    "write32 timer_b_transport ADDR_VALUE v t = Inr ?t3"
    by (auto intro!: timer_write32 simp: timer_write_reg_def reg_defs)
  moreover have "read32 timer_b_transport ADDR_CTRL ?t1 = Inr (?t1, v AND 0xF)"
    "read32 timer_b_transport ADDR_RELOAD ?t2 = Inr (?t2, v)"
    "read32 timer_b_transport ADDR_VALUE ?t2 = Inr (?t2, v)"
    "read32 timer_b_transport ADDR_VALUE ?t3 = Inr (?t3, v)"
    "read32 timer_b_transport ADDR_RELOAD ?t3 = Inr (?t3, reload_reg t)"
    by (auto intro!: timer_read32 simp: timer_read_reg_def reg_defs)
  moreover have "probe_write timer_b_transport 0xFF (le_bytes 4 v) 4 t =
      Inr (t, TLM_ADDRESS_ERROR_RESPONSE, Some (le_bytes 4 v))"
    "probe_write timer_b_transport ADDR_CTRL [0, 0] 2 t = Inr (t, TLM_GENERIC_ERROR_RESPONSE, Some [0, 0])"
    by (simp_all add: probe_write_def probe_access_def timer_b_transport_def Let_def ptr_load_def
        timer_write_reg_def reg_defs)
  ultimately show ?thesis by blast
qed

text \<open>
  A register write to a running timer counts as a tick. When a word other than zero is
  written to \<open>RELOAD\<close> of a free-running timer, the announcement wakes the thread, and its next run
  has already decremented the value although no tick period has elapsed.
\<close>

lemma timer_write_counts_as_tick:
  assumes "free_running t" and "v \<noteq> 0"
  shows "\<exists>t'. write32 timer_b_transport ADDR_RELOAD v t = Inr t' \<and> woken t' \<and>
    value_reg (timer_resume t') = v - 1"
proof -
  let ?t = "wake Update_reg (t\<lparr>reload_reg := v, value_reg := v\<rparr>)"
  have "write32 timer_b_transport ADDR_RELOAD v t = Inr ?t"
    by (auto intro!: timer_write32 simp: timer_write_reg_def reg_defs)
  moreover have "woken ?t" "value_reg (timer_resume ?t) = v - 1"
    using assms by (simp_all add: free_running_def timer_resume_def timer_count_def timer_loop_def
        Let_def wake_def)
  ultimately show ?thesis by blast
qed

text \<open>
  Acknowledging the interrupt. On an enabled timer out of reset, writing one to \<open>INTSTATUS\<close>
  clears the status, wakes the thread, and its next run lowers the output without counting. On a
  disabled timer the status is cleared but the thread is not woken, so the output keeps its
  level.
\<close>

lemma timer_interrupt_acknowledge:
  assumes "timer_reachable t" and "\<not> woken t" and "prstn t"
  shows "\<exists>t'. write32 timer_b_transport ADDR_INTSTATUS 1 t = Inr t' \<and> \<not> intr_status t' \<and>
    (if ctrl_reg t AND OPS_ENABLE \<noteq> 0
     then woken t' \<and> \<not> timerint (timer_resume t') \<and> value_reg (timer_resume t') = value_reg t
     else \<not> woken t' \<and> timerint t' = timerint t)"
proof -
  let ?t = "wake Intr_clear (t\<lparr>intr_status := False, intr_clear_inc := True\<rparr>)"
  have w: "write32 timer_b_transport ADDR_INTSTATUS 1 t = Inr ?t"
    by (auto intro!: timer_write32 simp: timer_write_reg_def reg_defs)
  have at: "timer_at t = expected_wait t"
    using timer_reachable_invar [OF assms(1)] assms(2) by (auto simp: timer_invar_def)
  have "woken ?t \<and> \<not> timerint (timer_resume ?t) \<and> value_reg (timer_resume ?t) = value_reg t"
    if "ctrl_reg t AND OPS_ENABLE \<noteq> 0"
    using that assms(2,3) at
    by (auto simp: expected_wait_def timer_resume_def timer_count_def timer_loop_def wake_def Let_def)
  moreover have "\<not> woken ?t" if "ctrl_reg t AND OPS_ENABLE = 0"
    using that assms(2,3) at by (simp add: expected_wait_def)
  ultimately show ?thesis using w by auto
qed

end
