(* ===== verification/Timer_Testbench.thy ===== *)
theory Timer_Testbench
  imports Timer
begin

text \<open>
  \<open>components/timer_tlm/testbench.cpp\<close>: the test bench of the timer, run against the model. The
  thread \<open>run\<close> and the timer's thread are the only processes, so a \<open>wait\<close> of the test bench is a
  function that runs the timer and the kernel until the test bench resumes. Where both
  processes are runnable in one evaluation phase the kernel may choose; the argument \<open>timer_first\<close>
  is its choice, and the results hold for both.
\<close>

section \<open>The two processes and the kernel\<close>

text \<open>
  \<open>tb_prstn\<close> and \<open>tb_extin\<close> are the values last written to the two signals, which the timer sees
  after the next update phase; \<open>tb_irq\<close> is the value of the interrupt signal; \<open>tick_left\<close> is what is
  left, in picoseconds, of the timer's wait for a tick; \<open>tb_failed\<close> collects the names given to
  \<open>fail\<close>.
\<close>

record timer_tb =
  tb_dut :: timer
  tb_prstn :: bool
  tb_extin :: bool
  tb_irq :: bool
  tick_left :: nat
  tb_failed :: "string list"

definition TICK_PERIOD :: nat where "TICK_PERIOD = 20000"

definition tb_run_timer :: "timer_tb \<Rightarrow> timer_tb" where
  "tb_run_timer s = (if woken (tb_dut s)
     then s\<lparr>tb_dut := timer_resume (tb_dut s), tick_left := TICK_PERIOD\<rparr> else s)"

text \<open>The end of a delta cycle: the timer runs if it is runnable, then the signals are updated.\<close>

definition tb_delta :: "timer_tb \<Rightarrow> timer_tb" where
  "tb_delta s =
     (let s = tb_run_timer s;
          t = timer_drive (tb_prstn s) (tb_extin s) (tb_dut s)
      in s\<lparr>tb_dut := t, tb_irq := timerint t\<rparr>)"

text \<open>\<open>wait(SC_ZERO_TIME)\<close>.\<close>

definition tb_wait_zero :: "bool \<Rightarrow> timer_tb \<Rightarrow> timer_tb" where
  "tb_wait_zero timer_first s = (let s = tb_delta s in if timer_first then tb_run_timer s else s)"

text \<open>
  \<open>wait(d)\<close>: two delta cycles bring the timer to rest, then its ticks pass. At the end of the
  time a tick that falls on it makes both processes runnable.
\<close>

function tb_elapse :: "bool \<Rightarrow> nat \<Rightarrow> timer_tb \<Rightarrow> timer_tb" where
  "tb_elapse timer_first d s =
     (if timer_at (tb_dut s) \<noteq> Wait_tick \<or> tick_left s > d \<or> tick_left s = 0
      then s\<lparr>tick_left := tick_left s - d\<rparr>
      else let s' = s\<lparr>tb_dut := wake Tick_elapsed (tb_dut s)\<rparr>
           in if tick_left s = d then if timer_first then tb_run_timer s' else s'
              else tb_elapse timer_first (d - tick_left s) (tb_delta s'))"
  by pat_completeness auto
termination
  by (relation "measure (\<lambda>(_, d, _). d)") auto

declare tb_elapse.simps [simp del]

definition tb_wait_time :: "bool \<Rightarrow> nat \<Rightarrow> timer_tb \<Rightarrow> timer_tb" where
  "tb_wait_time timer_first d s = tb_elapse timer_first d (tb_delta (tb_delta s))"

text \<open>
  \<open>wait(timerint.posedge_event())\<close>: delta cycles and ticks until the signal rises. The bound counts
  them; without a tick to wait for, the wait does not end.
\<close>

fun tb_wait_irq :: "nat \<Rightarrow> timer_tb \<Rightarrow> timer_tb res" where
  "tb_wait_irq 0 s = Inl Would_wait"
| "tb_wait_irq (Suc n) s =
     (let s' = tb_delta s
      in if \<not> tb_irq s \<and> tb_irq s' then Inr s'
         else if woken (tb_dut s') then tb_wait_irq n s'
         else if timer_at (tb_dut s') = Wait_tick
         then tb_wait_irq n (s'\<lparr>tb_dut := wake Tick_elapsed (tb_dut s')\<rparr>)
         else Inl Would_wait)"

section \<open>The helpers of the test bench\<close>

definition tb_payload :: "tlm_command \<Rightarrow> u32 \<Rightarrow> u32 \<Rightarrow> u32 \<Rightarrow> payload" where
  "tb_payload cmd addr dat len = empty_payload\<lparr>command := cmd, address := ucast addr,
     data_ptr := Some (le_bytes 4 dat), data_length := len, streaming_width := len,
     response_status := TLM_INCOMPLETE_RESPONSE\<rparr>"

definition tb_write_reg :: "u32 \<Rightarrow> u32 \<Rightarrow> timer_tb \<Rightarrow> timer_tb res" where
  "tb_write_reg addr dat s =
     bindR (timer_b_transport (tb_dut s) (tb_payload TLM_WRITE_COMMAND addr dat 4) 0) (\<lambda>(t, p, d).
     Inr (s\<lparr>tb_dut := t\<rparr>))"

definition tb_read_reg :: "u32 \<Rightarrow> timer_tb \<Rightarrow> (timer_tb \<times> u32) res" where
  "tb_read_reg addr s =
     bindR (timer_b_transport (tb_dut s) (tb_payload TLM_READ_COMMAND addr 0 4) 0) (\<lambda>(t, p, d).
     bindR (ptr_load p 4) (\<lambda>bs. Inr (s\<lparr>tb_dut := t\<rparr>, le_word bs)))"

definition tb_write_reg_bad_len :: "u32 \<Rightarrow> u32 \<Rightarrow> timer_tb \<Rightarrow> (timer_tb \<times> tlm_response) res" where
  "tb_write_reg_bad_len addr dat s =
     bindR (timer_b_transport (tb_dut s) (tb_payload TLM_WRITE_COMMAND addr dat 2) 0) (\<lambda>(t, p, d).
     Inr (s\<lparr>tb_dut := t\<rparr>, response_status p))"

definition tb_write_reg_bad_addr :: "u32 \<Rightarrow> u32 \<Rightarrow> timer_tb \<Rightarrow> (timer_tb \<times> tlm_response) res" where
  "tb_write_reg_bad_addr addr dat s =
     bindR (timer_b_transport (tb_dut s) (tb_payload TLM_WRITE_COMMAND addr dat 4) 0) (\<lambda>(t, p, d).
     Inr (s\<lparr>tb_dut := t\<rparr>, response_status p))"

definition tb_do_reset :: "bool \<Rightarrow> timer_tb \<Rightarrow> timer_tb" where
  "tb_do_reset timer_first s =
     (let s = tb_wait_zero timer_first (s\<lparr>tb_prstn := False\<rparr>)
      in tb_wait_zero timer_first (s\<lparr>tb_prstn := True\<rparr>))"

definition tb_check :: "string \<Rightarrow> bool \<Rightarrow> timer_tb \<Rightarrow> timer_tb" where
  "tb_check name ok s = (if ok then s else s\<lparr>tb_failed := tb_failed s @ [name]\<rparr>)"

section \<open>The tests\<close>

definition tb_start :: "bool \<Rightarrow> timer_tb" where
  "tb_start timer_first =
     (let s = \<lparr>tb_dut = timer_new False False, tb_prstn = False, tb_extin = False, tb_irq = False,
               tick_left = 0, tb_failed = []\<rparr>;
          s = tb_do_reset timer_first s
      in tb_wait_zero timer_first (s\<lparr>tb_extin := False\<rparr>))"

definition CTRL32 :: u32 where [reg_defs]: "CTRL32 = 0x00"
definition VALUE32 :: u32 where [reg_defs]: "VALUE32 = 0x04"
definition RELOAD32 :: u32 where [reg_defs]: "RELOAD32 = 0x08"
definition INTSTATUS32 :: u32 where [reg_defs]: "INTSTATUS32 = 0x0C"

definition timer_tb_test1 :: "bool \<Rightarrow> timer_tb \<Rightarrow> timer_tb res" where
  "timer_tb_test1 tf s =
     bindR (tb_write_reg RELOAD32 5 s) (\<lambda>s.
     bindR (tb_write_reg CTRL32 (OPS_ENABLE OR OPS_INTR_EN) s) (\<lambda>s.
     bindR (tb_wait_irq 100 s) (\<lambda>s.
     let s = tb_check ''basic interrupt fired'' (tb_irq s) s in
     bindR (tb_read_reg VALUE32 s) (\<lambda>(s, v).
     let s = tb_check ''VALUE reloaded to 5'' (v = 5) s in
     bindR (tb_write_reg INTSTATUS32 1 s) (\<lambda>s.
     let s = tb_wait_zero tf s;
         s = tb_check ''interrupt cleared'' (\<not> tb_irq s) s
     in tb_write_reg CTRL32 0 s)))))"

definition timer_tb_test2 :: "bool \<Rightarrow> timer_tb \<Rightarrow> timer_tb res" where
  "timer_tb_test2 tf s =
     bindR (tb_write_reg RELOAD32 3 (tb_do_reset tf s)) (\<lambda>s.
     bindR (tb_write_reg CTRL32 OPS_ENABLE s) (\<lambda>s.
     let s = tb_wait_time tf (5 * 20000) s;
         s = tb_check ''timerint not asserted without INTR_EN'' (\<not> tb_irq s) s in
     bindR (tb_read_reg INTSTATUS32 s) (\<lambda>(s, status).
     tb_write_reg CTRL32 0 (tb_check ''intr_status set without INTR_EN'' (status \<noteq> 0) s))))"

definition timer_tb_test3 :: "bool \<Rightarrow> timer_tb \<Rightarrow> timer_tb res" where
  "timer_tb_test3 tf s =
     bindR (tb_write_reg RELOAD32 100 (tb_do_reset tf s)) (\<lambda>s.
     bindR (tb_write_reg CTRL32 (OPS_ENABLE OR OPS_INTR_EN) s) (\<lambda>s.
     bindR (tb_write_reg CTRL32 0 (tb_wait_time tf (3 * 20000) s)) (\<lambda>s.
     bindR (tb_read_reg VALUE32 (tb_wait_time tf 100000 s)) (\<lambda>(s, val_before).
     bindR (tb_read_reg VALUE32 (tb_wait_time tf 100000 s)) (\<lambda>(s, val_after).
     Inr (tb_check ''timer stopped after disable'' (val_after = val_before) s))))))"

definition timer_tb_test4 :: "bool \<Rightarrow> timer_tb \<Rightarrow> timer_tb res" where
  "timer_tb_test4 tf s =
     bindR (tb_write_reg RELOAD32 42 (tb_do_reset tf s)) (\<lambda>s.
     bindR (tb_read_reg VALUE32 s) (\<lambda>(s, v).
     Inr (tb_check ''RELOAD write sets VALUE'' (v = 42) s)))"

definition timer_tb_test5 :: "bool \<Rightarrow> timer_tb \<Rightarrow> timer_tb res" where
  "timer_tb_test5 tf s =
     (let ctrl_val = OPS_ENABLE OR OPS_INTR_EN in
     bindR (tb_write_reg CTRL32 ctrl_val (tb_do_reset tf s)) (\<lambda>s.
     bindR (tb_read_reg CTRL32 s) (\<lambda>(s, ctrl_rb).
     tb_write_reg CTRL32 0 (tb_check ''CTRL read back'' (ctrl_rb = ctrl_val) s))))"

definition timer_tb_test6 :: "bool \<Rightarrow> timer_tb \<Rightarrow> timer_tb res" where
  "timer_tb_test6 tf s =
     bindR (tb_write_reg RELOAD32 50 s) (\<lambda>s.
     bindR (tb_write_reg CTRL32 (OPS_ENABLE OR OPS_INTR_EN) s) (\<lambda>s.
     let s = tb_wait_time tf (3 * 20000) s;
         s = tb_wait_zero tf (s\<lparr>tb_prstn := False\<rparr>);
         s = tb_wait_zero tf (s\<lparr>tb_prstn := True\<rparr>) in
     bindR (tb_read_reg CTRL32 s) (\<lambda>(s, ctrl_after).
     bindR (tb_read_reg VALUE32 s) (\<lambda>(s, val_after2).
     Inr (tb_check ''registers cleared after reset'' (ctrl_after = 0 \<and> val_after2 = 0) s)))))"

definition timer_tb_test7 :: "bool \<Rightarrow> timer_tb \<Rightarrow> timer_tb res" where
  "timer_tb_test7 tf s =
     bindR (tb_write_reg RELOAD32 20 (tb_do_reset tf s)) (\<lambda>s.
     bindR (tb_write_reg CTRL32 (OPS_ENABLE OR OPS_EX_EN OR OPS_INTR_EN) s) (\<lambda>s.
     bindR (tb_read_reg VALUE32 (tb_wait_time tf (5 * 20000) (s\<lparr>tb_extin := False\<rparr>))) (\<lambda>(s, val_paused).
     let s = tb_check ''timer paused with EXT_EN and extin=0'' (val_paused = 20) s in
     bindR (tb_wait_irq 100 (s\<lparr>tb_extin := True\<rparr>)) (\<lambda>s.
     bindR (tb_write_reg INTSTATUS32 1 s) (tb_write_reg CTRL32 0)))))"

text \<open>One round of the loop of test 8, and its rounds.\<close>

definition tb_pulse :: "bool \<Rightarrow> timer_tb \<Rightarrow> timer_tb" where
  "tb_pulse tf s =
     (let s = tb_wait_time tf 100000 s;
          s = tb_wait_zero tf (s\<lparr>tb_extin := True\<rparr>)
      in tb_wait_zero tf (s\<lparr>tb_extin := False\<rparr>))"

definition timer_tb_test8 :: "bool \<Rightarrow> timer_tb \<Rightarrow> timer_tb res" where
  "timer_tb_test8 tf s =
     bindR (tb_write_reg RELOAD32 3 ((tb_do_reset tf s)\<lparr>tb_extin := False\<rparr>)) (\<lambda>s.
     bindR (tb_write_reg CTRL32 (OPS_ENABLE OR OPS_EX_CLK OR OPS_INTR_EN) s) (\<lambda>s.
     let s = (tb_pulse tf ^^ 4) s;
         s = tb_check ''EXT_CLK interrupt after 4 edges'' (tb_irq s) s in
     bindR (tb_write_reg INTSTATUS32 1 s) (tb_write_reg CTRL32 0)))"

text \<open>The loop of test 9.\<close>

fun tb_interrupts :: "bool \<Rightarrow> nat \<Rightarrow> timer_tb \<Rightarrow> timer_tb res" where
  "tb_interrupts tf 0 s = Inr s"
| "tb_interrupts tf (Suc n) s =
     bindR (tb_wait_irq 100 s) (\<lambda>s.
     bindR (tb_write_reg INTSTATUS32 1 s) (\<lambda>s. tb_interrupts tf n (tb_wait_zero tf s)))"

definition timer_tb_test9 :: "bool \<Rightarrow> timer_tb \<Rightarrow> timer_tb res" where
  "timer_tb_test9 tf s =
     bindR (tb_write_reg RELOAD32 2 (tb_do_reset tf s)) (\<lambda>s.
     bindR (tb_write_reg CTRL32 (OPS_ENABLE OR OPS_INTR_EN) s) (\<lambda>s.
     bindR (tb_interrupts tf 3 s) (tb_write_reg CTRL32 0)))"

definition timer_tb_test10 :: "timer_tb \<Rightarrow> timer_tb res" where
  "timer_tb_test10 s =
     bindR (tb_write_reg_bad_len CTRL32 1 s) (\<lambda>(s, r).
     Inr (tb_check ''bad length returns TLM_GENERIC_ERROR_RESPONSE'' (r = TLM_GENERIC_ERROR_RESPONSE) s))"

definition timer_tb_test11 :: "timer_tb \<Rightarrow> timer_tb res" where
  "timer_tb_test11 s =
     bindR (tb_write_reg_bad_addr 0xFF 1 s) (\<lambda>(s, r).
     Inr (tb_check ''bad address returns TLM_ADDRESS_ERROR_RESPONSE'' (r = TLM_ADDRESS_ERROR_RESPONSE) s))"

definition timer_testbench :: "bool \<Rightarrow> timer_tb res" where
  "timer_testbench tf =
     fold (\<lambda>test r. bindR r test)
       [timer_tb_test1 tf, timer_tb_test2 tf, timer_tb_test3 tf, timer_tb_test4 tf, timer_tb_test5 tf,
        timer_tb_test6 tf, timer_tb_test7 tf, timer_tb_test8 tf, timer_tb_test9 tf, timer_tb_test10,
        timer_tb_test11] (Inr (tb_start tf))"

section \<open>Running the tests\<close>

text \<open>The state between two tests, with the timer disabled and out of reset.\<close>

abbreviation tbs where
  "tbs v r st inc ext tint w wk irq left \<equiv>
     \<lparr>tb_dut = \<lparr>ctrl_reg = 0, value_reg = v, reload_reg = r, intr_status = st, intr_clear_inc = inc,
        prstn = True, extin = ext, timerint = tint, timer_at = w, woken = wk\<rparr>,
      tb_prstn = True, tb_extin = ext, tb_irq = irq, tick_left = left, tb_failed = []\<rparr>"

text \<open>The registers, as the test bench uses them.\<close>

lemma tb_write_regs:
  "tb_write_reg CTRL32 v s = Inr (s\<lparr>tb_dut := wake Update_reg ((tb_dut s)\<lparr>ctrl_reg := v AND 0xF\<rparr>)\<rparr>)"
  "tb_write_reg RELOAD32 v s = Inr (s\<lparr>tb_dut := wake Update_reg ((tb_dut s)\<lparr>reload_reg := v, value_reg := v\<rparr>)\<rparr>)"
  "tb_write_reg INTSTATUS32 1 s = Inr (s\<lparr>tb_dut := wake Intr_clear ((tb_dut s)\<lparr>intr_status := False, intr_clear_inc := True\<rparr>)\<rparr>)"
  by (simp_all add: tb_write_reg_def tb_payload_def timer_b_transport_def timer_write_reg_def ptr_load_def reg_defs Let_def empty_payload_def)

lemma tb_read_regs:
  "tb_read_reg CTRL32 s = Inr (s, ctrl_reg (tb_dut s))"
  "tb_read_reg VALUE32 s = Inr (s, value_reg (tb_dut s))"
  "tb_read_reg INTSTATUS32 s = Inr (s, of_bool (intr_status (tb_dut s)))"
  by (simp_all add: tb_read_reg_def tb_payload_def timer_b_transport_def timer_read_reg_def ptr_load_def ptr_store_def reg_defs Let_def empty_payload_def)

lemma tb_wait_irq_numeral: "tb_wait_irq (numeral k) s =
     (let s' = tb_delta s
      in if \<not> tb_irq s \<and> tb_irq s' then Inr s'
         else if woken (tb_dut s') then tb_wait_irq (pred_numeral k) s'
         else if timer_at (tb_dut s') = Wait_tick
         then tb_wait_irq (pred_numeral k) (s'\<lparr>tb_dut := wake Tick_elapsed (tb_dut s')\<rparr>)
         else Inl Would_wait)"
  by (simp add: numeral_eq_Suc)

lemmas kernel_eval = tb_wait_zero_def tb_wait_time_def tb_delta_def tb_run_timer_def tb_do_reset_def
  timer_resume_def timer_loop_def timer_count_def timer_drive_def timer_reset_def wake_def TICK_PERIOD_def Let_def
  OPS_ENABLE_def OPS_EX_EN_def OPS_EX_CLK_def OPS_INTR_EN_def tb_check_def tb_write_regs tb_read_regs

lemma tb_start_eq: "tb_start tf =
    tbs 0 0 False False False False Wait_disabled False False 20000"
  by (cases tf; simp add: tb_start_def timer_new_def kernel_eval cong: eval_congs)

lemma funpow_4: "(f ^^ 4) x = f (f (f (f x)))"
  by (simp add: numeral_eq_Suc)

lemma tb_interrupts_3: "tb_interrupts tf 3 s = tb_interrupts tf (Suc (Suc (Suc 0))) s"
  by (simp only: numeral_3_eq_3)

lemma timer_tb_test1_ok: "timer_tb_test1 tf (tbs 0 0 False False False False Wait_disabled False False 20000) =
    Inr (tbs 5 5 False False False False Wait_tick True False 20000)"
  by (cases tf; simp add: timer_tb_test1_def kernel_eval tb_wait_irq_numeral cong: eval_congs)

lemma timer_tb_test2_ok: "timer_tb_test2 tf (tbs 5 5 False False False False Wait_tick True False 20000) =
    Inr (tbs (if tf then 2 else 3) 3 True False False False Wait_tick True False 20000)"
  by (cases tf; simp add: timer_tb_test2_def kernel_eval tb_elapse.simps cong: eval_congs)

lemma timer_tb_test3_ok: "timer_tb_test3 tf (tbs (if tf then 2 else 3) 3 True False False False Wait_tick True False 20000) =
    Inr (tbs (if tf then 96 else 97) 100 False False False False Wait_disabled False False 0)"
  by (cases tf; simp add: timer_tb_test3_def kernel_eval tb_elapse.simps cong: eval_congs)

lemma timer_tb_test4_ok: "timer_tb_test4 tf (tbs (if tf then 96 else 97) 100 False False False False Wait_disabled False False 0) =
    Inr (tbs 42 42 False False False False (if tf then Wait_disabled else Wait_reset) True False 20000)"
  by (cases tf; simp add: timer_tb_test4_def kernel_eval cong: eval_congs)

lemma timer_tb_test5_ok: "timer_tb_test5 tf (tbs 42 42 False False False False (if tf then Wait_disabled else Wait_reset) True False 20000) =
    Inr (tbs 0 0 False False False False (if tf then Wait_disabled else Wait_reset) True False 20000)"
  by (cases tf; simp add: timer_tb_test5_def kernel_eval cong: eval_congs)

lemma timer_tb_test6_ok: "timer_tb_test6 tf (tbs 0 0 False False False False (if tf then Wait_disabled else Wait_reset) True False 20000) =
    Inr (tbs 0 0 False False False False (if tf then Wait_disabled else Wait_reset) (\<not> tf) False 20000)"
  by (cases tf; simp add: timer_tb_test6_def kernel_eval tb_elapse.simps cong: eval_congs)

lemma timer_tb_test7_ok: "timer_tb_test7 tf (tbs 0 0 False False False False (if tf then Wait_disabled else Wait_reset) (\<not> tf) False 20000) =
    Inr (tbs 20 20 False True True True Wait_tick True True 20000)"
  by (cases tf; simp add: timer_tb_test7_def kernel_eval tb_elapse.simps tb_wait_irq_numeral cong: eval_congs)

lemma timer_tb_test8_ok: "timer_tb_test8 tf (tbs 20 20 False True True True Wait_tick True True 20000) =
    Inr (tbs 3 3 False True False True Wait_ext True True 20000)"
  by (cases tf; simp add: timer_tb_test8_def kernel_eval tb_elapse.simps tb_pulse_def funpow_4 cong: eval_congs)

lemma timer_tb_test9_ok: "timer_tb_test9 tf (tbs 3 3 False True False True Wait_ext True True 20000) =
    Inr (tbs 2 2 False False False False Wait_tick True False 20000)"
  by (cases tf; simp add: timer_tb_test9_def kernel_eval tb_interrupts_3 tb_wait_irq_numeral cong: eval_congs)

lemma timer_tb_test10_ok: "timer_tb_test10 s = Inr s"
  by (simp add: timer_tb_test10_def tb_write_reg_bad_len_def tb_payload_def timer_b_transport_def
      tb_check_def Let_def)

lemma timer_tb_test11_ok: "timer_tb_test11 s = Inr s"
  by (simp add: timer_tb_test11_def tb_write_reg_bad_addr_def tb_payload_def timer_b_transport_def
      timer_write_reg_def ptr_load_def reg_defs tb_check_def empty_payload_def Let_def)

section \<open>Properties\<close>

text \<open>
  The timer passes its test bench. Whichever of the two threads the kernel runs first when
  both are runnable, the eleven tests run to the end, every \<open>wait\<close> for the interrupt returns, and
  no check fails.
\<close>

lemma timer_testbench_passes: "\<exists>s. timer_testbench timer_first = Inr s \<and> tb_failed s = []"
  by (simp add: timer_testbench_def tb_start_eq timer_tb_test1_ok timer_tb_test2_ok timer_tb_test3_ok
      timer_tb_test4_ok timer_tb_test5_ok timer_tb_test6_ok timer_tb_test7_ok timer_tb_test8_ok
      timer_tb_test9_ok timer_tb_test10_ok timer_tb_test11_ok)

end
