(* ===== verification/Pwm.thy ===== *)
theory Pwm
  imports Systemc
begin

text \<open>
  \<open>components/pwm_tlm\<close>: the PWM generator \<open>PWM\<close> and the stimulus \<open>TB\<close> of its test bench. \<open>pwm_tick\<close>
  is one round of \<open>pwm_thread\<close>, after its \<open>wait(10, SC_NS)\<close>, with the C++ arithmetic written out:
  the sums are 32-bit, the counter and the shifted count are cut to 16 bits, and the remainder
  by a period of zero is a fault.
\<close>

section \<open>The module\<close>

definition REG_CFG :: u64 where [reg_defs]: "REG_CFG = 0x08"
definition REG_PWM_EN :: u64 where [reg_defs]: "REG_PWM_EN = 0x0C"
definition REG_INVERT :: u64 where [reg_defs]: "REG_INVERT = 0x10"
definition REG_PWM_PARAM0 :: u64 where [reg_defs]: "REG_PWM_PARAM0 = 0x14"
definition REG_DUTY0 :: u64 where [reg_defs]: "REG_DUTY0 = 0x2C"
definition REG_PERIOD :: u64 where [reg_defs]: "REG_PERIOD = 0x30"

record pwm =
  cfg :: u32
  pwm_en :: u32
  invert :: u32
  phase_delay :: u32
  duty_cycle :: u32
  period :: u32
  counter :: u16
  pwm_out :: bool

definition pwm_new :: pwm where
  "pwm_new = \<lparr>cfg = 0, pwm_en = 0, invert = 0, phase_delay = 0, duty_cycle = 0, period = 256,
     counter = 0, pwm_out = False\<rparr>"

definition pwm_write_reg :: "u64 \<Rightarrow> u32 \<Rightarrow> pwm \<Rightarrow> pwm" where
  "pwm_write_reg addr v m =
     (if addr = REG_CFG then m\<lparr>cfg := v\<rparr>
      else if addr = REG_PWM_EN then m\<lparr>pwm_en := v\<rparr>
      else if addr = REG_INVERT then m\<lparr>invert := v\<rparr>
      else if addr = REG_PWM_PARAM0 then m\<lparr>phase_delay := v\<rparr>
      else if addr = REG_DUTY0 then m\<lparr>duty_cycle := v\<rparr>
      else m\<lparr>period := v\<rparr>)"

definition pwm_read_reg :: "u64 \<Rightarrow> pwm \<Rightarrow> u32" where
  "pwm_read_reg addr m =
     (if addr = REG_CFG then cfg m
      else if addr = REG_PWM_EN then pwm_en m
      else if addr = REG_INVERT then invert m
      else if addr = REG_PWM_PARAM0 then phase_delay m
      else if addr = REG_DUTY0 then duty_cycle m
      else period m)"

text \<open>The addresses that have a case of their own in the two switches.\<close>

definition pwm_regs :: "u64 list" where
  "pwm_regs = [REG_CFG, REG_PWM_EN, REG_INVERT, REG_PWM_PARAM0, REG_DUTY0, REG_PERIOD]"

definition pwm_b_transport :: "pwm transport" where
  "pwm_b_transport m p delay =
     (if address p \<notin> set pwm_regs
      then Inr (m, p\<lparr>response_status := TLM_ADDRESS_ERROR_RESPONSE\<rparr>, delay)
      else if command p = TLM_WRITE_COMMAND
      then bindR (ptr_load p 4) (\<lambda>bs.
           Inr (pwm_write_reg (address p) (le_word bs) m,
                p\<lparr>response_status := TLM_OK_RESPONSE\<rparr>, delay + 10000))
      else bindR (ptr_store p (le_bytes 4 (pwm_read_reg (address p) m))) (\<lambda>q.
           Inr (m, q\<lparr>response_status := TLM_OK_RESPONSE\<rparr>, delay + 10000)))"

definition pwm_tick :: "pwm \<Rightarrow> pwm res" where
  "pwm_tick m =
     (if drop_bit 31 (cfg m) AND 1 = 0 then Inr m
      else if period m = 0 then Inl Div_by_zero
      else let m = m\<lparr>counter := ucast ((ucast (counter m) + 1) mod period m)\<rparr>;
               shifted = ucast ((ucast (counter m) + period m - phase_delay m) mod period m) :: u16;
               pwm = (pwm_en m AND 1 \<noteq> 0 \<and> ucast shifted < duty_cycle m);
               pwm = (if invert m AND 1 \<noteq> 0 then \<not> pwm else pwm)
           in Inr (m\<lparr>pwm_out := pwm\<rparr>))"

text \<open>A number of rounds, with the levels written to the output, oldest first.\<close>

fun pwm_ticks :: "nat \<Rightarrow> pwm \<Rightarrow> (pwm \<times> bool list) res" where
  "pwm_ticks 0 m = Inr (m, [])"
| "pwm_ticks (Suc n) m =
     bindR (pwm_tick m) (\<lambda>m1. bindR (pwm_ticks n m1) (\<lambda>(m2, outs). Inr (m2, pwm_out m1 # outs)))"

definition high_ticks :: "bool list \<Rightarrow> nat" where
  "high_ticks outs = length (filter id outs)"

text \<open>What the module needs of a payload for a register: four bytes behind the pointer.\<close>

definition pwm_ok :: "payload \<Rightarrow> bool" where
  "pwm_ok p \<longleftrightarrow> (address p \<in> set pwm_regs \<longrightarrow> (\<exists>b. data_ptr p = Some b \<and> 4 \<le> length b))"

section \<open>The stimulus of the test bench\<close>

definition pwm_tb_write :: "u32 \<Rightarrow> u32 \<Rightarrow> pwm \<Rightarrow> pwm res" where
  "pwm_tb_write addr v m =
     bindR (pwm_b_transport m (empty_payload\<lparr>command := TLM_WRITE_COMMAND, address := ucast addr,
         data_ptr := Some (le_bytes 4 v), data_length := 4\<rparr>) 0) (\<lambda>(m', p, d). Inr m')"

fun pwm_tb_writes :: "(u32 \<times> u32) list \<Rightarrow> pwm \<Rightarrow> pwm res" where
  "pwm_tb_writes [] m = Inr m"
| "pwm_tb_writes ((a, v) # ws) m = bindR (pwm_tb_write a v m) (pwm_tb_writes ws)"

text \<open>The register writes of the test cases TC1 to TC7; each is followed by \<open>wait(1000, SC_NS)\<close>.\<close>

definition pwm_test_cases :: "(u32 \<times> u32) list list" where
  "pwm_test_cases =
    [[(0x08, 0x80000000), (0x0C, 0), (0x10, 0), (0x14, 0), (0x2C, 40), (0x30, 100)],
     [(0x0C, 1), (0x10, 0), (0x14, 0), (0x2C, 40), (0x30, 100)],
     [(0x2C, 75)],
     [(0x14, 20)],
     [(0x10, 1)],
     [(0x10, 0), (0x2C, 0)],
     [(0x2C, 100)]]"

text \<open>The run, with the number of rounds with a high output during each wait of 100 rounds.\<close>

fun pwm_tb_run :: "(u32 \<times> u32) list list \<Rightarrow> pwm \<Rightarrow> nat list res" where
  "pwm_tb_run [] m = Inr []"
| "pwm_tb_run (ws # cases) m =
     bindR (pwm_tb_writes ws m) (\<lambda>m1.
     bindR (pwm_ticks 100 m1) (\<lambda>(m2, outs).
     bindR (pwm_tb_run cases m2) (\<lambda>ns. Inr (high_ticks outs # ns))))"

section \<open>Lemmas\<close>

lemma pwm_good_outcome:
  assumes "pwm_ok p"
  shows "good_outcome (\<lambda>_. True) p (pwm_b_transport m p d)"
  using assms
  by (auto simp: pwm_b_transport_def pwm_ok_def ptr_load_def ptr_store_def memcpy_from_def memcpy_to_def
      same_attrs_def)

interpretation pwm: tlm_target pwm_b_transport "\<lambda>_. True" pwm_ok
  by (rule tlm_targetI) (rule pwm_good_outcome)

text \<open>A configuration the 16-bit counter can follow, with the counter inside the period.\<close>

definition pwm_running :: "pwm \<Rightarrow> bool" where
  "pwm_running m \<longleftrightarrow> bit (cfg m) 31 \<and> 0 < unat (period m) \<and> unat (period m) \<le> 2 ^ 16 \<and>
     phase_delay m \<le> period m \<and> unat (counter m) < unat (period m)"

definition pwm_level :: "pwm \<Rightarrow> nat \<Rightarrow> bool" where
  "pwm_level m k \<longleftrightarrow> (bit (pwm_en m) 0 \<and>
     (unat (counter m) + k + (unat (period m) - unat (phase_delay m))) mod unat (period m)
       < unat (duty_cycle m)) \<noteq> bit (invert m) 0"

lemma and_1_bit: "(x :: 'a::len word) AND 1 \<noteq> 0 \<longleftrightarrow> bit x 0"
  by (simp add: and_one_eq bit_0 odd_iff_mod_2_eq_one)

lemma unat_cut: "unat (x :: u32) < 2 ^ 16 \<Longrightarrow> unat (ucast x :: u16) = unat x"
  by (simp add: unsigned_ucast_eq take_bit_nat_eq_self)

lemma unat_widen [simp]: "unat (ucast (x :: u16) :: u32) = unat x"
proof -
  have "unat x < 2 ^ 16" using unsigned_less [of x, where ?'a = nat] by simp
  then show ?thesis by (simp add: unsigned_ucast_eq take_bit_nat_eq_self)
qed

lemma pwm_tick_running:
  assumes "pwm_running m"
  obtains m' where "pwm_tick m = Inr m'"
    and "m' = m\<lparr>counter := counter m', pwm_out := pwm_level m 1\<rparr>"
    and "unat (counter m') = (unat (counter m) + 1) mod unat (period m)"
proof -
  let ?P = "unat (period m)" and ?c = "(ucast (counter m) + 1) mod period m" 
  have P: "0 < ?P" "?P \<le> 2 ^ 16" "unat (phase_delay m) \<le> ?P" "unat (counter m) < ?P" "period m \<noteq> 0"
    using assms by (auto simp: pwm_running_def word_le_nat_alt)
  have c: "unat ?c = (unat (counter m) + 1) mod ?P"
    using P by (simp add: unat_mod unat_word_ariths)
  have small: "x mod ?P < 2 ^ 16" for x
    using mod_less_divisor [OF P(1)] P(2) by (rule order_less_le_trans)
  have c16: "unat (ucast ?c :: u16) = (unat (counter m) + 1) mod ?P"
    using c small by (metis unat_cut)
  let ?s = "(ucast (ucast ?c :: u16) + period m - phase_delay m) mod period m"
  have sum: "unat (ucast (ucast ?c :: u16) + period m) = (unat (counter m) + 1) mod ?P + ?P"
    using P c16 small [of "unat (counter m) + 1"] by (simp add: unat_word_ariths)
  have "unat (ucast (ucast ?c :: u16) + period m - phase_delay m) =
      (unat (counter m) + 1) mod ?P + ?P - unat (phase_delay m)"
    using sum P by (simp add: unat_sub_if')
  then have "unat ?s = ((unat (counter m) + 1) mod ?P + (?P - unat (phase_delay m))) mod ?P"
    using P by (simp add: unat_mod)
  then have s: "unat ?s = (unat (counter m) + 1 + (?P - unat (phase_delay m))) mod ?P"
    by (simp add: mod_add_left_eq)
  then have "unat (ucast ?s :: u16) = unat ?s"
    using small by (intro unat_cut) simp
  then have lt: "ucast (ucast ?s :: u16) < duty_cycle m \<longleftrightarrow>
      (unat (counter m) + 1 + (?P - unat (phase_delay m))) mod ?P < unat (duty_cycle m)"
    by (simp add: word_less_nat_alt s)
  show thesis
  proof (rule that)
    show "pwm_tick m = Inr (m\<lparr>counter := ucast ?c, pwm_out := pwm_level m 1\<rparr>)"
      using assms P(5) lt
      by (auto simp: pwm_tick_def Let_def pwm_level_def and_1_bit pwm_running_def
          bit_iff_odd_drop_bit and_one_eq odd_iff_mod_2_eq_one)
  qed (simp_all add: c16)
qed

text \<open>Advancing the reference point by one tick.\<close>

lemma pwm_level_shift:
  assumes "m' = m\<lparr>counter := c, pwm_out := b\<rparr>" and "unat c = (unat (counter m) + 1) mod unat (period m)"
  shows "pwm_level m' k = pwm_level m (Suc k)"
proof -
  let ?P = "unat (period m)" and ?q = "unat (period m) - unat (phase_delay m)"
  have "((unat (counter m) + 1) mod ?P + (k + ?q)) mod ?P = (unat (counter m) + 1 + (k + ?q)) mod ?P"
    by (rule mod_add_left_eq)
  then show ?thesis using assms by (simp add: pwm_level_def add.assoc)
qed

lemma pwm_ticks_running:
  assumes "pwm_running m"
  shows "\<exists>m'. pwm_ticks n m = Inr (m', map (\<lambda>k. pwm_level m (Suc k)) [0..<n]) \<and>
    unat (counter m') = (unat (counter m) + n) mod unat (period m) \<and>
    m' = m\<lparr>counter := counter m', pwm_out := pwm_out m'\<rparr> \<and> pwm_running m'"
  using assms
proof (induction n arbitrary: m)
  case 0
  then show ?case by (simp add: pwm_running_def)
next
  case (Suc n)
  obtain m1 where m1: "pwm_tick m = Inr m1" "m1 = m\<lparr>counter := counter m1, pwm_out := pwm_level m 1\<rparr>"
    "unat (counter m1) = (unat (counter m) + 1) mod unat (period m)"
    by (rule pwm_tick_running [OF Suc.prems])
  have out: "pwm_out m1 = pwm_level m 1" by (subst m1(2)) simp
  have sel: "period m1 = period m" "cfg m1 = cfg m" "phase_delay m1 = phase_delay m"
    by (subst m1(2), simp)+
  have run: "pwm_running m1"
    using Suc.prems m1(3) by (simp add: pwm_running_def sel)
  have lev: "pwm_level m1 k = pwm_level m (Suc k)" for k by (rule pwm_level_shift [OF m1(2,3)])
  from Suc.IH [OF run] obtain m2 where
    m2: "pwm_ticks n m1 = Inr (m2, map (\<lambda>k. pwm_level m1 (Suc k)) [0..<n])"
    "unat (counter m2) = (unat (counter m1) + n) mod unat (period m1)"
    "m2 = m1\<lparr>counter := counter m2, pwm_out := pwm_out m2\<rparr>" "pwm_running m2" by blast
  have outs: "map (\<lambda>k. pwm_level m (Suc k)) [0..<Suc n] =
      pwm_out m1 # map (\<lambda>k. pwm_level m1 (Suc k)) [0..<n]"
    by (simp add: out lev upt_conv_Cons map_Suc_upt [symmetric] comp_def del: upt_Suc)
  have "m2 = m\<lparr>counter := counter m2, pwm_out := pwm_out m2\<rparr>"
    by (subst m2(3), subst m1(2)) simp
  moreover have "unat (counter m2) = (unat (counter m) + Suc n) mod unat (period m)"
    by (simp add: m2(2) m1(3) sel mod_simps)
  ultimately show ?case using m1(1) m2 outs by auto
qed

text \<open>Over a whole period the shifted count takes every value once.\<close>

lemma count_residues:
  assumes "0 < (P :: nat)"
  shows "length (filter (\<lambda>k. (s + k) mod P < d) [0..<P]) = min d P"
proof -
  have inj: "inj_on (\<lambda>k. (s + k) mod P) {..<P}"
  proof (rule inj_onI)
    fix x y assume xy: "x \<in> {..<P}" "y \<in> {..<P}" "(s + x) mod P = (s + y) mod P"
    have "u = v" if "u \<le> v" "v < P" "(s + u) mod P = (s + v) mod P" for u v
    proof -
      have "P dvd v - u" using that mod_eq_dvd_iff_nat [of "s + u" "s + v" P] by simp
      with that show ?thesis by (cases "v = u") (auto dest: dvd_imp_le)
    qed
    with xy show "x = y" by (metis lessThan_iff nat_le_linear)
  qed
  have "(\<lambda>k. (s + k) mod P) ` {..<P} \<subseteq> {..<P}" using assms by auto
  then have img: "(\<lambda>k. (s + k) mod P) ` {..<P} = {..<P}"
    using inj by (simp add: endo_inj_surj)
  have "length (filter (\<lambda>k. (s + k) mod P < d) [0..<P]) =
      card (set (filter (\<lambda>k. (s + k) mod P < d) [0..<P]))"
    by (rule distinct_card [symmetric]) simp
  also have "set (filter (\<lambda>k. (s + k) mod P < d) [0..<P]) = {k \<in> {..<P}. (s + k) mod P < d}"
    by auto
  also have "card {k \<in> {..<P}. (s + k) mod P < d} = card ((\<lambda>k. (s + k) mod P) ` {k \<in> {..<P}. (s + k) mod P < d})"
    by (rule card_image [symmetric], rule inj_on_subset [OF inj]) auto
  also have "(\<lambda>k. (s + k) mod P) ` {k \<in> {..<P}. (s + k) mod P < d}
      = {x \<in> (\<lambda>k. (s + k) mod P) ` {..<P}. x < d}" by blast
  also have "\<dots> = {x \<in> {..<P}. x < d}" by (simp only: img)
  also have "{x \<in> {..<P}. x < d} = {..<min d P}" by auto
  finally show ?thesis by simp
qed

lemma high_ticks_period:
  assumes "pwm_running m"
  defines "P \<equiv> unat (period m)"
  defines "h \<equiv> (if bit (pwm_en m) 0 then min (unat (duty_cycle m)) P else 0)"
  shows "high_ticks (map (\<lambda>k. pwm_level m (Suc k)) [0..<P]) = (if bit (invert m) 0 then P - h else h)"
proof -
  define s where "s = unat (counter m) + 1 + (P - unat (phase_delay m))"
  have "0 < P" using assms(1) by (simp add: P_def pwm_running_def)
  note cnt = count_residues [OF this, of s "unat (duty_cycle m)"]
  have lev: "pwm_level m (Suc k) \<longleftrightarrow> (bit (pwm_en m) 0 \<and> (s + k) mod P < unat (duty_cycle m)) \<noteq> bit (invert m) 0"
    for k by (simp add: pwm_level_def s_def P_def ac_simps)
  have ht: "high_ticks (map f [0..<P]) = length (filter f [0..<P])" for f
    by (simp add: high_ticks_def filter_map comp_def)
  have neg: "length (filter (\<lambda>k. \<not> (s + k) mod P < unat (duty_cycle m)) [0..<P]) = P - min (unat (duty_cycle m)) P"
    using sum_length_filter_compl [of "\<lambda>k. (s + k) mod P < unat (duty_cycle m)" "[0..<P]"] cnt by simp
  show ?thesis
    unfolding ht using cnt neg by (simp add: lev h_def cong: filter_cong)
qed

lemma pwm_tb_write_eq:
  assumes "ucast addr \<in> set pwm_regs"
  shows "pwm_tb_write addr v m = Inr (pwm_write_reg (ucast addr) v m)"
  using assms by (simp add: pwm_tb_write_def pwm_b_transport_def ptr_load_def)

text \<open>One wait of the test bench, of one period of 100 rounds.\<close>

lemma pwm_tb_wait:
  assumes "pwm_running m" and "period m = 100"
  shows "\<exists>m' outs. pwm_ticks 100 m = Inr (m', outs) \<and>
    high_ticks outs = (if bit (invert m) 0
      then 100 - (if bit (pwm_en m) 0 then min (unat (duty_cycle m)) 100 else 0)
      else if bit (pwm_en m) 0 then min (unat (duty_cycle m)) 100 else 0) \<and>
    m' = m\<lparr>pwm_out := pwm_out m'\<rparr> \<and> pwm_running m'"
proof -
  from pwm_ticks_running [OF assms(1), of 100] obtain m' where
    m': "pwm_ticks 100 m = Inr (m', map (\<lambda>k. pwm_level m (Suc k)) [0..<100])"
    "unat (counter m') = (unat (counter m) + 100) mod unat (period m)"
    "m' = m\<lparr>counter := counter m', pwm_out := pwm_out m'\<rparr>" "pwm_running m'" by blast
  have "unat (counter m) < 100" using assms by (simp add: pwm_running_def)
  with m'(2) assms(2) have "counter m' = counter m" by (simp add: word_unat_eq_iff)
  with m'(3) have "m' = m\<lparr>pwm_out := pwm_out m'\<rparr>" by simp
  moreover have "high_ticks (map (\<lambda>k. pwm_level m (Suc k)) [0..<100]) =
    (if bit (invert m) 0
      then 100 - (if bit (pwm_en m) 0 then min (unat (duty_cycle m)) 100 else 0)
      else if bit (pwm_en m) 0 then min (unat (duty_cycle m)) 100 else 0)"
    using high_ticks_period [OF assms(1)] assms(2) by simp
  ultimately show ?thesis using m'(1,4) by blast
qed

lemma counter_on: "bit (0x80000000 :: u32) 31"
  by code_simp

text \<open>The states of the test bench's waits: counter enabled and at zero, period 100.\<close>

definition tb_state :: "u32 \<Rightarrow> u32 \<Rightarrow> u32 \<Rightarrow> u32 \<Rightarrow> bool \<Rightarrow> pwm" where
  "tb_state en i ph du out = \<lparr>cfg = 0x80000000, pwm_en = en, invert = i, phase_delay = ph,
     duty_cycle = du, period = 100, counter = 0, pwm_out = out\<rparr>"

lemma pwm_tb_case:
  assumes "pwm_tb_writes ws m = Inr (tb_state en i ph du out)" and "ph \<le> 100"
    and "\<And>out'. pwm_tb_run cases (tb_state en i ph du out') = Inr ns"
    and "n = (if bit i 0 then 100 - (if bit en 0 then min (unat du) 100 else 0)
      else if bit en 0 then min (unat du) 100 else 0)"
  shows "pwm_tb_run (ws # cases) m = Inr (n # ns)"
proof -
  have "pwm_running (tb_state en i ph du out)"
    using assms(2) by (simp add: tb_state_def pwm_running_def counter_on)
  from pwm_tb_wait [OF this] obtain m' outs where
    m': "pwm_ticks 100 (tb_state en i ph du out) = Inr (m', outs)" "high_ticks outs = n"
    "m' = (tb_state en i ph du out)\<lparr>pwm_out := pwm_out m'\<rparr>"
    by (auto simp: tb_state_def assms(4))
  from m'(3) have "m' = tb_state en i ph du (pwm_out m')" by (simp add: tb_state_def)
  then have "pwm_tb_run cases m' = Inr ns" using assms(3) by metis
  with m' assms(1) show ?thesis by simp
qed

lemmas pwm_tb_eval = pwm_tb_write_eq pwm_write_reg_def pwm_regs_def tb_state_def reg_defs

section \<open>Properties\<close>

text \<open>
  The waveform. With the counter enabled, a period from 1 to 65536, a phase delay of at most
  the period and the counter inside the period, any number of rounds runs without fault, and the
  output of round \<open>k\<close> is high iff the PWM is enabled and the counter at that round, shifted back by
  the phase delay within the period, is below the duty value; the inversion bit inverts it. The
  counter stays inside the period.
\<close>

lemma pwm_waveform:
  assumes "bit (cfg m) 31" and "0 < unat (period m)" and "unat (period m) \<le> 2 ^ 16"
    and "phase_delay m \<le> period m" and "unat (counter m) < unat (period m)"
  shows "\<exists>m' outs. pwm_ticks n m = Inr (m', outs) \<and> length outs = n \<and>
    (\<forall>k < n. outs ! k \<longleftrightarrow> (bit (pwm_en m) 0 \<and>
       (unat (counter m) + Suc k + (unat (period m) - unat (phase_delay m))) mod unat (period m)
         < unat (duty_cycle m)) \<noteq> bit (invert m) 0) \<and>
    unat (counter m') = (unat (counter m) + n) mod unat (period m)"
proof -
  have "pwm_running m" using assms by (simp add: pwm_running_def)
  from pwm_ticks_running [OF this, of n] show ?thesis by (auto simp: pwm_level_def)
qed

text \<open>
  C25: the duty cycle. With the counter enabled, a period from 1 to 65536, a phase delay of at most
  the period and the counter inside the period, over one whole period of rounds the output is high
  in exactly \<open>min duty period\<close> rounds when the PWM is enabled and in none when it is not, and with
  inversion in the others; within these bounds the phase delay does not change the count.
\<close>

theorem pwm_duty_cycle:
  assumes "bit (cfg m) 31" and "0 < unat (period m)" and "unat (period m) \<le> 2 ^ 16"
    and "phase_delay m \<le> period m" and "unat (counter m) < unat (period m)"
  defines "P \<equiv> unat (period m)"
  defines "h \<equiv> (if bit (pwm_en m) 0 then min (unat (duty_cycle m)) P else 0)"
  shows "\<exists>m' outs. pwm_ticks P m = Inr (m', outs) \<and>
    high_ticks outs = (if bit (invert m) 0 then P - h else h)"
proof -
  have run: "pwm_running m" using assms(1-5) by (simp add: pwm_running_def)
  from pwm_ticks_running [OF run, of P] high_ticks_period [OF run] show ?thesis
    unfolding P_def h_def by auto
qed

theorem pwm_duty_cycle_witness:
  "\<exists>m' outs. pwm_ticks 100 (pwm_new\<lparr>cfg := 0x80000000, pwm_en := 1, duty_cycle := 40, period := 100,
     phase_delay := 20\<rparr>) = Inr (m', outs) \<and> high_ticks outs = 40"
proof -
  let ?m = "pwm_new\<lparr>cfg := 0x80000000, pwm_en := 1, duty_cycle := 40, period := 100, phase_delay := 20\<rparr>"
  have b: "bit (cfg ?m) 31" by (simp add: counter_on)
  from pwm_duty_cycle [OF b] show ?thesis by (simp add: pwm_new_def)
qed

text \<open>
  A period of zero stops the simulation. Through the bus a zero written to \<open>PERIOD\<close> is
  accepted, and with the counter enabled the next round of the thread divides by zero.
\<close>

lemma pwm_period_zero_faults:
  assumes "bit (cfg m) 31"
  shows "\<exists>m'. write32 pwm_b_transport REG_PERIOD 0 m = Inr m' \<and> pwm_tick m' = Inl Div_by_zero"
proof -
  have "write32 pwm_b_transport REG_PERIOD 0 m = Inr (m\<lparr>period := 0\<rparr>)"
    by (simp add: write32_def pwm_b_transport_def pwm_regs_def pwm_write_reg_def reg_defs ptr_load_def
        is_response_error_def)
  moreover have "pwm_tick (m\<lparr>period := 0\<rparr>) = Inl Div_by_zero"
    using assms by (simp add: pwm_tick_def bit_iff_odd_drop_bit and_one_eq odd_iff_mod_2_eq_one)
  ultimately show ?thesis by blast
qed

text \<open>
  The test bench's stimulus produces the duty cycles it announces. Run from power-up, the
  seven test cases (disabled, 40 %, 75 %, phase delay, inverted, 0 %, 100 %) have the output high
  for 0, 40, 75, 75, 25, 0 and 100 of the 100 rounds of their waits.
\<close>

lemma pwm_testbench_duties: "pwm_tb_run pwm_test_cases pwm_new = Inr [0, 40, 75, 75, 25, 0, 100]"
  unfolding pwm_test_cases_def
proof (rule pwm_tb_case [where en = 0 and i = 0 and ph = 0 and du = 40 and out = False])
  fix o1 show "pwm_tb_run [[(0x0C, 1), (0x10, 0), (0x14, 0), (0x2C, 40), (0x30, 100)], [(0x2C, 75)],
     [(0x14, 20)], [(0x10, 1)], [(0x10, 0), (0x2C, 0)], [(0x2C, 100)]] (tb_state 0 0 0 40 o1)
     = Inr [40, 75, 75, 25, 0, 100]"
  proof (rule pwm_tb_case [where en = 1 and i = 0 and ph = 0 and du = 40])
    fix o2 show "pwm_tb_run [[(0x2C, 75)], [(0x14, 20)], [(0x10, 1)], [(0x10, 0), (0x2C, 0)],
       [(0x2C, 100)]] (tb_state 1 0 0 40 o2) = Inr [75, 75, 25, 0, 100]"
    proof (rule pwm_tb_case [where en = 1 and i = 0 and ph = 0 and du = 75])
      fix o3 show "pwm_tb_run [[(0x14, 20)], [(0x10, 1)], [(0x10, 0), (0x2C, 0)],
         [(0x2C, 100)]] (tb_state 1 0 0 75 o3) = Inr [75, 25, 0, 100]"
        by (rule pwm_tb_case [where en = 1 and i = 0 and ph = 20 and du = 75], simp add: pwm_tb_eval, simp,
            rule pwm_tb_case [where en = 1 and i = 1 and ph = 20 and du = 75], simp add: pwm_tb_eval, simp,
            rule pwm_tb_case [where en = 1 and i = 0 and ph = 20 and du = 0], simp add: pwm_tb_eval, simp,
            rule pwm_tb_case [where en = 1 and i = 0 and ph = 20 and du = 100], simp add: pwm_tb_eval)
          simp_all
    qed (simp_all add: pwm_tb_eval)
  qed (simp_all add: pwm_tb_eval)
qed (simp_all add: pwm_tb_eval pwm_new_def)

end
