(* ===== verification/Spi_Testbench.thy ===== *)
theory Spi_Testbench
  imports Spi_Link
begin

text \<open>
  \<open>components/spi_tlm/main.cpp\<close>: the stress test of the SPI controller, with \<open>DummyPeripheral\<close>
  behind it. The thread \<open>run_test\<close> and the processes of the controller are the only ones, so a
  \<open>wait\<close> of the test is a function that runs the controller, in the schedule of \<open>spi_cycle\<close>, and
  lets time pass until the test resumes. Where a frame ends at that very time, the test runs
  first; it does not access the controller there.
\<close>

section \<open>The test and the kernel\<close>

text \<open>
  What the test prints of its observations; \<open>st_reset\<close> is the value last written to the reset
  signal, \<open>shift_left\<close> what is left of the frame on the wire and \<open>st_time\<close> the time, in
  picoseconds.
\<close>

datatype report = Took nat | Read_back u16 | Rejected bool | Interrupt_pin bool

record spi_tb =
  st_spi :: "unit spi"
  st_reset :: bool
  shift_left :: nat
  st_time :: nat
  st_reports :: "report list"

text \<open>A delta cycle; a frame that starts in it sets the time that is left.\<close>

definition st_cycle :: "spi_tb \<Rightarrow> spi_tb res" where
  "st_cycle s =
     bindR (if run_transmit (st_spi s) then transmit_resume dummy_peripheral (st_spi s) else Inr (st_spi s)) (\<lambda>x.
     let left = (case transmit_at x of Wait_shift _ _ d \<Rightarrow> if run_transmit (st_spi s) then unat d else shift_left s
                 | _ \<Rightarrow> shift_left s)
     in Inr (s\<lparr>st_spi := spi_delta (st_reset s) (run_others x), shift_left := left\<rparr>))"

fun st_settle :: "nat \<Rightarrow> spi_tb \<Rightarrow> spi_tb res" where
  "st_settle 0 s = Inl Would_wait"
| "st_settle (Suc n) s =
     (if spi_settled (st_spi s) \<and> reset_in (st_spi s) = st_reset s then Inr s
      else bindR (st_cycle s) (st_settle n))"

text \<open>\<open>wait(d)\<close> for a positive time.\<close>

function st_wait :: "nat \<Rightarrow> spi_tb \<Rightarrow> spi_tb res" where
  "st_wait d s =
     bindR (st_settle 10 s) (\<lambda>s.
     if \<not> shifting (st_spi s) \<or> shift_left s > d \<or> shift_left s = 0
     then Inr (s\<lparr>shift_left := shift_left s - d, st_time := st_time s + d\<rparr>)
     else let s' = s\<lparr>st_spi := (st_spi s)\<lparr>run_transmit := True\<rparr>, st_time := st_time s + shift_left s\<rparr>
          in if shift_left s = d then Inr s' else st_wait (d - shift_left s) s')"
  by pat_completeness auto
termination
  by (relation "measure fst") auto

declare st_wait.simps [simp del]

section \<open>The test\<close>

definition do_transaction :: "tlm_command \<Rightarrow> u64 \<Rightarrow> u16 \<Rightarrow> spi_tb \<Rightarrow> (spi_tb \<times> u16 \<times> tlm_response) res" where
  "do_transaction cmd addr dat s =
     bindR (spi_b_transport (st_spi s) (empty_payload\<lparr>command := cmd, address := addr,
       data_ptr := Some (le_bytes 2 dat), data_length := 2, response_status := TLM_INCOMPLETE_RESPONSE\<rparr>) 0) (\<lambda>(x, p, d).
     bindR (ptr_load p 2) (\<lambda>bs.
     bindR (st_wait (unat d) (s\<lparr>st_spi := x\<rparr>)) (\<lambda>s. Inr (s, le_word bs, response_status p))))"

definition st_write :: "u64 \<Rightarrow> u16 \<Rightarrow> spi_tb \<Rightarrow> spi_tb res" where
  "st_write addr dat s = bindR (do_transaction TLM_WRITE_COMMAND addr dat s) (\<lambda>(s, _, _). Inr s)"

definition st_pulse :: "spi_tb \<Rightarrow> spi_tb res" where
  "st_pulse s = bindR (st_wait 20000 (s\<lparr>st_reset := False\<rparr>)) (\<lambda>s. st_wait 10000 (s\<lparr>st_reset := True\<rparr>))"

definition st_print :: "report \<Rightarrow> spi_tb \<Rightarrow> spi_tb" where
  "st_print r s = s\<lparr>st_reports := st_reports s @ [r]\<rparr>"

definition st_start :: "unit spi \<Rightarrow> spi_tb res" where
  "st_start x =
     bindR (spi_initialize dummy_peripheral x) (\<lambda>x.
     bindR (st_wait 10000 \<lparr>st_spi = x, st_reset = True, shift_left = 0, st_time = 0, st_reports = []\<rparr>) st_pulse)"

text \<open>The polling loop of the first test.\<close>

fun st_poll :: "nat \<Rightarrow> u16 \<Rightarrow> spi_tb \<Rightarrow> spi_tb res" where
  "st_poll 0 dat s = Inl Would_wait"
| "st_poll (Suc n) dat s =
     bindR (do_transaction TLM_READ_COMMAND 0x0C dat s) (\<lambda>(s, dat, _).
     if dat AND 0x04 \<noteq> 0 then Inr s else bindR (st_wait 10000 s) (st_poll n dat))"

definition spi_test1 :: "spi_tb \<Rightarrow> spi_tb res" where
  "spi_test1 s =
     bindR (st_write 0x00 (push_bit 8 255 OR 0x07) s) (\<lambda>s.
     bindR (st_write 0x10 254 s) (\<lambda>s.
     bindR (st_write 0x04 0x02 s) (\<lambda>s.
     let start_t = st_time s in
     bindR (st_write 0x08 0x11 s) (\<lambda>s.
     bindR (st_poll 200000 0x11 s) (\<lambda>s. Inr (st_print (Took (st_time s - start_t)) s))))))"

definition spi_test2 :: "spi_tb \<Rightarrow> spi_tb res" where
  "spi_test2 s =
     bindR (st_pulse s) (\<lambda>s.
     bindR (st_write 0x04 0x02 s) (\<lambda>s.
     bindR (st_write 0x00 0x03 s) (\<lambda>s.
     bindR (st_write 0x08 0xFF s) (\<lambda>s.
     bindR (st_wait 500000 s) (\<lambda>s.
     bindR (do_transaction TLM_READ_COMMAND 0x08 0xFF s) (\<lambda>(s, dat, _). Inr (st_print (Read_back dat) s)))))))"

fun st_fill :: "u16 list \<Rightarrow> spi_tb \<Rightarrow> spi_tb res" where
  "st_fill [] s = Inr s"
| "st_fill (v # vs) s = bindR (st_write 0x08 v s) (st_fill vs)"

definition spi_test3 :: "spi_tb \<Rightarrow> spi_tb res" where
  "spi_test3 s =
     bindR (st_pulse s) (\<lambda>s.
     bindR (st_write 0x04 0x00 s) (\<lambda>s.
     bindR (st_fill [0, 1, 2, 3, 4, 5, 6, 7] s) (\<lambda>s.
     bindR (do_transaction TLM_WRITE_COMMAND 0x08 7 s) (\<lambda>(s, _, status).
     let s = st_print (Rejected (status = TLM_GENERIC_ERROR_RESPONSE)) s in
     bindR (st_write 0x04 0x02 s) (st_wait 500000)))))"

definition spi_test4 :: "spi_tb \<Rightarrow> spi_tb res" where
  "spi_test4 s =
     bindR (st_pulse s) (\<lambda>s.
     bindR (st_write 0x14 0x01 s) (\<lambda>s.
     bindR (do_transaction TLM_READ_COMMAND 0x08 0x01 s) (\<lambda>(s, _, _).
     bindR (st_wait 1000 s) (\<lambda>s.
     let s = st_print (Interrupt_pin (intr (st_spi s))) s in
     bindR (st_write 0x20 0x01 s) (\<lambda>s.
     bindR (st_wait 1000 s) (\<lambda>s. Inr (st_print (Interrupt_pin (intr (st_spi s))) s)))))))"

definition run_test :: "unit spi \<Rightarrow> spi_tb res" where
  "run_test x = fold (\<lambda>test r. bindR r test) [spi_test1, spi_test2, spi_test3, spi_test4] (st_start x)"

section \<open>Running the tests\<close>

text \<open>The state between two accesses, with the controller at rest and nothing to send.\<close>

abbreviation sts where
  "sts cr0 cr1 dr sr cpsr imsc ris mis icr rx irq time reps \<equiv>
     \<lparr>st_spi = \<lparr>reg_cr0 = cr0, reg_cr1 = cr1, reg_dr = dr, reg_sr = sr, reg_cpsr = cpsr, reg_imsc = imsc, reg_ris = ris,
        reg_mis = mis, reg_icr = icr, reg_dmacr = 0,
        rx_fifo = \<lparr>fifo_size = 8, readable = rx, num_read = 0, written = []\<rparr>,
        tx_fifo = \<lparr>fifo_size = 8, readable = [], num_read = 0, written = []\<rparr>,
        transmission_event = None, possible_intr_event = None, status_event = None, is_transmitting = False, intr = irq,
        reset_in = True, transmit_at = Wait_event, run_transmit = False, run_intr = False, run_status = False,
        run_reset = False, peri_state = ()\<rparr>,
      st_reset = True, shift_left = 0, st_time = time, st_reports = reps\<rparr>"

lemma st_settle_numeral: "st_settle (numeral k) s =
    (if spi_settled (st_spi s) \<and> reset_in (st_spi s) = st_reset s then Inr s
     else bindR (st_cycle s) (st_settle (pred_numeral k)))"
  by (simp add: numeral_eq_Suc)

lemmas st_eval = st_settle_numeral st_cycle_def spi_settled_def runnable_def fifo_quiet_def shifting_def spi_eval
  do_transaction_def st_write_def st_pulse_def st_print_def spi_b_transport_def write_reg_def read_reg_def
  ptr_load_def ptr_store_def fifo_read_ok fifo_write_ok dummy_exchange transmission_time_def bits_per_frame_def
  frame_mask_def empty_payload_def

lemma st_start_eq:
  assumes "spi_elaborated x" and "\<not> reset_in x"
  shows "st_start x = Inr (sts 0 0 (reg_dr x) 3 0 0 8 0 0 [] False 40000 [])"
  using assms
  by (cases x) (simp add: spi_elaborated_def st_start_def spi_initialize_def st_wait.simps st_eval cong: eval_congs)

text \<open>The long frame of the first test on the wire, with the time that is left.\<close>

abbreviation stf where
  "stf left time \<equiv>
     \<lparr>st_spi = \<lparr>reg_cr0 = 0xFF07, reg_cr1 = 2, reg_dr = 0x11, reg_sr = 0x13, reg_cpsr = 254, reg_imsc = 0, reg_ris = 8,
        reg_mis = 0, reg_icr = 0, reg_dmacr = 0,
        rx_fifo = \<lparr>fifo_size = 8, readable = [], num_read = 0, written = []\<rparr>,
        tx_fifo = \<lparr>fifo_size = 8, readable = [], num_read = 0, written = []\<rparr>,
        transmission_event = None, possible_intr_event = None, status_event = None, is_transmitting = True, intr = False,
        reset_in = True, transmit_at = Wait_shift 0xF011 0xFF 5201920000, run_transmit = False, run_intr = False,
        run_status = False, run_reset = False, peri_state = ()\<rparr>,
      st_reset = True, shift_left = left, st_time = time, st_reports = []\<rparr>"

lemma poll_round:
  assumes "left > 0"
  shows "st_poll (Suc n) dat (stf (left + 30000) time) = st_poll n 0x13 (stf left (time + 30000))"
proof -
  define l where "l = left + 30000"
  have "30000 < l" "10000 < l - 20000" using assms by (simp_all add: l_def)
  then have "st_poll (Suc n) dat (stf l time) = st_poll n 0x13 (stf (l - 30000) (30000 + time))"
    by (simp add: st_wait.simps st_eval cong: eval_congs)
  then show ?thesis by (simp add: l_def add.commute del: st_poll.simps)
qed

lemma poll_rounds:
  "left > 0 \<Longrightarrow> st_poll (k + n) 0x13 (stf (left + 30000 * k) time) = st_poll n 0x13 (stf left (time + 30000 * k))"
proof (induction k arbitrary: time)
  case 0
  show ?case by simp
next
  case (Suc k)
  have "st_poll (Suc k + n) 0x13 (stf (left + 30000 * Suc k) time) =
      st_poll (Suc (k + n)) 0x13 (stf ((left + 30000 * k) + 30000) time)" by (simp add: ac_simps del: st_poll.simps)
  also have "\<dots> = st_poll (k + n) 0x13 (stf (left + 30000 * k) (time + 30000))"
    using Suc.prems by (intro poll_round) simp
  also have "\<dots> = st_poll n 0x13 (stf left (time + 30000 + 30000 * k))" by (rule Suc.IH [OF Suc.prems])
  finally show ?case by (simp add: ac_simps)
qed

lemma poll_end: "st_poll (Suc (Suc n)) dat (stf 20000 time) =
    Inr (sts 0xFF07 2 0x11 7 254 0 8 0 0 [0x11] False (time + 50000) [])"
  by (simp add: st_wait.simps st_eval cong: eval_congs)

lemma poll_all: "st_poll 200000 0x11 (stf 5201900000 120000) =
    Inr (sts 0xFF07 2 0x11 7 254 0 8 0 0 [0x11] False 5202050000 [])"
proof -
  have "st_poll (Suc 199999) 0x11 (stf (5201870000 + 30000) 120000) = st_poll 199999 0x13 (stf 5201870000 150000)"
    by (subst poll_round) simp_all
  also have "\<dots> = st_poll (173395 + Suc (Suc 26602)) 0x13 (stf (20000 + 30000 * 173395) 150000)"
    by (simp del: st_poll.simps)
  also have "\<dots> = st_poll (Suc (Suc 26602)) 0x13 (stf 20000 (150000 + 30000 * 173395))"
    by (rule poll_rounds) simp
  also have "\<dots> = Inr (sts 0xFF07 2 0x11 7 254 0 8 0 0 [0x11] False 5202050000 [])"
    by (subst poll_end) simp
  finally show ?thesis by (simp del: st_poll.simps)
qed

lemma spi_test1_ok: "spi_test1 (sts 0 0 dr 3 0 0 8 0 0 [] False 40000 []) =
    Inr (sts 0xFF07 2 0x11 7 254 0 8 0 0 [0x11] False 5202050000 [Took 5201950000])"
  by (simp add: spi_test1_def st_wait.simps st_eval poll_all cong: eval_congs)

lemma spi_test2_ok: "spi_test2 (sts 0xFF07 2 0x11 7 254 0 8 0 0 [0x11] False time reps) =
    Inr (sts 3 2 0xFF 3 0 0 8 0 0 [] False (time + 610000) (reps @ [Read_back 0xF]))"
  by (simp add: spi_test2_def st_wait.simps st_eval cong: eval_congs)

lemma spi_test3_ok: "spi_test3 (sts 3 2 0xFF 3 0 0 8 0 0 [] False time reps) =
    Inr (sts 0 2 7 15 0 0 12 0 0 [0, 1, 0, 1, 0, 1, 0, 1] False (time + 750000) (reps @ [Rejected True]))"
  by (simp add: spi_test3_def st_wait.simps st_eval cong: eval_congs)

lemma spi_test4_ok: "spi_test4 (sts 0 2 7 15 0 0 12 0 0 [0, 1, 0, 1, 0, 1, 0, 1] False time reps) =
    Inr (sts 0 0 7 3 0 1 8 0 2 [] False (time + 92000) (reps @ [Interrupt_pin True, Interrupt_pin False]))"
  by (simp add: spi_test4_def st_wait.simps st_eval cong: eval_congs)

section \<open>Properties\<close>

text \<open>
  C36: the stress test. Whatever the registers hold at power-on, the test runs to its end, its
  polling loop included, and prints what its comments announce: the slow frame takes 5201950 ns
  with the polling, a word sent in 4-bit mode comes back as four bits, the ninth write to the
  full queue is rejected, the interrupt pin is high after the read of the empty queue and low
  after the condition has been cleared.
\<close>

theorem spi_stress_test:
  assumes "spi_elaborated x" and "\<not> reset_in x"
  shows "\<exists>s. run_test x = Inr s \<and> st_reports s =
    [Took 5201950000, Read_back 0xF, Rejected True, Interrupt_pin True, Interrupt_pin False]"
  by (simp add: run_test_def st_start_eq [OF assms] spi_test1_ok spi_test2_ok spi_test3_ok spi_test4_ok)

theorem spi_stress_test_witness: "\<exists>s. run_test (spi_power_on\<lparr>reset_in := False\<rparr>) = Inr s \<and> st_reports s =
    [Took 5201950000, Read_back 0xF, Rejected True, Interrupt_pin True, Interrupt_pin False]"
  by (rule spi_stress_test) (simp_all add: spi_elaborated_def spi_power_on_def)

end
