(* ===== verification/Bench_Mains.thy ===== *)
theory Bench_Mains
  imports Watchdog Timer_Testbench Pwm Spi_Testbench
begin

text \<open>
  The programs of the component test benches (\<open>components/wdt_tlm/main.cpp\<close>,
  \<open>components/timer_tlm/testbench.cpp\<close>, \<open>components/pwm_tlm/tb.cpp\<close>, \<open>components/spi_tlm/main.cpp\<close>): what
  their \<open>sc_main\<close> returns. The trace files they write are left out.
\<close>

definition tb_passed :: "wdt_tb \<Rightarrow> bool" where
  "tb_passed tb \<longleftrightarrow> tb_errors tb = 0"

definition wdt_sc_main :: "int res" where
  "wdt_sc_main = bindR wdt_testbench (\<lambda>tb. Inr (if tb_passed tb then 0 else 1))"

text \<open>The others return 0 whatever their tests have found; the bench is a part of the result here.\<close>

definition timer_sc_main :: "bool \<Rightarrow> (timer_tb \<times> int) res" where
  "timer_sc_main timer_first = bindR (timer_testbench timer_first) (\<lambda>tb. Inr (tb, 0))"

definition pwm_sc_main :: "(nat list \<times> int) res" where
  "pwm_sc_main = bindR (pwm_tb_run pwm_test_cases pwm_new) (\<lambda>duties. Inr (duties, 0))"

definition spi_sc_main :: "unit spi \<Rightarrow> (spi_tb \<times> int) res" where
  "spi_sc_main x = bindR (run_test x) (\<lambda>tb. Inr (tb, 0))"

text \<open>Failed tests are not seen in the exit code.\<close>

lemma timer_main_ignores_failures: "timer_sc_main timer_first = Inr (tb, code) \<Longrightarrow> code = 0"
  by (auto simp: timer_sc_main_def bindR_eq_Inr)

text \<open>
  The test benches pass on the models. The functional test of the watchdog exits with 0, that is
  without an error counted; the eleven tests of the timer run to the end without a failure,
  whichever of the two threads the kernel runs first when both are runnable; the seven cases of
  the PWM have the duty cycles they announce.
\<close>

lemma test_benches_pass:
  "wdt_sc_main = Inr 0 \<and> (\<exists>tb. timer_sc_main timer_first = Inr (tb, 0) \<and> tb_failed tb = []) \<and>
   pwm_sc_main = Inr ([0, 40, 75, 75, 25, 0, 100], 0)"
proof (intro conjI)
  show "wdt_sc_main = Inr 0"
    unfolding wdt_sc_main_def tb_passed_def bindR_eq_Inr using wdt_testbench_passes by metis
  obtain s where "timer_testbench timer_first = Inr s" "tb_failed s = []"
    using timer_testbench_passes by blast
  then show "\<exists>tb. timer_sc_main timer_first = Inr (tb, 0) \<and> tb_failed tb = []" by (simp add: timer_sc_main_def)
  show "pwm_sc_main = Inr ([0, 40, 75, 75, 25, 0, 100], 0)" by (simp add: pwm_sc_main_def pwm_testbench_duties)
qed

end
