(* ===== verification/Spec2Isabelle.thy ===== *)
theory Spec2Isabelle
  imports Platform_Mains Clint_Firmware Demo_Deadline Spi_Types Spi_Words Spi_Settle Eval_Demo Unit_Tests Bench_Mains
begin

text \<open>
  A verification library for the CDC virtual platform, a SystemC/TLM-2.0 simulation of small
  RISC-V systems: memories and peripherals that answer TLM transactions, an address-decoding
  router between them and the CPU, interrupt controllers that call back into the CPU, a loader
  for firmware images, wrappers around instruction-set simulators, and platforms that wire these
  together.

  \<^bold>\<open>How the model reads the sources.\<close> A class is a record with the fields of the class; the levels
  of the signals it drives and the notification pending on its events are fields too. A blocking
  transport is a function from state, payload and annotated delay to a result: the three updated,
  or a fault. Faults are the C++ operations without defined behaviour (null dereference, a copy
  that leaves its buffer, division by zero, a shift by the width, signed overflow) and the
  exceptions the sources throw. Integers have the width they have in C++ and wrap where C++ wraps;
  the promotions to \<open>int\<close> are written out where they matter. Buffers are byte lists, registers are
  little-endian in them, as the sources assume of the host. A thread is a function for one round
  of its loop, or for the run from one \<open>wait\<close> to the next; an \<open>inductive\<close> step relation
  interleaves bus accesses, input changes, the passing of time and the processes. SystemC and TLM
  are taken as their standard (IEEE 1666) defines them: events with at most one pending
  notification, immediate, delta and timed notification, update of signals between delta cycles.

  \<^bold>\<open>The theories.\<close>
  \<^item> \<open>Prelude\<close>: integer types, faults and their sequencing, buffers, little-endian integers.
  \<^item> \<open>Tlm\<close>: the generic payload, the initiators of the repository (\<open>tests/support/tlm_probe.h\<close>, the
    bus accesses of the CPU stubs in \<open>platforms/mini_tlm/src/mini_tlm_top.cpp\<close>), and the contract of
    a target, the locale \<open>tlm_target\<close>: a call returns, keeps the invariant, sets a response and
    returns the attributes the initiator owns. It is interpreted on every target of the library.
  \<^item> \<open>Systemc\<close>: events and their notifications, the calls on a CPU's interrupt inputs, and the
    contract \<open>level_irq\<close> of a level-sensitive CPU, interpreted on the CPU of the PLIC's unit test.
  \<^item> \<open>Memory_Tlm\<close> (\<open>components/memory_tlm\<close>): RAM and ROM with blocking, debug and direct access. The
    blocking transport refines an abstract store of bytes; a ROM is never written; the debug
    transport clamps; the direct-memory descriptor covers the store.
  \<^item> \<open>Bus_Router\<close> (\<open>components/bus_router\<close>, \<open>components/common\<close>): regions, sockets, decoding,
    forwarding. The locale \<open>routed_targets\<close> shows once for all targets that the router over targets
    with the contract has the contract.
  \<^item> \<open>Memory_Map\<close>: memories behind the router form one store over global addresses, with isolated
    regions.
  \<^item> \<open>Clint_Tlm\<close> (\<open>components/clint_tlm\<close>): MTIP is right in every reachable settled state; the timer
    fires at its time; the software interrupt; register slices and where their checks wrap.
  \<^item> \<open>Plic_Tlm\<close> (\<open>components/plic_tlm\<close>): a claim serves the best candidate; MEIP is right in every
    reachable state; gateways are exclusive until completion; registers.
  \<^item> \<open>Watchdog\<close> (\<open>components/wdt_tlm\<close>): the two-stage timeout with its exact times, servicing, the
    lock, the outputs, and the repository's functional test run on the model.
  \<^item> \<open>Timer\<close> (\<open>components/timer_tlm\<close>): the thread as a state machine over its waits; the period, the
    reset, acknowledgement, and that the thread never waits for the wrong event.
  \<^item> \<open>Timer_Testbench\<close> (\<open>components/timer_tlm/testbench.cpp\<close>): the timer's test bench run against the
    model, for both orders in which the kernel may run the two threads.
  \<^item> \<open>Sc_Fifo\<close>: the channel \<open>sc_fifo\<close> with the visibility of its values by delta cycles; the locale
    \<open>delta_fifo\<close> is the contract of such a channel, with the order of the words shown once.
  \<^item> \<open>Spi\<close>, \<open>Spi_Link\<close> (\<open>components/spi_tlm\<close>): the SPI controller, its registers, queues and
    processes. It refines an abstract link of two bounded queues and a frame on the wire; the status
    and the interrupt are right at rest, and the controller is never stuck. The transfer of a frame
    and the stress test follow one schedule of the kernel (\<open>spi_cycles\<close>: the thread, then the methods);
    the invariants hold in every interleaving.
  \<^item> \<open>Spi_Words\<close>: the order of the words, over what an observer of the bus and of the peripheral sees.
  \<^item> \<open>Spi_Settle\<close>: delta cycles end, in every order in which the kernel runs the processes.
  \<^item> \<open>Spi_Types\<close>: the bits each SPI register may hold, in every reachable state, and the bounds of the
    time of a frame that follow.
  \<^item> \<open>Spi_Testbench\<close> (\<open>components/spi_tlm/main.cpp\<close>): the controller's stress test and what it prints.
  \<^item> \<open>Pwm\<close> (\<open>components/pwm_tlm\<close>): the waveform, the duty cycle, and the stimulus of the test bench.
  \<^item> \<open>Elf_Format\<close>: the ELF file format as its standard lays it out: the fields of the two headers in their
    order and widths, offsets computed from them, and the segments of a file. It shares nothing with
    the loader.
  \<^item> \<open>Elf_Loader\<close> (\<open>cpu_models/include/cdc/cpu/elf_loader.h\<close>): the loader over the interface
    \<open>debug_target\<close>, interpreted on a memory and on memories behind the router: it places exactly
    the segments of an image, or throws; those of a 64-bit image go to their virtual addresses.
  \<^item> \<open>Cpu_Models\<close> (\<open>cpu_models/riscv_vp\<close>, \<open>riscv_tlm\<close>): the wrappers, with the simulators they wrap
    as parameters; both start a firmware alike.
  \<^item> \<open>Cpu_Base\<close> (\<open>cpu_models/include/cdc/cpu/cpu_base.h\<close>): the interface of a CPU as the record of its
    virtual functions; the locale \<open>cpu_backend\<close> is what a platform relies on, and both wrappers are
    interpretations of it.
  \<^item> \<open>Platforms\<close> (\<open>platforms\<close>): the four address maps, the bus of \<open>riscv_custom_soc\<close>, and the
    interrupt path from CLINT and PLIC through the wrapper to the core.
  \<^item> \<open>Cpu_Stubs\<close> (\<open>platforms/mini_tlm\<close>, \<open>mini_soc\<close>): the two platforms whose CPU is a C++ program,
    and that program from its start to its last line.
  \<^item> \<open>Options\<close> (\<open>platforms/*/src/main.cpp\<close>): command lines, \<open>std::stoull\<close> and the way from a number to a
    simulation time.
  \<^item> \<open>Platform_Mains\<close>: the constructors of the two RISC-V tops and the four \<open>sc_main\<close>: what they start
    with which firmware, quantum and time, and what they refuse.
  \<^item> \<open>Firmware\<close>, \<open>Firmware_Run\<close> (\<open>fw/soc_irq_riscv\<close>): the interrupt demo on the bus of
    \<open>riscv_custom_soc\<close>, as a system of the program, the hart, the interrupt line, the two
    controllers and time: what it prints in every interleaving, that it does not hang, and a run
    to its end.
  \<^item> \<open>Runs\<close>: the locale \<open>converging\<close>, systems whose moves decrease a rank until the end is reached:
    every fair run ends, and fair runs exist where no state is stuck.
  \<^item> \<open>Demo_System\<close>, \<open>Demo_Deadline\<close>: the interrupt demo on a hart of bounded speed. An abstract system
    without data, with the invariant that bounds its time and the rank of its steps; the program
    on the SoC refines it, so it is at its end by a deadline, and every fair run gets there.
  \<^item> \<open>Clint_Firmware\<close> (\<open>fw/clint_timer_riscv\<close>): the timer demo statement by statement on a hart of
    bounded speed: when it ends, what it has printed then, and that every run reaches the end.
  \<^item> \<open>Cpu_Eval\<close> (\<open>platforms/riscv_cpu_eval\<close>, \<open>fw/hello_baremetal_riscv\<close>, \<open>fw/timer_irq_riscv\<close>,
    \<open>fw/bench_riscv\<close>): the evaluation platform with the bridge of its timer interrupt, and its programs.
  \<^item> \<open>Eval_Demo\<close>: \<open>fw/timer_irq_riscv\<close> on that platform with each of the two backends, as a system of
    program, core, timer and bridge: it ends with the one and never takes its interrupt with the other.
  \<^item> \<open>Unit_Tests\<close> (\<open>components/*/tests\<close>): the unit tests of the memory, the router, the CLINT and the
    PLIC evaluated on the models, with the CPUs they mock: checks of the models, not properties of the code.
  \<^item> \<open>Bench_Mains\<close>: the \<open>sc_main\<close> of the four component test benches, evaluated in the same way.

  \<^bold>\<open>Bounds.\<close> The PLIC is taken with at most 31 sources: its source ids index the bits of one 32-bit
  word, and beyond that its shifts are undefined (the model returns \<open>Shift_too_wide\<close>). The PWM
  theorems ask for a period of at most 65536, the range of its 16-bit counter; the duty cycle also for a
  phase delay of at most the period, beyond which its difference wraps. The loader's
  theorems ask for files below 4 GiB, since a segment's length is cut to 32 bits. The runs of the
  two interrupt-driven programs are shown for harts with a bound \<open>d\<close> on the time of a step (a
  statement of the timer demo) such that \<open>9 d\<close> (the timer demo) or \<open>7 d\<close> (the interrupt demo) and
  100 us fit in the 5 ms the platform simulates; without a bound on its speed the interrupt demo is
  shown not to hang for the first 71 minutes of simulated time, in which the low word of \<open>mtime\<close> does
  not wrap. The quantum of the programs is exact while it is below \<open>2 ^ 53\<close> picoseconds; beyond that
  \<open>Options\<close> rounds number and product as \<open>double\<close> does, and the conversion to the 64-bit integer overflows
  from \<open>2 ^ 63\<close> on. The time of an SPI frame, which the sources compute in doubles, is
  the exact quotient; \<open>Spi\<close> says why the rounding gives it. Loops that wait for an
  event have fuel in the test benches only: 100 delta cycles and ticks for an interrupt of the
  timer, 10 delta cycles for the SPI controller to rest, 200000 rounds for the polling loop of its
  test and 4 wake-ups of the CLINT's timer process in its unit test; the theorems show that the runs
  end within them.

  \<^bold>\<open>Not modelled.\<close> The UART, the I2C controller and \<open>timer_tlm.h\<close> are git submodules or headers
  without sources here; in the platforms they are any targets with the contract, and the theorems
  on programs say what those rely on. The instruction-set simulators are third-party code and
  enter through \<open>iss_ops\<close> and \<open>bank_ops\<close> with the documented behaviour of their interrupt bits and
  program counter as hypotheses; the programs of \<open>fw\<close> are taken at the level of C, with a volatile
  access as one bus transaction. What the kernel and the simulator do between the start of the
  simulation and its end is a parameter of \<open>sc_main\<close>, as are the content of files and the text with
  the host's time in a benchmark's report. Trace files and the console messages of the components
  and their tests (the lines the platforms print are modelled) are left out. The remaining directories hold empty files.
\<close>

end
